(* ===== verification/Prelude.thy ===== *)
theory Prelude
  imports Main "HOL-Library.Word"
begin

text \<open>
  Shared vocabulary of the development: the machine types of the Rust source, Rust
  strings (sequences of Unicode scalar values) with the \<open>std::str\<close> functions the server
  calls, time readings, and the named theorem collections the component theories fill.
\<close>

section \<open>Theorem collections\<close>

named_theorems frame_simps \<open>an operation leaves the fields it does not write unchanged\<close>
named_theorems effect_simps \<open>what an operation does to the fields it writes\<close>
named_theorems invariant_intros \<open>an operation preserves an invariant\<close>

section \<open>Machine types\<close>

text \<open>A 64-bit target: \<open>usize\<close> is 64 bits wide.\<close>

type_synonym u8 = "8 word"
type_synonym u16 = "16 word"
type_synonym u32 = "32 word"
type_synonym u64 = "64 word"
type_synonym usize = "64 word"
type_synonym bytes = "u8 list"

text \<open>
  \<open>std::time::Instant\<close> and \<open>std::time::Duration\<close> count nanoseconds. The subtraction of
  natural numbers stops at 0, as \<open>Instant::duration_since\<close> does.
  An operation that reads the clock several times takes a \<open>clock\<close>: reading number \<open>i\<close> of
  the operation is \<open>clk i\<close>. A monotone clock has \<open>mono clk\<close>.
\<close>

type_synonym instant = nat
type_synonym duration = nat
type_synonym clock = "nat \<Rightarrow> instant"

definition nanos_per_sec :: nat where
  "nanos_per_sec = 1000000000"

definition duration_from_secs :: "nat \<Rightarrow> duration" where
  "duration_from_secs s = s * nanos_per_sec"

definition duration_since :: "instant \<Rightarrow> instant \<Rightarrow> duration" where
  "duration_since now earlier = now - earlier"

lemma nanos_per_sec_pos [simp]: "0 < nanos_per_sec"
  by (simp add: nanos_per_sec_def)

lemma duration_since_self [simp]: "duration_since t t = 0"
  by (simp add: duration_since_def)

lemma duration_since_telescope:
  "a \<le> b \<Longrightarrow> b \<le> c \<Longrightarrow> duration_since b a + duration_since c b = duration_since c a"
  by (simp add: duration_since_def)

section \<open>Rust strings\<close>

text \<open>
  A Rust \<open>char\<close> is a Unicode scalar value and a \<open>str\<close> is a sequence of them, stored as
  UTF-8: \<open>chars()\<close> counts scalar values, \<open>len()\<close> counts bytes.
\<close>

type_synonym rust_char = nat
type_synonym rust_string = "rust_char list"

text \<open>The variables of the process environment.\<close>

type_synonym env_vars = "string \<Rightarrow> rust_string option"

definition lit :: "string \<Rightarrow> rust_string" where
  "lit s = map of_char s"

lemma lit_Nil [simp]: "lit [] = []"
  by (simp add: lit_def)

lemma lit_Cons: "lit (c # s) = of_char c # lit s"
  by (simp add: lit_def)

lemma lit_append: "lit (s @ t) = lit s @ lit t"
  by (simp add: lit_def)

lemma lit_inject [simp]: "lit s = lit t \<longleftrightarrow> s = t"
proof -
  have "inj (of_char :: char \<Rightarrow> nat)" by (auto intro: injI)
  then show ?thesis by (simp add: lit_def inj_map_eq_map)
qed

lemma length_lit [simp]: "length (lit s) = length s"
  by (simp add: lit_def)

lemma lit_eq_Nil [simp]: "lit s = [] \<longleftrightarrow> s = []"
  by (simp add: lit_def)

definition char_colon :: rust_char where "char_colon = 58"
definition char_slash :: rust_char where "char_slash = 47"
definition char_comma :: rust_char where "char_comma = 44"

text \<open>The Unicode property \<open>White_Space\<close>, as \<open>char::is_whitespace\<close> tests it.\<close>

definition whitespace_chars :: "rust_char list" where
  "whitespace_chars =
     [9, 10, 11, 12, 13, 32, 133, 160, 5760,
      8192, 8193, 8194, 8195, 8196, 8197, 8198, 8199, 8200, 8201, 8202,
      8232, 8233, 8239, 8287, 12288]"

definition is_whitespace :: "rust_char \<Rightarrow> bool" where
  "is_whitespace c \<longleftrightarrow> c \<in> set whitespace_chars"

definition trim_start :: "rust_string \<Rightarrow> rust_string" where
  "trim_start s = dropWhile is_whitespace s"

definition trim_end :: "rust_string \<Rightarrow> rust_string" where
  "trim_end s = rev (dropWhile is_whitespace (rev s))"

definition trim :: "rust_string \<Rightarrow> rust_string" where
  "trim s = trim_end (trim_start s)"

definition trim_start_matches :: "rust_char \<Rightarrow> rust_string \<Rightarrow> rust_string" where
  "trim_start_matches c s = dropWhile (\<lambda>x. x = c) s"

definition split_first :: "rust_char \<Rightarrow> rust_string \<Rightarrow> rust_string" where
  \<comment> \<open>\<open>s.split(c).next()\<close>, which is never \<open>None\<close>\<close>
  "split_first c s = takeWhile (\<lambda>x. x \<noteq> c) s"

definition split_once :: "rust_char \<Rightarrow> rust_string \<Rightarrow> (rust_string \<times> rust_string) option" where
  "split_once c s =
     (if c \<in> set s
      then Some (takeWhile (\<lambda>x. x \<noteq> c) s, tl (dropWhile (\<lambda>x. x \<noteq> c) s))
      else None)"

definition strip_prefix :: "rust_string \<Rightarrow> rust_string \<Rightarrow> rust_string option" where
  "strip_prefix p s =
     (if take (length p) s = p then Some (drop (length p) s) else None)"

definition utf8_width :: "rust_char \<Rightarrow> nat" where
  "utf8_width c =
     (if c < 128 then 1 else if c < 2048 then 2 else if c < 65536 then 3 else 4)"

definition str_len :: "rust_string \<Rightarrow> nat" where
  \<comment> \<open>\<open>str::len\<close>: the length in bytes\<close>
  "str_len s = sum_list (map utf8_width s)"

definition unwrap_and :: "'a option \<Rightarrow> ('a \<Rightarrow> bool) \<Rightarrow> bool" where
  \<comment> \<open>in a test: \<open>unwrap\<close> panics on \<open>None\<close>, which fails the test\<close>
  "unwrap_and x P = (case x of None \<Rightarrow> False | Some v \<Rightarrow> P v)"

definition unwrap_or :: "'a option \<Rightarrow> 'a \<Rightarrow> 'a" where
  "unwrap_or x d = (case x of None \<Rightarrow> d | Some v \<Rightarrow> v)"

lemma unwrap_or_simps [simp]:
  "unwrap_or None d = d"
  "unwrap_or (Some v) d = v"
  by (simp_all add: unwrap_or_def)

lemma slash_not_whitespace [simp]: "\<not> is_whitespace char_slash"
  by (simp add: is_whitespace_def whitespace_chars_def char_slash_def)

lemma length_trim_le: "length (trim s) \<le> length s"
  by (simp add: trim_def trim_end_def trim_start_def)
     (metis length_dropWhile_le length_rev order_trans)

lemma str_len_bounds: "length s \<le> str_len s" "str_len s \<le> 4 * length s"
  by (induction s) (auto simp: str_len_def utf8_width_def)

lemma str_len_append: "str_len (s @ t) = str_len s + str_len t"
  by (simp add: str_len_def)

lemma split_once_append:
  "c \<notin> set a \<Longrightarrow> split_once c (a @ c # b) = Some (a, b)"
proof -
  assume c: "c \<notin> set a"
  then have "takeWhile (\<lambda>x. x \<noteq> c) (a @ c # b) = a"
    by (subst takeWhile_append2) auto
  moreover from c have "dropWhile (\<lambda>x. x \<noteq> c) (a @ c # b) = c # b"
    by (subst dropWhile_append2) auto
  ultimately show ?thesis by (simp add: split_once_def)
qed

lemma split_once_None: "c \<notin> set s \<Longrightarrow> split_once c s = None"
  by (simp add: split_once_def)

lemma split_once_Some:
  assumes "split_once c s = Some (a, b)"
  shows "s = a @ c # b" and "c \<notin> set a"
proof -
  from assms have c: "c \<in> set s" and a: "a = takeWhile (\<lambda>x. x \<noteq> c) s"
    and b: "b = tl (dropWhile (\<lambda>x. x \<noteq> c) s)"
    by (auto simp: split_once_def split: if_splits)
  from c have ne: "dropWhile (\<lambda>x. x \<noteq> c) s \<noteq> []" by (simp add: dropWhile_eq_Nil_conv)
  then have "hd (dropWhile (\<lambda>x. x \<noteq> c) s) = c" using hd_dropWhile by blast
  with ne b have "dropWhile (\<lambda>x. x \<noteq> c) s = c # b" by (metis list.collapse)
  with a show "s = a @ c # b" by (metis takeWhile_dropWhile_id)
  from a show "c \<notin> set a" by (auto dest: set_takeWhileD)
qed

lemma strip_prefix_append [simp]: "strip_prefix p (p @ s) = Some s"
  by (simp add: strip_prefix_def)

lemma strip_prefix_Some: "strip_prefix p s = Some t \<longleftrightarrow> s = p @ t"
  by (auto simp: strip_prefix_def) (metis append_take_drop_id)

section \<open>Words\<close>

lemma unat_plus_one_less:
  fixes a b :: "'a::len word"
  assumes "a < b"
  shows "unat (a + 1) = unat a + 1"
proof -
  from assms have "unat a + 1 \<le> unat b" by (simp add: word_less_nat_alt)
  moreover have "unat b < 2 ^ LENGTH('a)" by (rule unsigned_less)
  ultimately have "unat a + 1 < 2 ^ LENGTH('a)" by linarith
  then show ?thesis by (simp add: unat_word_ariths)
qed

lemma unat_minus_one_pos:
  fixes a :: "'a::len word"
  assumes "0 < a"
  shows "unat (a - 1) = unat a - 1"
proof -
  from assms have "a \<noteq> 0" by auto
  then show ?thesis by (rule unat_minus_one)
qed

section \<open>Maps\<close>

lemma map_upd_other [simp]: "k \<noteq> k' \<Longrightarrow> (m(k \<mapsto> v)) k' = m k'"
  by simp

end
