(* ===== verification/F64.thy ===== *)
theory F64
  imports Prelude "HOL-Library.Log_Nat"
begin

text \<open>
  IEEE 754 binary64 arithmetic, as far as the rate limiters use it: non-negative finite
  values in the range of normal numbers. A value is a rational, and each operation is the
  exact result rounded to 53 significant bits, to nearest, ties to even. The exponent is
  not bounded: the values the limiters compute stay far from overflow (below
  \<open>2\<^sup>1\<^sup>0\<^sup>0\<close>) and are either 0 or at least \<open>2\<^sup>-\<^sup>6\<^sup>0\<close>, far from the subnormal numbers.
\<close>

type_synonym f64 = rat

section \<open>Rounding\<close>

definition round_half_even :: "rat \<Rightarrow> int" where
  "round_half_even x =
     (let f = \<lfloor>x\<rfloor>; r = x - of_int f
      in if r < 1 / 2 then f
         else if 1 / 2 < r then f + 1
         else if even f then f else f + 1)"

definition f64_exp :: "rat \<Rightarrow> int" where
  \<comment> \<open>the exponent \<open>e\<close> with \<open>2\<^sup>e \<le> x < 2\<^sup>e\<^sup>+\<^sup>1\<close>\<close>
  "f64_exp x =
     (let (p, q) = quotient_of x; k = bitlen p - bitlen q
      in if 2 powi k \<le> x then k else k - 1)"

definition f64_ulp :: "rat \<Rightarrow> rat" where
  "f64_ulp x = 2 powi (f64_exp x - 52)"

definition f64_round :: "rat \<Rightarrow> f64" where
  "f64_round x =
     (if x = 0 then 0 else of_int (round_half_even (x / f64_ulp x)) * f64_ulp x)"

lemma round_half_even_of_int [simp]: "round_half_even (of_int n) = n"
  by (simp add: round_half_even_def)

lemma round_half_even_cases:
  "round_half_even x = \<lfloor>x\<rfloor> \<and> x - of_int \<lfloor>x\<rfloor> \<le> 1 / 2 \<or>
   round_half_even x = \<lfloor>x\<rfloor> + 1 \<and> 1 / 2 \<le> x - of_int \<lfloor>x\<rfloor>"
  by (auto simp: round_half_even_def Let_def)

lemma round_half_even_error: "\<bar>of_int (round_half_even x) - x\<bar> \<le> 1 / 2"
  using round_half_even_cases [of x] floor_correct [of x] by auto

lemma round_half_even_mono:
  assumes "x \<le> y"
  shows "round_half_even x \<le> round_half_even y"
proof (cases "\<lfloor>x\<rfloor> = \<lfloor>y\<rfloor>")
  case True
  then have "x - of_int \<lfloor>x\<rfloor> \<le> y - of_int \<lfloor>y\<rfloor>" using assms by simp
  with True show ?thesis by (auto simp: round_half_even_def Let_def)
next
  case False
  with floor_mono [OF assms] have lt: "\<lfloor>x\<rfloor> + 1 \<le> \<lfloor>y\<rfloor>" by linarith
  have "round_half_even x \<le> \<lfloor>x\<rfloor> + 1" using round_half_even_cases [of x] by auto
  moreover have "\<lfloor>y\<rfloor> \<le> round_half_even y" using round_half_even_cases [of y] by auto
  ultimately show ?thesis using lt by linarith
qed

lemma round_half_even_ge: "of_int n \<le> x \<Longrightarrow> n \<le> round_half_even x"
  using round_half_even_mono [of "of_int n" x] by simp

lemma round_half_even_le: "x \<le> of_int n \<Longrightarrow> round_half_even x \<le> n"
  using round_half_even_mono [of x "of_int n"] by simp

lemma bitlen_powi_bounds:
  assumes "0 < n"
  shows "2 powi (bitlen n - 1) \<le> (of_int n :: rat)" and "(of_int n :: rat) < 2 powi bitlen n"
proof -
  from assms have b: "2 ^ nat (bitlen n - 1) \<le> n \<and> n < 2 ^ nat (bitlen n)"
    by (rule bitlen_bounds)
  from assms have pos: "1 \<le> bitlen n"
    using bitlen_eq_zero_iff [of n] bitlen_nonneg [of n] by linarith
  from b have "(of_int (2 ^ nat (bitlen n - 1)) :: rat) \<le> of_int n"
    by (simp only: of_int_le_iff)
  then show "2 powi (bitlen n - 1) \<le> (of_int n :: rat)"
    using pos by (simp add: power_int_def)
  from b have "(of_int n :: rat) < of_int (2 ^ nat (bitlen n))"
    by (simp only: of_int_less_iff)
  then show "(of_int n :: rat) < 2 powi bitlen n"
    using pos by (simp add: power_int_def)
qed

lemma f64_exp_bounds:
  assumes "0 < x"
  shows "2 powi (f64_exp x) \<le> x" and "x < 2 powi (f64_exp x + 1)"
proof -
  obtain p q where pq: "quotient_of x = (p, q)" by (cases "quotient_of x")
  then have x: "x = of_int p / of_int q" and q: "0 < q"
    by (rule quotient_of_div, rule quotient_of_denom_pos)
  from x q assms have p: "0 < p" by (simp add: zero_less_divide_iff)
  let ?k = "bitlen p - bitlen q"
  note bp = bitlen_powi_bounds [OF p] and bq = bitlen_powi_bounds [OF q]
  have two: "(0::rat) < 2 powi i" for i by simp
  have lo: "2 powi (?k - 1) \<le> x"
  proof -
    have "2 powi (?k - 1) * (of_int q :: rat) \<le> 2 powi (?k - 1) * 2 powi bitlen q"
      using bq(2) two by (intro mult_left_mono) auto
    also have "\<dots> = 2 powi (bitlen p - 1)" by (simp add: power_int_add [symmetric])
    also have "\<dots> \<le> of_int p" by (rule bp)
    finally show ?thesis using q by (simp add: x pos_le_divide_eq)
  qed
  have hi: "x < 2 powi (?k + 1)"
  proof -
    have "(of_int p :: rat) < 2 powi bitlen p" by (rule bp)
    also have "\<dots> = 2 powi (?k + 1) * 2 powi (bitlen q - 1)"
      by (simp add: power_int_add [symmetric])
    also have "\<dots> \<le> 2 powi (?k + 1) * of_int q"
      using bq(1) two by (intro mult_left_mono) auto
    finally show ?thesis using q by (simp add: x pos_divide_less_eq)
  qed
  show "2 powi (f64_exp x) \<le> x" using lo by (simp add: f64_exp_def pq Let_def)
  show "x < 2 powi (f64_exp x + 1)" using hi by (simp add: f64_exp_def pq Let_def)
qed

lemma f64_exp_mono:
  assumes "0 < x" "x \<le> y"
  shows "f64_exp x \<le> f64_exp y"
proof (rule ccontr)
  assume "\<not> f64_exp x \<le> f64_exp y"
  then have "(2::rat) powi (f64_exp y + 1) \<le> 2 powi f64_exp x"
    by (intro power_int_increasing) auto
  with f64_exp_bounds(1) [OF assms(1)] f64_exp_bounds(2) [of y] assms show False by simp
qed

lemma f64_ulp_pos [simp]: "0 < f64_ulp x"
  by (simp add: f64_ulp_def)

lemma f64_ulp_neq_0 [simp]: "f64_ulp x \<noteq> 0"
  using f64_ulp_pos [of x] by linarith

lemma f64_ulp_le:
  assumes "0 < x"
  shows "f64_ulp x \<le> x / 2 ^ 52"
proof -
  have "f64_ulp x = 2 powi (f64_exp x) / 2 ^ 52"
    by (simp add: f64_ulp_def power_int_diff)
  with f64_exp_bounds(1) [OF assms] show ?thesis by (simp add: divide_right_mono)
qed

lemma f64_round_between:
  \<comment> \<open>the rounded value stays in the binade of \<open>x\<close>, its upper end included\<close>
  assumes "0 < x"
  shows "2 powi (f64_exp x) \<le> f64_round x" and "f64_round x \<le> 2 powi (f64_exp x + 1)"
proof -
  let ?u = "f64_ulp x" and ?e = "f64_exp x"
  have split: "(2::rat) powi (?e + i) = of_int (2 ^ nat (52 + i)) * ?u" if "0 \<le> 52 + i" for i
  proof -
    have "(of_int (2 ^ nat (52 + i)) :: rat) = 2 powi (52 + i)"
      using that by (simp add: power_int_def)
    then show ?thesis by (simp add: f64_ulp_def power_int_add [symmetric] add.commute)
  qed
  have u: "0 < ?u" by simp
  have "of_int (2 ^ 52) \<le> x / ?u"
    using f64_exp_bounds(1) [OF assms] split [of 0] u
    by (simp add: pos_le_divide_eq del: of_int_power of_int_numeral)
  then have "2 ^ 52 \<le> round_half_even (x / ?u)" by (rule round_half_even_ge)
  then have "(of_int (2 ^ 52) :: rat) \<le> of_int (round_half_even (x / ?u))"
    by (simp only: of_int_le_iff)
  then have "of_int (2 ^ 52) * ?u \<le> f64_round x"
    using assms u by (simp add: f64_round_def mult_right_mono del: of_int_power of_int_numeral)
  then show "2 powi ?e \<le> f64_round x" using split [of 0] by simp
  have "x / ?u \<le> of_int (2 ^ 53)"
    using f64_exp_bounds(2) [OF assms] split [of 1] u
    by (simp add: pos_divide_le_eq del: of_int_power of_int_numeral)
  then have "round_half_even (x / ?u) \<le> 2 ^ 53" by (rule round_half_even_le)
  then have "(of_int (round_half_even (x / ?u)) :: rat) \<le> of_int (2 ^ 53)"
    by (simp only: of_int_le_iff)
  then have "f64_round x \<le> of_int (2 ^ 53) * ?u"
    using assms u by (simp add: f64_round_def mult_right_mono del: of_int_power of_int_numeral)
  then show "f64_round x \<le> 2 powi (?e + 1)" using split [of 1] by simp
qed

lemma f64_round_zero [simp]: "f64_round 0 = 0"
  by (simp add: f64_round_def)

lemma f64_round_nonneg: "0 \<le> x \<Longrightarrow> 0 \<le> f64_round x"
  using f64_round_between(1) [of x]
  by (cases "x = 0") (auto intro: order_trans [of 0 "2 powi f64_exp x"])

lemma f64_round_mono:
  assumes "0 \<le> x" "x \<le> y"
  shows "f64_round x \<le> f64_round y"
proof (cases "x = 0")
  case True
  with assms show ?thesis by (simp add: f64_round_nonneg)
next
  case False
  with assms have x: "0 < x" and y: "0 < y" by simp_all
  show ?thesis
  proof (cases "f64_exp x = f64_exp y")
    case True
    then have "f64_ulp x = f64_ulp y" by (simp add: f64_ulp_def)
    moreover from this assms(2) have "x / f64_ulp x \<le> y / f64_ulp y"
      by (simp add: divide_right_mono less_imp_le)
    ultimately show ?thesis
      using x y by (simp add: f64_round_def mult_right_mono less_imp_le round_half_even_mono)
  next
    case False
    with f64_exp_mono [OF x assms(2)] have "f64_exp x + 1 \<le> f64_exp y" by linarith
    then have "(2::rat) powi (f64_exp x + 1) \<le> 2 powi f64_exp y"
      by (intro power_int_increasing) auto
    with f64_round_between(2) [OF x] f64_round_between(1) [OF y] show ?thesis by simp
  qed
qed

lemma f64_round_error:
  assumes "0 \<le> x"
  shows "\<bar>f64_round x - x\<bar> \<le> x / 2 ^ 53"
proof (cases "x = 0")
  case False
  with assms have x: "0 < x" by simp
  let ?u = "f64_ulp x"
  have "f64_round x - x = (of_int (round_half_even (x / ?u)) - x / ?u) * ?u"
    using x f64_ulp_pos [of x] by (simp add: f64_round_def left_diff_distrib)
  then have "\<bar>f64_round x - x\<bar> = \<bar>of_int (round_half_even (x / ?u)) - x / ?u\<bar> * ?u"
    by (simp add: abs_mult less_imp_le)
  also have "\<dots> \<le> 1 / 2 * ?u"
    using round_half_even_error by (intro mult_right_mono) (auto simp: less_imp_le)
  also have "\<dots> \<le> 1 / 2 * (x / 2 ^ 52)"
    using f64_ulp_le [OF x] by simp
  finally show ?thesis by simp
qed simp

lemma f64_round_of_nat [simp]:
  assumes "n < 2 ^ 53"
  shows "f64_round (of_nat n) = of_nat n"
proof (cases "n = 0")
  case False
  then have x: "(0::rat) < of_nat n" by simp
  have "(of_nat n :: rat) < 2 powi 53"
  proof -
    from assms have "(of_nat n :: rat) < of_nat (2 ^ 53)" by (simp only: of_nat_less_iff)
    then show ?thesis by (simp add: power_int_def)
  qed
  with f64_exp_bounds(1) [OF x] have "(2::rat) powi f64_exp (of_nat n) < 2 powi 53" by simp
  then have e: "f64_exp (of_nat n) \<le> 52"
    using power_int_increasing [of 53 "f64_exp (of_nat n)" "2::rat"] by (cases "53 \<le> f64_exp (of_nat n)") auto
  let ?k = "nat (52 - f64_exp (of_nat n))"
  have k: "(of_int (int n * 2 ^ ?k) :: rat) = of_nat n * 2 powi (52 - f64_exp (of_nat n))"
    using e by (simp add: power_int_def)
  have "(of_nat n :: rat) / f64_ulp (of_nat n) = of_int (int n * 2 ^ ?k)"
    by (simp only: k) (simp add: f64_ulp_def power_int_diff field_simps)
  then have "round_half_even (of_nat n / f64_ulp (of_nat n)) = int n * 2 ^ ?k"
    by (simp only: round_half_even_of_int)
  moreover have "of_int (int n * 2 ^ ?k) * f64_ulp (of_nat n) = (of_nat n :: rat)"
    by (simp only: k) (simp add: f64_ulp_def power_int_diff field_simps)
  ultimately show ?thesis using x by (simp add: f64_round_def)
qed simp

lemma f64_round_numeral [simp]: "numeral k < (2 ^ 53 :: nat) \<Longrightarrow> f64_round (numeral k) = numeral k"
  using f64_round_of_nat [of "numeral k"] by simp

lemma f64_round_one [simp]: "f64_round 1 = 1"
  using f64_round_of_nat [of 1] by simp

section \<open>The rounding interface\<close>

text \<open>
  What the limiters rely on: rounding is monotone, keeps the sign, is exact on small
  natural numbers and has relative error at most \<open>u\<close>. The bounds of the token buckets are
  proved from these laws.
\<close>

locale rounding =
  fixes rnd :: "rat \<Rightarrow> rat" and u :: rat and small :: nat
  assumes rnd_mono: "0 \<le> x \<Longrightarrow> x \<le> y \<Longrightarrow> rnd x \<le> rnd y"
    and rnd_nat: "n < small \<Longrightarrow> rnd (of_nat n) = of_nat n"
    and rnd_error: "0 \<le> x \<Longrightarrow> \<bar>rnd x - x\<bar> \<le> u * x"
    and u_nonneg: "0 \<le> u"
    and small_gt: "1 < small"
begin

lemma rnd_zero: "rnd 0 = 0"
  using rnd_nat [of 0] small_gt by simp

lemma rnd_one: "rnd 1 = 1"
  using rnd_nat [of 1] small_gt by simp

lemma rnd_nonneg: "0 \<le> x \<Longrightarrow> 0 \<le> rnd x"
  using rnd_mono [of 0 x] by (simp add: rnd_zero)

lemma rnd_ge_one: "1 \<le> x \<Longrightarrow> 1 \<le> rnd x"
  using rnd_mono [of 1 x] by (simp add: rnd_one)

lemma rnd_le: "0 \<le> x \<Longrightarrow> rnd x \<le> x * (1 + u)"
  using rnd_error [of x] by (simp add: algebra_simps abs_le_iff)

lemma rnd_le_of_le:
  assumes "0 \<le> x" "x \<le> y"
  shows "rnd x \<le> y * (1 + u)"
proof -
  have "rnd x \<le> rnd y" by (rule rnd_mono [OF assms])
  also have "\<dots> \<le> y * (1 + u)" using assms by (intro rnd_le) auto
  finally show ?thesis .
qed

lemma rnd_add_le:
  assumes "0 \<le> x" "0 \<le> y" "x \<le> a" "y \<le> b"
  shows "rnd (x + y) \<le> (a + b) * (1 + u)"
  using assms by (intro rnd_le_of_le) auto

end

interpretation f64: rounding f64_round "1 / 2 ^ 53" "2 ^ 53"
proof unfold_locales
  show "f64_round x \<le> f64_round y" if "0 \<le> x" "x \<le> y" for x y
    using that by (rule f64_round_mono)
  show "f64_round (of_nat n) = of_nat n" if "n < 2 ^ 53" for n
    using that by (rule f64_round_of_nat)
  show "\<bar>f64_round x - x\<bar> \<le> 1 / 2 ^ 53 * x" if "0 \<le> x" for x
    using f64_round_error [OF that] by simp
qed simp_all

section \<open>The operations\<close>

definition f64_add :: "f64 \<Rightarrow> f64 \<Rightarrow> f64" where
  "f64_add x y = f64_round (x + y)"

definition f64_sub :: "f64 \<Rightarrow> f64 \<Rightarrow> f64" where
  \<comment> \<open>used with \<open>y \<le> x\<close> only\<close>
  "f64_sub x y = f64_round (x - y)"

definition f64_mul :: "f64 \<Rightarrow> f64 \<Rightarrow> f64" where
  "f64_mul x y = f64_round (x * y)"

definition f64_div :: "f64 \<Rightarrow> f64 \<Rightarrow> f64" where
  "f64_div x y = f64_round (x / y)"

definition f64_of_nat :: "nat \<Rightarrow> f64" where
  \<comment> \<open>\<open>n as f64\<close> for an unsigned integer\<close>
  "f64_of_nat n = f64_round (of_nat n)"

definition as_secs_f64 :: "duration \<Rightarrow> f64" where
  \<comment> \<open>\<open>Duration::as_secs_f64\<close>: whole seconds plus nanoseconds over \<open>NANOS_PER_SEC\<close>\<close>
  "as_secs_f64 d =
     f64_add (f64_of_nat (d div nanos_per_sec))
             (f64_div (f64_of_nat (d mod nanos_per_sec)) (f64_of_nat nanos_per_sec))"

lemma f64_of_nat_small [simp]: "n < 2 ^ 53 \<Longrightarrow> f64_of_nat n = of_nat n"
  by (simp add: f64_of_nat_def)

lemma f64_of_nat_nonneg [simp]: "0 \<le> f64_of_nat n"
  by (simp add: f64_of_nat_def f64.rnd_nonneg)

lemma f64_of_nat_ge_one: "1 \<le> n \<Longrightarrow> 1 \<le> f64_of_nat n"
  by (simp add: f64_of_nat_def f64.rnd_ge_one)

lemma f64_of_nat_le: "f64_of_nat n \<le> of_nat n * (1 + 1 / 2 ^ 53)"
  unfolding f64_of_nat_def by (rule f64.rnd_le) simp

lemma f64_of_u32 [simp]: "f64_of_nat (unat (w :: u32)) = of_nat (unat w)"
proof -
  have "unat w < 2 ^ LENGTH(32)" by (rule unsigned_less)
  then have "unat w < 2 ^ 53" by simp
  then show ?thesis by (rule f64_of_nat_small)
qed

lemma f64_nanos_per_sec [simp]: "f64_of_nat nanos_per_sec = 1000000000"
  by (simp add: nanos_per_sec_def)

lemma as_secs_f64_nonneg [simp]: "0 \<le> as_secs_f64 d"
  unfolding as_secs_f64_def f64_add_def f64_div_def
  by (intro f64.rnd_nonneg add_nonneg_nonneg divide_nonneg_nonneg) simp_all

lemma as_secs_f64_zero [simp]: "as_secs_f64 0 = 0"
  by (simp add: as_secs_f64_def f64_add_def f64_div_def f64.rnd_zero)

lemma as_secs_f64_ge_one:
  assumes "nanos_per_sec \<le> d"
  shows "1 \<le> as_secs_f64 d"
proof -
  from assms have "1 \<le> d div nanos_per_sec"
    using div_le_mono [of nanos_per_sec d nanos_per_sec] by simp
  then have "1 \<le> f64_of_nat (d div nanos_per_sec)" by (rule f64_of_nat_ge_one)
  moreover have "0 \<le> f64_div (f64_of_nat (d mod nanos_per_sec)) (f64_of_nat nanos_per_sec)"
    unfolding f64_div_def by (rule f64.rnd_nonneg) simp
  ultimately show ?thesis
    unfolding as_secs_f64_def f64_add_def by (intro f64.rnd_ge_one) simp
qed

text \<open>The relative error of the conversion of a duration to seconds: two roundings.\<close>

lemma as_secs_f64_le:
  "as_secs_f64 d \<le> (of_nat d / 1000000000) * (1 + 1 / 2 ^ 53) ^ 2"
proof -
  let ?e = "1 + 1 / 2 ^ 53 :: rat" and ?n = "nanos_per_sec"
  have m: "d mod ?n < 2 ^ 53"
    using mod_less_divisor [of ?n d] by (simp add: nanos_per_sec_def)
  have frac: "f64_round (f64_of_nat (d mod ?n) / f64_of_nat ?n) \<le> of_nat (d mod ?n) / 1000000000 * ?e"
    unfolding f64_nanos_per_sec f64_of_nat_small [OF m] by (rule f64.rnd_le) simp
  have "as_secs_f64 d \<le> (of_nat (d div ?n) * ?e + of_nat (d mod ?n) / 1000000000 * ?e) * ?e"
    unfolding as_secs_f64_def f64_add_def f64_div_def
    by (intro f64.rnd_add_le f64_of_nat_nonneg f64.rnd_nonneg f64_of_nat_le frac) simp
  also have "\<dots> = ((of_nat (d div ?n) * 1000000000 + of_nat (d mod ?n)) / 1000000000) * ?e ^ 2"
    by (simp add: power2_eq_square field_simps)
  also have "of_nat (d div ?n) * 1000000000 + of_nat (d mod ?n) = (of_nat d :: rat)"
  proof -
    have "(of_nat (d div ?n) * of_nat ?n + of_nat (d mod ?n) :: rat) = of_nat d"
      by (simp only: of_nat_mult [symmetric] of_nat_add [symmetric] div_mult_mod_eq)
    moreover have "(of_nat ?n :: rat) = 1000000000" by (simp add: nanos_per_sec_def)
    ultimately show ?thesis by simp
  qed
  finally show ?thesis .
qed

end
