(* ===== verification/Token_Bucket.thy ===== *)
theory Token_Bucket
  imports F64
begin

text \<open>
  The two token buckets of the server: \<open>TokenBucket\<close> (\<open>src/ip_limiter.rs\<close>; used per IP
  and per tenant) and \<open>RateLimiter\<close> (\<open>src/server.rs\<close>; one per connection). They are
  separate types in the source, and separate records here. Both meet the contract
  \<open>token_gate\<close>, in which the admission bound, the burst and the recovery of a bucket are
  proved once.
\<close>

section \<open>\<open>TokenBucket\<close> (ip\_limiter.rs)\<close>

record token_bucket =
  tb_capacity :: f64
  tb_tokens :: f64
  tb_refill_per_second :: f64
  tb_last_refill :: instant

definition token_bucket_new :: "f64 \<Rightarrow> f64 \<Rightarrow> instant \<Rightarrow> token_bucket" where
  "token_bucket_new refill_per_second burst now =
     (let capacity = max burst 1
      in \<lparr>tb_capacity = capacity,
          tb_tokens = capacity,
          tb_refill_per_second = max refill_per_second 1,
          tb_last_refill = now\<rparr>)"

definition token_bucket_refill :: "instant \<Rightarrow> token_bucket \<Rightarrow> token_bucket" where
  "token_bucket_refill now b =
     (let elapsed = duration_since now (tb_last_refill b)
      in b\<lparr>tb_last_refill := now,
           tb_tokens :=
             min (f64_add (tb_tokens b) (f64_mul (as_secs_f64 elapsed) (tb_refill_per_second b)))
                 (tb_capacity b)\<rparr>)"

definition try_consume :: "instant \<Rightarrow> token_bucket \<Rightarrow> bool \<times> token_bucket" where
  "try_consume now b =
     (let b' = token_bucket_refill now b
      in if 1 \<le> tb_tokens b'
         then (True, b'\<lparr>tb_tokens := f64_sub (tb_tokens b') 1\<rparr>)
         else (False, b'))"

section \<open>\<open>RateLimiter\<close> (server.rs)\<close>

record rate_limiter =
  rl_capacity :: f64
  rl_tokens :: f64
  rl_refill_per_second :: f64
  rl_last_refill :: instant

definition rate_limiter_new :: "u32 \<Rightarrow> u32 \<Rightarrow> instant \<Rightarrow> rate_limiter" where
  "rate_limiter_new refill_per_second burst now =
     (let capacity = f64_of_nat (unat (max burst 1))
      in \<lparr>rl_capacity = capacity,
          rl_tokens = capacity,
          rl_refill_per_second = f64_of_nat (unat (max refill_per_second 1)),
          rl_last_refill = now\<rparr>)"

definition tokens_to_add :: "duration \<Rightarrow> f64 \<Rightarrow> f64" where
  "tokens_to_add elapsed refill_per_second = f64_mul (as_secs_f64 elapsed) refill_per_second"

definition rate_limiter_refill :: "instant \<Rightarrow> rate_limiter \<Rightarrow> rate_limiter" where
  "rate_limiter_refill now r =
     (let elapsed = duration_since now (rl_last_refill r)
      in r\<lparr>rl_last_refill := now,
           rl_tokens :=
             min (f64_add (rl_tokens r) (tokens_to_add elapsed (rl_refill_per_second r)))
                 (rl_capacity r)\<rparr>)"

definition rate_limiter_allow :: "instant \<Rightarrow> rate_limiter \<Rightarrow> bool \<times> rate_limiter" where
  "rate_limiter_allow now r =
     (let r' = rate_limiter_refill now r
      in if 1 \<le> rl_tokens r'
         then (True, r'\<lparr>rl_tokens := f64_sub (rl_tokens r') 1\<rparr>)
         else (False, r'))"

section \<open>The contract of a token bucket\<close>

text \<open>
  The level a bucket reaches \<open>d\<close> nanoseconds after its last refill, capped. A run makes
  one attempt at each of the given instants.
\<close>

definition refilled :: "f64 \<Rightarrow> f64 \<Rightarrow> f64 \<Rightarrow> duration \<Rightarrow> f64" where
  "refilled cap level rate d = min (f64_add level (f64_mul (as_secs_f64 d) rate)) cap"

fun consume_run :: "(instant \<Rightarrow> 'b \<Rightarrow> bool \<times> 'b) \<Rightarrow> 'b \<Rightarrow> instant list \<Rightarrow> bool list \<times> 'b" where
  "consume_run consume b [] = ([], b)"
| "consume_run consume b (t # ts) =
     (let (ok, b') = consume t b; (oks, b'') = consume_run consume b' ts
      in (ok # oks, b''))"

definition admitted :: "bool list \<Rightarrow> nat" where
  "admitted oks = length (filter (\<lambda>ok. ok) oks)"

lemma admitted_simps [simp]:
  "admitted [] = 0"
  "admitted (ok # oks) = (if ok then 1 else 0) + admitted oks"
  by (simp_all add: admitted_def)

lemma refilled_le_cap: "refilled cap level rate d \<le> cap"
  by (simp add: refilled_def)

lemma refilled_nonneg:
  assumes "0 \<le> level" "0 \<le> cap" "0 \<le> rate"
  shows "0 \<le> refilled cap level rate d"
  using assms by (auto simp: refilled_def f64_add_def f64_mul_def
      intro!: f64.rnd_nonneg add_nonneg_nonneg mult_nonneg_nonneg)

lemma refilled_zero:
  assumes "0 \<le> level" "level \<le> cap" "f64_round level = level"
  shows "refilled cap level rate 0 = level"
  using assms by (simp add: refilled_def f64_add_def f64_mul_def)

lemma refilled_ge_one:
  assumes "0 \<le> level" "1 \<le> cap" "1 \<le> rate" "nanos_per_sec \<le> d"
  shows "1 \<le> refilled cap level rate d"
proof -
  have "1 \<le> as_secs_f64 d" using assms(4) by (rule as_secs_f64_ge_one)
  then have "1 * 1 \<le> as_secs_f64 d * rate" using assms(3) by (intro mult_mono) auto
  then have "1 \<le> f64_mul (as_secs_f64 d) rate" by (simp add: f64_mul_def f64.rnd_ge_one)
  then have "1 \<le> f64_add level (f64_mul (as_secs_f64 d) rate)"
    using assms(1) by (auto simp: f64_add_def intro!: f64.rnd_ge_one)
  with assms(2) show ?thesis by (simp add: refilled_def)
qed

text \<open>The level gained in one refill, with every rounding of the computation accounted for.\<close>

lemma refilled_le:
  assumes "0 \<le> level" "level \<le> cap" "0 \<le> rate"
  shows "refilled cap level rate d
           \<le> level + of_nat d / 1000000000 * rate * (1 + 1 / 2 ^ 53) ^ 4 + cap / 2 ^ 53"
proof -
  let ?e = "1 + 1 / 2 ^ 53 :: rat" and ?s = "of_nat d / 1000000000 :: rat"
  have "as_secs_f64 d * rate \<le> ?s * ?e ^ 2 * rate"
    using as_secs_f64_le assms(3) by (rule mult_right_mono)
  then have "f64_mul (as_secs_f64 d) rate \<le> ?s * ?e ^ 2 * rate * ?e"
    using assms(3) unfolding f64_mul_def by (intro f64.rnd_le_of_le) auto
  then have "f64_add level (f64_mul (as_secs_f64 d) rate)
               \<le> (level + ?s * ?e ^ 2 * rate * ?e) * ?e"
    using assms unfolding f64_add_def f64_mul_def
    by (intro f64.rnd_add_le f64.rnd_nonneg mult_nonneg_nonneg) auto
  also have "\<dots> = level + ?s * rate * ?e ^ 4 + level / 2 ^ 53"
    by (simp add: power4_eq_xxxx power2_eq_square algebra_simps)
  also have "\<dots> \<le> level + ?s * rate * ?e ^ 4 + cap / 2 ^ 53"
    using assms(2) by (simp add: divide_right_mono)
  finally show ?thesis by (simp add: refilled_def min_le_iff_disj)
qed

text \<open>
  A well-formed bucket: the level lies between 0 and the capacity, which is a
  representable number and at least 1, and so is the refill rate.
\<close>

definition bucket_wf :: "f64 \<Rightarrow> f64 \<Rightarrow> f64 \<Rightarrow> bool" where
  "bucket_wf cap level rate \<longleftrightarrow>
     0 \<le> level \<and> level \<le> cap \<and> 1 \<le> cap \<and> f64_round cap = cap \<and> 1 \<le> rate"

text \<open>What one attempt finds in the bucket and what it leaves.\<close>

definition gate_step :: "f64 \<Rightarrow> f64 \<Rightarrow> f64 \<Rightarrow> duration \<Rightarrow> bool \<times> f64" where
  "gate_step cap level rate d =
     (let l = refilled cap level rate d
      in if 1 \<le> l then (True, f64_sub l 1) else (False, l))"

lemma gate_step_wf:
  assumes wf: "bucket_wf cap level rate" and step: "gate_step cap level rate d = (ok, level')"
  shows "bucket_wf cap level' rate"
proof -
  let ?l = "refilled cap level rate d"
  have l0: "0 \<le> ?l" and lc: "?l \<le> cap"
    using wf by (auto simp: bucket_wf_def refilled_le_cap intro!: refilled_nonneg)
  have "0 \<le> f64_sub ?l 1 \<and> f64_sub ?l 1 \<le> cap" if one: "1 \<le> ?l"
  proof -
    have "f64_round (?l - 1) \<le> f64_round cap" using one lc by (intro f64_round_mono) auto
    with wf one show ?thesis by (simp add: f64_sub_def f64.rnd_nonneg bucket_wf_def)
  qed
  with step l0 lc have "0 \<le> level'" "level' \<le> cap"
    by (auto simp: gate_step_def Let_def split: if_splits)
  with wf show ?thesis by (simp add: bucket_wf_def)
qed

text \<open>What is left plus what was taken is at most what was there plus the refill.\<close>

lemma gate_step_potential:
  assumes wf: "bucket_wf cap level rate" and step: "gate_step cap level rate d = (ok, level')"
  shows "level' + (if ok then 1 else 0) \<le>
           level + of_nat d / 1000000000 * rate * (1 + 1 / 2 ^ 53) ^ 4 + cap / 2 ^ 52"
proof -
  let ?l = "refilled cap level rate d"
  have l: "?l \<le> level + of_nat d / 1000000000 * rate * (1 + 1 / 2 ^ 53) ^ 4 + cap / 2 ^ 53"
    using wf by (intro refilled_le) (auto simp: bucket_wf_def)
  have lc: "?l \<le> cap" by (rule refilled_le_cap)
  have sub: "f64_sub ?l 1 \<le> (?l - 1) * (1 + 1 / 2 ^ 53)" if "1 \<le> ?l"
    using that unfolding f64_sub_def by (intro f64.rnd_le) simp
  have "level' + (if ok then 1 else 0) \<le> ?l + cap / 2 ^ 53"
    using step sub lc wf
    by (auto simp: gate_step_def Let_def bucket_wf_def algebra_simps split: if_splits)
  moreover have "cap / 2 ^ 52 = cap / 2 ^ 53 + cap / 2 ^ 53" by simp
  ultimately show ?thesis using l by (simp only: add.assoc [symmetric])
qed

lemma gate_step_recovers:
  assumes "bucket_wf cap level rate" "nanos_per_sec \<le> d"
  shows "fst (gate_step cap level rate d)"
  using refilled_ge_one [of level cap rate d] assms by (simp add: gate_step_def bucket_wf_def)

lemma gate_step_instant:
  assumes "of_nat m \<le> cap" "m < 2 ^ 53"
  shows "gate_step cap (of_nat m) rate 0 = (0 < m, of_nat (m - 1))"
proof -
  have l: "refilled cap (of_nat m) rate 0 = of_nat m"
    using assms by (intro refilled_zero) auto
  show ?thesis
  proof (cases m)
    case 0
    with l show ?thesis by (simp add: gate_step_def)
  next
    case (Suc k)
    have "f64_round (of_nat k) = of_nat k" using assms(2) Suc by (intro f64_round_of_nat) auto
    moreover have "(1::rat) \<le> of_nat m" "of_nat m - 1 = (of_nat k :: rat)" using Suc by simp_all
    ultimately show ?thesis unfolding gate_step_def f64_sub_def l Let_def by (simp add: Suc)
  qed
qed

locale token_gate =
  fixes consume :: "instant \<Rightarrow> 'b \<Rightarrow> bool \<times> 'b"
    and capacity level rate :: "'b \<Rightarrow> f64"
    and last_refill :: "'b \<Rightarrow> instant"
  assumes consume_frame:
      "consume now b = (ok, b') \<Longrightarrow>
         capacity b' = capacity b \<and> rate b' = rate b \<and> last_refill b' = now"
    and consume_step:
      "consume now b = (ok, b') \<Longrightarrow>
         gate_step (capacity b) (level b) (rate b) (duration_since now (last_refill b))
           = (ok, level b')"
begin

lemma consume_wf:
  assumes "bucket_wf (capacity b) (level b) (rate b)" "consume now b = (ok, b')"
  shows "bucket_wf (capacity b') (level b') (rate b')"
  using gate_step_wf [OF assms(1) consume_step [OF assms(2)]] consume_frame [OF assms(2)] by simp

lemma run_wf:
  assumes "bucket_wf (capacity b) (level b) (rate b)" "consume_run consume b ts = (oks, b')"
  shows "bucket_wf (capacity b') (level b') (rate b')"
  using assms
proof (induction ts arbitrary: b oks)
  case (Cons t ts)
  obtain ok c where step: "consume t b = (ok, c)" by (rule prod.exhaust)
  from Cons.prems(2) step obtain oks' where "consume_run consume c ts = (oks', b')"
    by (auto split: prod.splits)
  from Cons.IH [OF consume_wf [OF Cons.prems(1) step] this] show ?case .
qed simp

lemma consume_recovers:
  assumes "bucket_wf (capacity b) (level b) (rate b)" "last_refill b + nanos_per_sec \<le> now"
  shows "fst (consume now b)"
proof -
  obtain ok b' where step: "consume now b = (ok, b')" by (cases "consume now b")
  from assms(2) have "nanos_per_sec \<le> duration_since now (last_refill b)"
    by (simp add: duration_since_def)
  from gate_step_recovers [OF assms(1) this] consume_step [OF step] step show ?thesis by simp
qed

text \<open>
  Over any run, the admissions are bounded by the tokens there at the start, the tokens
  that flow in during the run, and the rounding of the attempts.
\<close>

lemma run_bound:
  assumes "bucket_wf (capacity b) (level b) (rate b)" "sorted (last_refill b # ts)"
    and "consume_run consume b ts = (oks, b')"
  shows "level b' + of_nat (admitted oks) \<le>
           level b
             + of_nat (duration_since (last (last_refill b # ts)) (last_refill b)) / 1000000000
                 * rate b * (1 + 1 / 2 ^ 53) ^ 4
             + of_nat (length ts) * (capacity b / 2 ^ 52)"
  using assms
proof (induction ts arbitrary: b oks)
  case Nil
  then show ?case by simp
next
  case (Cons t ts)
  obtain ok c where step: "consume t b = (ok, c)" by (cases "consume t b")
  with Cons.prems(3) obtain oks' where run: "consume_run consume c ts = (oks', b')"
    and oks: "oks = ok # oks'" by (auto split: prod.splits)
  note frame = consume_frame [OF step]
  have wf: "bucket_wf (capacity c) (level c) (rate c)"
    by (rule consume_wf [OF Cons.prems(1) step])
  have "sorted (last_refill c # ts)" using Cons.prems(2) frame by simp
  note IH = Cons.IH [OF wf this run, unfolded conjunct1 [OF frame]]
  note one = gate_step_potential [OF Cons.prems(1) consume_step [OF step]]
  define end1 where "end1 = last (t # ts)"
  define K where "K = capacity b / 2 ^ 52"
  define gain where
    "gain d = of_nat d / 1000000000 * rate b * (1 + 1 / 2 ^ 53) ^ 4" for d :: nat
  have "last_refill b \<le> t" "t \<le> end1"
    using Cons.prems(2) by (auto simp: end1_def split: if_splits)
  then have "duration_since t (last_refill b) + duration_since end1 t
               = duration_since end1 (last_refill b)"
    by (rule duration_since_telescope)
  then have time: "gain (duration_since t (last_refill b)) + gain (duration_since end1 t)
      = gain (duration_since end1 (last_refill b))"
    by (simp only: gain_def distrib_right [symmetric] add_divide_distrib [symmetric]
        of_nat_add [symmetric])
  have ends: "last (last_refill b # t # ts) = end1" "last (last_refill c # ts) = end1"
    using frame by (simp_all add: end1_def)
  have "level b' + of_nat (admitted oks')
          \<le> level c + gain (duration_since end1 t) + of_nat (length ts) * K"
    using IH frame ends by (simp add: gain_def K_def)
  moreover have "level c + (if ok then 1 else 0)
          \<le> level b + gain (duration_since t (last_refill b)) + K"
    using one by (simp add: gain_def K_def)
  moreover have "of_nat (length (t # ts)) * K = of_nat (length ts) * K + K"
    by (simp add: algebra_simps)
  ultimately have "level b' + of_nat (admitted oks)
          \<le> level b + gain (duration_since end1 (last_refill b)) + of_nat (length (t # ts)) * K"
    using time by (simp add: oks split: if_splits)
  then show ?case by (simp only: ends gain_def K_def)
qed

text \<open>Attempts at least one second apart are all admitted.\<close>

lemma run_spaced:
  assumes "bucket_wf (capacity b) (level b) (rate b)"
    and "sorted_wrt (\<lambda>s t. s + nanos_per_sec \<le> t) (last_refill b # ts)"
  shows "fst (consume_run consume b ts) = replicate (length ts) True"
  using assms
proof (induction ts arbitrary: b)
  case Nil
  then show ?case by simp
next
  case (Cons t ts)
  obtain ok c where step: "consume t b = (ok, c)" by (cases "consume t b")
  have ok using consume_recovers [OF Cons.prems(1), of t] Cons.prems(2) step by simp
  moreover have "fst (consume_run consume c ts) = replicate (length ts) True"
    using Cons.prems consume_frame [OF step]
    by (intro Cons.IH consume_wf [OF Cons.prems(1) step]) auto
  ultimately show ?case using step by (simp add: split_beta)
qed

text \<open>At one instant, a bucket that holds \<open>m\<close> whole tokens admits \<open>m\<close> attempts, no more.\<close>

lemma run_instant:
  assumes "level b = of_nat m" "of_nat m \<le> capacity b" "m < 2 ^ 53" "last_refill b = now"
  shows "fst (consume_run consume b (replicate n now))
           = replicate (min n m) True @ replicate (n - m) False"
  using assms
proof (induction n arbitrary: b m)
  case 0
  then show ?case by simp
next
  case (Suc n)
  obtain ok c where step: "consume now b = (ok, c)" by (cases "consume now b")
  from consume_step [OF step] Suc.prems gate_step_instant [OF Suc.prems(2,3)]
  have ok: "ok \<longleftrightarrow> 0 < m" and lev: "level c = of_nat (m - 1)" by simp_all
  have "(of_nat (m - 1) :: rat) \<le> of_nat m" by simp
  then have "of_nat (m - 1) \<le> capacity c" "last_refill c = now"
    using consume_frame [OF step] Suc.prems(2) by (simp_all del: of_nat_le_iff)
  then have "fst (consume_run consume c (replicate n now))
      = replicate (min n (m - 1)) True @ replicate (n - (m - 1)) False"
    using Suc.prems(3) lev by (intro Suc.IH) auto
  with ok step show ?case
    by (cases m) (auto simp: split_beta)
qed

end

section \<open>Both buckets meet the contract\<close>

lemma try_consume_gate:
  assumes "try_consume now b = (ok, b')"
  shows "gate_step (tb_capacity b) (tb_tokens b) (tb_refill_per_second b)
           (duration_since now (tb_last_refill b)) = (ok, tb_tokens b')"
    and "tb_capacity b' = tb_capacity b" "tb_refill_per_second b' = tb_refill_per_second b"
    and "tb_last_refill b' = now"
  using assms
  by (auto simp: try_consume_def token_bucket_refill_def gate_step_def refilled_def Let_def
      split: if_splits)

lemma rate_limiter_allow_gate:
  assumes "rate_limiter_allow now r = (ok, r')"
  shows "gate_step (rl_capacity r) (rl_tokens r) (rl_refill_per_second r)
           (duration_since now (rl_last_refill r)) = (ok, rl_tokens r')"
    and "rl_capacity r' = rl_capacity r" "rl_refill_per_second r' = rl_refill_per_second r"
    and "rl_last_refill r' = now"
  using assms
  by (auto simp: rate_limiter_allow_def rate_limiter_refill_def tokens_to_add_def gate_step_def
      refilled_def Let_def split: if_splits)

interpretation tb: token_gate try_consume tb_capacity tb_tokens tb_refill_per_second tb_last_refill
  by unfold_locales (auto dest: try_consume_gate)

interpretation rl: token_gate rate_limiter_allow rl_capacity rl_tokens rl_refill_per_second
    rl_last_refill
  by unfold_locales (auto dest: rate_limiter_allow_gate)

abbreviation tb_wf :: "token_bucket \<Rightarrow> bool" where
  "tb_wf b \<equiv> bucket_wf (tb_capacity b) (tb_tokens b) (tb_refill_per_second b)"

abbreviation rl_wf :: "rate_limiter \<Rightarrow> bool" where
  "rl_wf r \<equiv> bucket_wf (rl_capacity r) (rl_tokens r) (rl_refill_per_second r)"

lemma token_bucket_new_wf: "f64_round burst = burst \<Longrightarrow> tb_wf (token_bucket_new rate burst now)"
  by (auto simp: token_bucket_new_def bucket_wf_def max_def)

lemma token_bucket_new_simps [simp]:
  "tb_capacity (token_bucket_new r b now) = max b 1"
  "tb_tokens (token_bucket_new r b now) = max b 1"
  "tb_refill_per_second (token_bucket_new r b now) = max r 1"
  "tb_last_refill (token_bucket_new r b now) = now"
  by (simp_all add: token_bucket_new_def Let_def)

lemma unat_max_one: "unat (max (w :: u32) 1) = max (unat w) 1"
  by (auto simp: max_def word_le_nat_alt)

lemma unat_u32_less_f64 [simp]: "unat (w :: u32) < 2 ^ 53"
proof -
  have "unat w < 2 ^ LENGTH(32)" by (rule unsigned_less)
  then show ?thesis by simp
qed

lemma f64_of_u32_max_one: "f64_of_nat (max (unat (w :: u32)) 1) = of_nat (max (unat w) 1)"
  using unat_u32_less_f64 [of w] by (intro f64_of_nat_small) simp

lemma rate_limiter_new_simps [simp]:
  "rl_capacity (rate_limiter_new r b now) = of_nat (max (unat b) 1)"
  "rl_tokens (rate_limiter_new r b now) = of_nat (max (unat b) 1)"
  "rl_refill_per_second (rate_limiter_new r b now) = of_nat (max (unat r) 1)"
  "rl_last_refill (rate_limiter_new r b now) = now"
  by (simp_all only: rate_limiter_new_def Let_def rate_limiter.simps unat_max_one f64_of_u32_max_one)

lemma rate_limiter_new_wf: "rl_wf (rate_limiter_new r b now)"
  using unat_u32_less_f64 [of b] unat_u32_less_f64 [of r]
  by (simp add: bucket_wf_def del: of_nat_max)

text \<open>
  Of frames that arrive at the instant the reader starts, exactly the burst
  passes (at least one), the rest is refused.
\<close>

lemma rate_limiter_burst:
  "fst (consume_run rate_limiter_allow (rate_limiter_new rate burst now) (replicate n now))
     = replicate (min n (max (unat burst) 1)) True @ replicate (n - max (unat burst) 1) False"
proof (rule rl.run_instant)
  show "max (unat burst) 1 < 2 ^ 53" using unat_u32_less_f64 [of burst] by simp
qed simp_all

end
