(* ===== verification/Permit_Pool.thy ===== *)
theory Permit_Pool
  imports Prelude "HOL-Library.Multiset"
begin

text \<open>
  The contract the three connection limits share (the per-IP limiter, the per-tenant
  semaphores and the global semaphore): a pool hands out permits under keys and takes them
  back when they are dropped. \<open>pool_run\<close> replays a history of attempts and drops with
  the multiset of the permits outstanding; a drop needs an outstanding permit, as a Rust
  value is dropped once.
\<close>

datatype ('c, 'k) pool_event = Acquire 'c 'k | Release 'c 'k

fun pool_run ::
    "('c \<Rightarrow> 's \<Rightarrow> 'k \<Rightarrow> bool \<times> 's) \<Rightarrow> ('c \<Rightarrow> 's \<Rightarrow> 'k \<Rightarrow> 's) \<Rightarrow> 's \<times> 'k multiset
      \<Rightarrow> ('c, 'k) pool_event list \<Rightarrow> 's \<times> 'k multiset" where
  "pool_run acquire release (s, held) [] = (s, held)"
| "pool_run acquire release (s, held) (Acquire c k # es) =
     (let (ok, s') = acquire c s k
      in pool_run acquire release (s', if ok then add_mset k held else held) es)"
| "pool_run acquire release (s, held) (Release c k # es) =
     (if k \<in># held
      then pool_run acquire release (release c s k, held - {#k#}) es
      else pool_run acquire release (s, held) es)"

text \<open>
  \<open>in_use s k\<close> counts the permits of key \<open>k\<close>, \<open>limit s k\<close> is its cap, if it has one. The
  counter behind \<open>in_use\<close> is exact below \<open>counter_max\<close>.
\<close>

locale permit_pool =
  fixes acquire :: "'c \<Rightarrow> 's \<Rightarrow> 'k \<Rightarrow> bool \<times> 's"
    and release :: "'c \<Rightarrow> 's \<Rightarrow> 'k \<Rightarrow> 's"
    and in_use :: "'s \<Rightarrow> 'k \<Rightarrow> nat"
    and limit :: "'s \<Rightarrow> 'k \<Rightarrow> nat option"
    and invar :: "'s \<Rightarrow> bool"
    and counter_max :: nat
  assumes acquire_ok:
      "invar s \<Longrightarrow> in_use s k < counter_max \<Longrightarrow> acquire c s k = (True, s') \<Longrightarrow>
         in_use s' = (in_use s)(k := Suc (in_use s k)) \<and>
         (\<forall>n. limit s k = Some n \<longrightarrow> in_use s k < n)"
    and acquire_refused:
      "invar s \<Longrightarrow> acquire c s k = (False, s') \<Longrightarrow> in_use s' = in_use s"
    and release_in_use:
      "invar s \<Longrightarrow> 0 < in_use s k \<Longrightarrow> in_use (release c s k) = (in_use s)(k := in_use s k - 1)"
    and acquire_invar: "invar s \<Longrightarrow> acquire c s k = (ok, s') \<Longrightarrow> invar s'"
    and release_invar: "invar s \<Longrightarrow> 0 < in_use s k \<Longrightarrow> invar (release c s k)"
    and acquire_limit: "acquire c s k = (ok, s') \<Longrightarrow> limit s' = limit s"
    and release_limit: "limit (release c s k) = limit s"
begin

text \<open>The pool's counters are exactly the outstanding permits, and respect the caps.\<close>

lemma pool_run_in_use:
  assumes "pool_run acquire release (s, held) es = (s', held')"
    and "invar s" and "\<And>k. in_use s k = count held k"
    and "size held + length es \<le> counter_max"
    and "\<And>k n. limit s k = Some n \<Longrightarrow> in_use s k \<le> n"
  shows "invar s' \<and> limit s' = limit s \<and>
         (\<forall>k. in_use s' k = count held' k) \<and>
         (\<forall>k n. limit s k = Some n \<longrightarrow> count held' k \<le> n)"
  using assms
proof (induction es arbitrary: s held)
  case Nil
  then show ?case by auto
next
  case (Cons e es)
  show ?case
  proof (cases e)
    case (Acquire c k)
    obtain ok s1 where acq: "acquire c s k = (ok, s1)" by (cases "acquire c s k")
    have lim: "limit s1 = limit s" by (rule acquire_limit [OF acq])
    have room: "in_use s k < counter_max"
      using Cons.prems(3) [of k] Cons.prems(4) count_le_size [of held k] by simp
    let ?held = "if ok then add_mset k held else held"
    have use: "in_use s1 j = count ?held j" and cap: "limit s1 j = Some n \<Longrightarrow> in_use s1 j \<le> n"
      for j n
      using acquire_ok [OF Cons.prems(2) room, of c s1] acquire_refused [OF Cons.prems(2), of c k s1]
        acq Cons.prems(3,5) lim by (cases ok; auto simp: Suc_le_eq)+
    have "pool_run acquire release (s1, ?held) es = (s', held')"
      using Cons.prems(1) acq Acquire by simp
    moreover have "invar s1" by (rule acquire_invar [OF Cons.prems(2) acq])
    moreover have "size ?held + length es \<le> counter_max" using Cons.prems(4) by simp
    ultimately show ?thesis using Cons.IH [of s1 ?held] use cap lim by simp
  next
    case (Release c k)
    show ?thesis
    proof (cases "k \<in># held")
      case True
      let ?s1 = "release c s k" and ?held = "held - {#k#}"
      have used: "0 < in_use s k" using True Cons.prems(3) by simp
      from release_in_use [OF Cons.prems(2) this]
      have use: "in_use ?s1 j = count ?held j" and cap: "limit ?s1 j = Some n \<Longrightarrow> in_use ?s1 j \<le> n"
        for j n
        using Cons.prems(3,5) [of j] release_limit [of c s k] by auto
      have "pool_run acquire release (?s1, ?held) es = (s', held')"
        using Cons.prems(1) Release True by simp
      moreover have "size ?held + length es \<le> counter_max"
        using Cons.prems(4) True by (simp add: size_Diff_singleton)
      ultimately show ?thesis
        using Cons.IH [of ?s1 ?held] use cap release_limit release_invar [OF Cons.prems(2) used] by simp
    next
      case False
      with Cons.prems Release show ?thesis by (intro Cons.IH) auto
    qed
  qed
qed

text \<open>A history that starts with no permit outstanding.\<close>

lemma pool_run_from_empty:
  assumes "pool_run acquire release (s, {#}) es = (s', held)"
    and "invar s" "in_use s = (\<lambda>_. 0)" "length es \<le> counter_max"
  shows "in_use s' k = count held k" and "limit s k = Some n \<Longrightarrow> count held k \<le> n"
  using pool_run_in_use [OF assms(1,2)] assms(3,4) by auto

end

end
