(* ===== verification/Ip_Addr.thy ===== *)
theory Ip_Addr
  imports Prelude
begin

text \<open>
  IP addresses and \<open>str::parse::<IpAddr>\<close> of the Rust standard library
  (\<open>core::net::parser\<close>), which \<open>resolve_client_ip\<close> of \<open>src/server.rs\<close> calls on the
  forwarding headers. An address is its octets read as one big-endian number.
\<close>

datatype ip_addr = IpV4 u32 | IpV6 "128 word"

record socket_addr =
  sa_ip :: ip_addr
  sa_port :: u16

text \<open>Rust's \<open>Ord\<close> for \<open>IpAddr\<close>: every V4 address is below every V6 address.\<close>

instantiation ip_addr :: linorder
begin

fun less_eq_ip_addr :: "ip_addr \<Rightarrow> ip_addr \<Rightarrow> bool" where
  "less_eq_ip_addr (IpV4 a) (IpV4 b) = (a \<le> b)"
| "less_eq_ip_addr (IpV4 a) (IpV6 b) = True"
| "less_eq_ip_addr (IpV6 a) (IpV4 b) = False"
| "less_eq_ip_addr (IpV6 a) (IpV6 b) = (a \<le> b)"

definition less_ip_addr :: "ip_addr \<Rightarrow> ip_addr \<Rightarrow> bool" where
  "less_ip_addr a b \<longleftrightarrow> a \<le> b \<and> \<not> b \<le> a"

instance
proof
  fix a b c :: ip_addr
  show "(a < b) = (a \<le> b \<and> \<not> b \<le> a)" by (rule less_ip_addr_def)
  show "a \<le> a" by (cases a) auto
  show "a \<le> c" if "a \<le> b" "b \<le> c" using that by (cases a; cases b; cases c) auto
  show "a = b" if "a \<le> b" "b \<le> a" using that by (cases a; cases b) auto
  show "a \<le> b \<or> b \<le> a" by (cases a; cases b) auto
qed

end

section \<open>Numbers\<close>

definition to_digit :: "nat \<Rightarrow> rust_char \<Rightarrow> nat option" where
  \<comment> \<open>\<open>char::to_digit\<close> for a radix of at most 16\<close>
  "to_digit radix c =
     (let v = (if 48 \<le> c \<and> c \<le> 57 then Some (c - 48)
               else if 97 \<le> c \<and> c \<le> 102 then Some (c - 87)
               else if 65 \<le> c \<and> c \<le> 70 then Some (c - 55)
               else None)
      in case v of None \<Rightarrow> None | Some d \<Rightarrow> if d < radix then Some d else None)"

fun read_digits :: "nat \<Rightarrow> nat \<Rightarrow> nat \<Rightarrow> nat \<Rightarrow> rust_string \<Rightarrow> (nat \<times> nat \<times> rust_string) option" where
  "read_digits radix max_digits acc n [] = Some (acc, n, [])"
| "read_digits radix max_digits acc n (c # cs) =
     (case to_digit radix c of
        None \<Rightarrow> Some (acc, n, c # cs)
      | Some d \<Rightarrow>
          if max_digits < n + 1 then None
          else read_digits radix max_digits (acc * radix + d) (n + 1) cs)"

definition read_number ::
    "nat \<Rightarrow> nat \<Rightarrow> bool \<Rightarrow> nat \<Rightarrow> rust_string \<Rightarrow> (nat \<times> rust_string) option" where
  \<comment> \<open>\<open>bound\<close> is one more than the largest value of the result type (u8 or u16)\<close>
  "read_number radix max_digits allow_zero_prefix bound s =
     (case read_digits radix max_digits 0 0 s of
        None \<Rightarrow> None
      | Some (v, n, rest) \<Rightarrow>
          if n = 0 then None
          else if \<not> allow_zero_prefix \<and> take 1 s = [48] \<and> 1 < n then None
          else if v < bound then Some (v, rest) else None)"

definition read_separator ::
    "rust_char \<Rightarrow> nat \<Rightarrow> (rust_string \<Rightarrow> ('a \<times> rust_string) option) \<Rightarrow> rust_string
      \<Rightarrow> ('a \<times> rust_string) option" where
  "read_separator sep index inner s =
     (if index = 0 then inner s
      else case s of [] \<Rightarrow> None | c # cs \<Rightarrow> if c = sep then inner cs else None)"

section \<open>IPv4 and IPv6 addresses\<close>

fun read_octets :: "nat list \<Rightarrow> rust_string \<Rightarrow> (nat list \<times> rust_string) option" where
  \<comment> \<open>the loop over the octets, one index each\<close>
  "read_octets [] s = Some ([], s)"
| "read_octets (i # is) s =
     (case read_separator 46 i (read_number 10 3 False 256) s of
        None \<Rightarrow> None
      | Some (v, s') \<Rightarrow>
          (case read_octets is s' of
             None \<Rightarrow> None
           | Some (vs, s'') \<Rightarrow> Some (v # vs, s'')))"

definition read_ipv4_addr :: "rust_string \<Rightarrow> (nat list \<times> rust_string) option" where
  "read_ipv4_addr s = read_octets [0, 1, 2, 3] s"

text \<open>The groups read, whether they end in an embedded IPv4 address, and the rest.\<close>

function read_groups :: "nat \<Rightarrow> nat \<Rightarrow> rust_string \<Rightarrow> nat list \<times> bool \<times> rust_string" where
  "read_groups limit i s =
     (if limit \<le> i then ([], False, s)
      else
        case (if i < limit - 1 then read_separator 58 i read_ipv4_addr s else None) of
          Some (v4, s') \<Rightarrow>
            ([v4 ! 0 * 256 + v4 ! 1, v4 ! 2 * 256 + v4 ! 3], True, s')
        | None \<Rightarrow>
            (case read_separator 58 i (read_number 16 4 True 65536) s of
               None \<Rightarrow> ([], False, s)
             | Some (g, s') \<Rightarrow>
                 (let (gs, v4, rest) = read_groups limit (i + 1) s' in (g # gs, v4, rest))))"
  by pat_completeness auto
termination
  by (relation "measure (\<lambda>(limit, i, s). limit - i)") auto

declare read_groups.simps [simp del]

definition read_ipv6_addr :: "rust_string \<Rightarrow> (nat list \<times> rust_string) option" where
  "read_ipv6_addr s =
     (let (head, head_ipv4, s1) = read_groups 8 0 s
      in if length head = 8 then Some (head, s1)
         else if head_ipv4 then None
         else if take 2 s1 \<noteq> [58, 58] then None
         else
           let (tail, _, s2) = read_groups (8 - (length head + 1)) 0 (drop 2 s1)
           in Some (head @ replicate (8 - length head - length tail) 0 @ tail, s2))"

definition from_groups :: "nat \<Rightarrow> nat list \<Rightarrow> nat" where
  "from_groups base gs = foldl (\<lambda>acc g. acc * base + g) 0 gs"

definition read_ip_addr :: "rust_string \<Rightarrow> (ip_addr \<times> rust_string) option" where
  "read_ip_addr s =
     (case read_ipv4_addr s of
        Some (os, rest) \<Rightarrow> Some (IpV4 (of_nat (from_groups 256 os)), rest)
      | None \<Rightarrow>
          (case read_ipv6_addr s of
             Some (gs, rest) \<Rightarrow> Some (IpV6 (of_nat (from_groups 65536 gs)), rest)
           | None \<Rightarrow> None))"

definition parse_ip_addr :: "rust_string \<Rightarrow> ip_addr option" where
  "parse_ip_addr s =
     (case read_ip_addr s of
        Some (ip, rest) \<Rightarrow> if rest = [] then Some ip else None
      | None \<Rightarrow> None)"

text \<open>The accepted and refused forms the standard library documents.\<close>

lemma replicate_numeral_Cons: "replicate (numeral k) x = x # replicate (pred_numeral k) x"
  by (simp add: numeral_eq_Suc)

lemmas parse_ip_eval = replicate_numeral_Cons
  parse_ip_addr_def read_ip_addr_def read_ipv4_addr_def read_ipv6_addr_def read_number_def
  read_separator_def to_digit_def read_groups.simps from_groups_def lit_def Let_def

lemma parse_ip_addr_examples:
  "parse_ip_addr (lit ''127.0.0.1'') = Some (IpV4 2130706433)"
  "parse_ip_addr (lit ''10.0.0.256'') = None"
  "parse_ip_addr (lit ''010.0.0.1'') = None"
  "parse_ip_addr (lit ''1.2.3'') = None"
  "parse_ip_addr (lit '' 1.2.3.4'') = None"
  "parse_ip_addr (lit ''::1'') = Some (IpV6 1)"
  "parse_ip_addr (lit ''::ffff:1.2.3.4'') = Some (IpV6 281470698652420)"
  "parse_ip_addr (lit ''1::2::3'') = None"
  by (simp_all add: parse_ip_eval)

end
