(* ===== verification/Config.thy ===== *)
theory Config
  imports Ip_Addr
begin

text \<open>
  The configuration record (\<open>src/config.rs\<close>). Command line parsing (clap, humantime) is not
  modelled: a configuration is a value of this record, and \<open>default_config\<close> is the one
  with no variable set. Durations are in nanoseconds.
\<close>

record config =
  cfg_bind_addr :: socket_addr
  cfg_max_connections :: usize
  cfg_client_queue_capacity :: usize
  cfg_topic_channel_capacity :: usize
  cfg_max_text_bytes :: usize
  cfg_max_messages_per_second :: u32
  cfg_message_burst :: u32
  cfg_idle_timeout :: duration
  cfg_heartbeat_interval :: duration
  cfg_json_logs :: bool
  cfg_jwt_secret :: "rust_string option"
  cfg_jwt_public_key :: "rust_string option"
  cfg_jwt_issuer :: "rust_string option"
  cfg_ip_max_concurrent :: "usize option"
  cfg_ip_connection_rate :: "u32 option"
  cfg_ip_rate_burst :: "u32 option"
  cfg_trust_proxy_headers :: bool
  cfg_tenant_max_connections :: "usize option"
  cfg_tenant_max_messages_per_second :: "u32 option"
  cfg_tenant_message_burst :: "u32 option"

definition default_config :: config where
  "default_config =
     \<lparr>cfg_bind_addr = \<lparr>sa_ip = IpV4 0, sa_port = 8080\<rparr>,
      cfg_max_connections = 10000,
      cfg_client_queue_capacity = 256,
      cfg_topic_channel_capacity = 1024,
      cfg_max_text_bytes = 64 * 1024,
      cfg_max_messages_per_second = 100,
      cfg_message_burst = 200,
      cfg_idle_timeout = duration_from_secs 60,
      cfg_heartbeat_interval = duration_from_secs 20,
      cfg_json_logs = False,
      cfg_jwt_secret = None,
      cfg_jwt_public_key = None,
      cfg_jwt_issuer = None,
      cfg_ip_max_concurrent = None,
      cfg_ip_connection_rate = None,
      cfg_ip_rate_burst = None,
      cfg_trust_proxy_headers = False,
      cfg_tenant_max_connections = None,
      cfg_tenant_max_messages_per_second = None,
      cfg_tenant_message_burst = None\<rparr>"

end
