(* ===== verification/Ip_Limiter.thy ===== *)
theory Ip_Limiter
  imports Token_Bucket Permit_Pool Config
begin

text \<open>
  The per-IP connection limiter (\<open>src/ip_limiter.rs\<close>). The \<open>DashMap\<close> of the states is a
  map; the order in which its iterator yields the keys is an argument (\<open>keys\<close>) of the
  operations that iterate. \<open>try_acquire\<close> reads the clock five times, in this order: in
  \<open>reap_idle\<close> (0), for a new entry's bucket (1) and its \<open>last_seen\<close> (2), in the bucket's
  refill (3), and on admission (4). An entry is locked while \<open>try_acquire\<close> works on it, so
  the rate check, the cap check and the increment are one step.
\<close>

section \<open>State\<close>

record ip_state =
  is_concurrent :: u32
  is_bucket :: token_bucket
  is_last_seen :: instant

record ip_limiter =
  il_max_concurrent :: "u32 option"
  il_rate_configured :: bool
  il_refill_per_second :: f64
  il_burst :: f64
  il_states :: "ip_addr \<rightharpoonup> ip_state"

record ip_permit =
  ip_permit_ip :: "ip_addr option"

datatype ip_rejection = RateLimited | ConcurrencyLimited

definition IDLE_TTL :: duration where
  "IDLE_TTL = duration_from_secs (5 * 60)"

definition ip_limiter_from_config :: "config \<Rightarrow> ip_limiter option" where
  "ip_limiter_from_config cfg =
     (let max_concurrent = map_option (\<lambda>v. ucast v :: u32) (cfg_ip_max_concurrent cfg);
          rate = map_option (\<lambda>v. f64_of_nat (unat v)) (cfg_ip_connection_rate cfg);
          burst = (case map_option (\<lambda>v. f64_of_nat (unat v)) (cfg_ip_rate_burst cfg) of
                     Some b \<Rightarrow> Some b
                   | None \<Rightarrow> map_option (\<lambda>r. max r 1) rate)
      in if max_concurrent = None \<and> rate = None then None
         else Some \<lparr>il_max_concurrent = max_concurrent,
                    il_rate_configured = (rate \<noteq> None),
                    il_refill_per_second = unwrap_or rate 1,
                    il_burst = unwrap_or burst 1,
                    il_states = Map.empty\<rparr>)"

section \<open>Reaping idle entries\<close>

definition idle_expired :: "instant \<Rightarrow> ip_state \<Rightarrow> bool" where
  "idle_expired now st \<longleftrightarrow>
     is_concurrent st = 0 \<and> IDLE_TTL < duration_since now (is_last_seen st)"

fun collect_victims ::
    "instant \<Rightarrow> (ip_addr \<rightharpoonup> ip_state) \<Rightarrow> ip_addr list \<Rightarrow> ip_addr list \<Rightarrow> ip_addr list" where
  "collect_victims now states victims [] = victims"
| "collect_victims now states victims (k # ks) =
     (case states k of
        None \<Rightarrow> collect_victims now states victims ks
      | Some st \<Rightarrow>
          if idle_expired now st
          then (let victims' = victims @ [k]
                in if 64 \<le> length victims' then victims'
                   else collect_victims now states victims' ks)
          else collect_victims now states victims ks)"

fun remove_victims ::
    "instant \<Rightarrow> ip_addr list \<Rightarrow> (ip_addr \<rightharpoonup> ip_state) \<Rightarrow> (ip_addr \<rightharpoonup> ip_state)" where
  \<comment> \<open>\<open>DashMap::remove_if\<close> tests the entry again when it removes it\<close>
  "remove_victims now [] states = states"
| "remove_victims now (k # ks) states =
     remove_victims now ks
       (case states k of
          None \<Rightarrow> states
        | Some st \<Rightarrow> if idle_expired now st then states(k := None) else states)"

definition reap_idle :: "ip_addr list \<Rightarrow> instant \<Rightarrow> ip_limiter \<Rightarrow> ip_limiter" where
  "reap_idle keys now l =
     (let victims = collect_victims now (il_states l) [] keys
      in l\<lparr>il_states := remove_victims now victims (il_states l)\<rparr>)"

section \<open>Acquiring and releasing\<close>

definition ip_entry :: "clock \<Rightarrow> ip_limiter \<Rightarrow> ip_addr \<Rightarrow> ip_state" where
  \<comment> \<open>\<open>entry(ip).or_insert_with(...)\<close>\<close>
  "ip_entry clk l ip =
     (case il_states l ip of
        Some st \<Rightarrow> st
      | None \<Rightarrow>
          \<lparr>is_concurrent = 0,
           is_bucket = token_bucket_new (il_refill_per_second l) (il_burst l) (clk 1),
           is_last_seen = clk 2\<rparr>)"

definition put_state :: "ip_limiter \<Rightarrow> ip_addr \<Rightarrow> ip_state \<Rightarrow> ip_limiter" where
  "put_state l ip st = l\<lparr>il_states := (il_states l)(ip \<mapsto> st)\<rparr>"

definition try_acquire ::
    "ip_addr list \<Rightarrow> clock \<Rightarrow> ip_limiter \<Rightarrow> ip_addr \<Rightarrow> (ip_rejection + ip_permit) \<times> ip_limiter" where
  "try_acquire keys clk l0 ip =
     (let l = reap_idle keys (clk 0) l0;
          st = ip_entry clk l ip;
          (rate_ok, bucket) =
            (if il_rate_configured l then try_consume (clk 3) (is_bucket st)
             else (True, is_bucket st));
          st = st\<lparr>is_bucket := bucket\<rparr>
      in if \<not> rate_ok then (Inl RateLimited, put_state l ip st)
         else if (case il_max_concurrent l of
                    Some cap \<Rightarrow> cap \<le> is_concurrent st | None \<Rightarrow> False)
         then (Inl ConcurrencyLimited, put_state l ip st)
         else (Inr \<lparr>ip_permit_ip = Some ip\<rparr>,
               put_state l ip
                 (st\<lparr>is_concurrent := is_concurrent st + 1, is_last_seen := clk 4\<rparr>)))"

definition ip_release :: "instant \<Rightarrow> ip_limiter \<Rightarrow> ip_addr \<Rightarrow> ip_limiter" where
  "ip_release now l ip =
     (case il_states l ip of
        None \<Rightarrow> l
      | Some st \<Rightarrow>
          put_state l ip
            (st\<lparr>is_concurrent :=
                  (if 0 < is_concurrent st then is_concurrent st - 1 else is_concurrent st),
                is_last_seen := now\<rparr>))"

definition drop_ip_permit :: "instant \<Rightarrow> ip_permit \<Rightarrow> ip_limiter \<Rightarrow> ip_limiter" where
  \<comment> \<open>\<open>impl Drop for IpPermit\<close>\<close>
  "drop_ip_permit now p l =
     (case ip_permit_ip p of Some ip \<Rightarrow> ip_release now l ip | None \<Rightarrow> l)"

section \<open>Reaping\<close>

lemma collect_victims_length:
  "length victims < 64 \<Longrightarrow> length (collect_victims now states victims keys) \<le> 64"
  by (induction keys arbitrary: victims) (auto simp: Let_def split: option.splits)

lemma collect_victims_idle:
  "k \<in> set (collect_victims now states victims keys) \<Longrightarrow>
     k \<in> set victims \<or> k \<in> set keys \<and> (\<exists>st. states k = Some st \<and> idle_expired now st)"
  by (induction keys arbitrary: victims) (fastforce simp: Let_def split: option.splits if_splits)+

lemma remove_victims_lookup:
  "remove_victims now victims states k =
     (if k \<in> set victims \<and> (\<exists>st. states k = Some st \<and> idle_expired now st) then None
      else states k)"
  by (induction victims arbitrary: states) (auto split: option.splits)

lemma reap_idle_frame [frame_simps]:
  "il_max_concurrent (reap_idle keys now l) = il_max_concurrent l"
  "il_rate_configured (reap_idle keys now l) = il_rate_configured l"
  "il_refill_per_second (reap_idle keys now l) = il_refill_per_second l"
  "il_burst (reap_idle keys now l) = il_burst l"
  by (simp_all add: reap_idle_def Let_def)

text \<open>Reaping drops some entries of expired idle addresses and keeps all others.\<close>

lemma reap_idle_cases:
  obtains "il_states (reap_idle keys now l) k = il_states l k"
  | st where "il_states (reap_idle keys now l) k = None" "il_states l k = Some st"
      "idle_expired now st" "k \<in> set keys"
proof (cases "il_states (reap_idle keys now l) k = il_states l k")
  case False
  then obtain st where "k \<in> set (collect_victims now (il_states l) [] keys)"
    and "il_states l k = Some st" "idle_expired now st" "il_states (reap_idle keys now l) k = None"
    by (auto simp: reap_idle_def Let_def remove_victims_lookup split: if_splits)
  with collect_victims_idle that(2) show thesis by fastforce
qed (rule that(1))

section \<open>Concurrency accounting\<close>

definition ip_in_use :: "ip_limiter \<Rightarrow> ip_addr \<Rightarrow> nat" where
  "ip_in_use l ip = (case il_states l ip of None \<Rightarrow> 0 | Some st \<Rightarrow> unat (is_concurrent st))"

lemma put_state_frame [frame_simps]:
  "il_max_concurrent (put_state l ip st) = il_max_concurrent l"
  "il_rate_configured (put_state l ip st) = il_rate_configured l"
  "il_refill_per_second (put_state l ip st) = il_refill_per_second l"
  "il_burst (put_state l ip st) = il_burst l"
  by (simp_all add: put_state_def)

lemma put_state_states [effect_simps]: "il_states (put_state l ip st) = (il_states l)(ip \<mapsto> st)"
  by (simp add: put_state_def)

lemma ip_in_use_put_state [effect_simps]:
  "ip_in_use (put_state l ip st) = (ip_in_use l)(ip := unat (is_concurrent st))"
  by (auto simp: ip_in_use_def put_state_def)

lemma reap_idle_in_use [effect_simps]: "ip_in_use (reap_idle keys now l) = ip_in_use l"
proof
  fix k
  show "ip_in_use (reap_idle keys now l) k = ip_in_use l k"
    by (rule reap_idle_cases [of keys now l k]) (auto simp: ip_in_use_def idle_expired_def)
qed

lemma ip_entry_in_use: "unat (is_concurrent (ip_entry clk l ip)) = ip_in_use l ip"
  by (auto simp: ip_entry_def ip_in_use_def split: option.splits)

text \<open>The two outcomes of \<open>try_acquire\<close>, with everything they change.\<close>

lemma try_acquire_Inr:
  assumes "try_acquire keys clk l0 ip = (Inr p, l')"
  obtains st where "p = \<lparr>ip_permit_ip = Some ip\<rparr>"
    and "l' = put_state (reap_idle keys (clk 0) l0) ip st"
    and "is_concurrent st = is_concurrent (ip_entry clk (reap_idle keys (clk 0) l0) ip) + 1"
    and "is_last_seen st = clk 4"
    and "\<And>cap. il_max_concurrent l0 = Some cap \<Longrightarrow>
           is_concurrent (ip_entry clk (reap_idle keys (clk 0) l0) ip) < cap"
    and "if il_rate_configured l0
         then try_consume (clk 3) (is_bucket (ip_entry clk (reap_idle keys (clk 0) l0) ip))
                = (True, is_bucket st)
         else is_bucket st = is_bucket (ip_entry clk (reap_idle keys (clk 0) l0) ip)"
proof -
  let ?l = "reap_idle keys (clk 0) l0"
  let ?e = "ip_entry clk ?l ip"
  obtain ok b where consume:
    "(if il_rate_configured l0 then try_consume (clk 3) (is_bucket ?e) else (True, is_bucket ?e))
       = (ok, b)" by (rule prod.exhaust)
  have ok: ok
    and cap: "il_max_concurrent l0 = Some cap \<Longrightarrow> is_concurrent ?e < cap"
    and p: "p = \<lparr>ip_permit_ip = Some ip\<rparr>"
    and l': "l' = put_state ?l ip (?e\<lparr>is_bucket := b, is_concurrent := is_concurrent ?e + 1,
                                     is_last_seen := clk 4\<rparr>)" for cap
    using assms unfolding try_acquire_def Let_def frame_simps consume
    by (auto split: if_splits option.splits)
  show thesis
    using that [OF p l'] cap consume ok by (simp split: if_splits)
qed

lemma try_acquire_Inl:
  assumes "try_acquire keys clk l0 ip = (Inl r, l')"
  obtains st where "l' = put_state (reap_idle keys (clk 0) l0) ip st"
    and "is_concurrent st = is_concurrent (ip_entry clk (reap_idle keys (clk 0) l0) ip)"
    and "is_last_seen st = is_last_seen (ip_entry clk (reap_idle keys (clk 0) l0) ip)"
    and "r = RateLimited \<Longrightarrow> il_rate_configured l0"
    and "r = ConcurrencyLimited \<Longrightarrow>
           \<exists>cap. il_max_concurrent l0 = Some cap \<and> cap \<le> is_concurrent st"
    and "if il_rate_configured l0
         then try_consume (clk 3) (is_bucket (ip_entry clk (reap_idle keys (clk 0) l0) ip))
                = (r \<noteq> RateLimited, is_bucket st)
         else is_bucket st = is_bucket (ip_entry clk (reap_idle keys (clk 0) l0) ip)"
proof -
  let ?l = "reap_idle keys (clk 0) l0"
  let ?e = "ip_entry clk ?l ip"
  obtain ok b where consume:
    "(if il_rate_configured l0 then try_consume (clk 3) (is_bucket ?e) else (True, is_bucket ?e))
       = (ok, b)" by (rule prod.exhaust)
  have l': "l' = put_state ?l ip (?e\<lparr>is_bucket := b\<rparr>)"
    and r: "r = (if ok then ConcurrencyLimited else RateLimited)"
    and cap: "ok \<Longrightarrow> \<exists>cap. il_max_concurrent l0 = Some cap \<and> cap \<le> is_concurrent ?e"
    using assms unfolding try_acquire_def Let_def frame_simps consume
    by (auto split: if_splits option.splits)
  show thesis
    using that [OF l'] cap consume r by (simp split: if_splits)
qed

lemma try_acquire_frame:
  assumes "try_acquire keys clk l0 ip = (r, l')"
  shows "il_max_concurrent l' = il_max_concurrent l0"
    and "il_rate_configured l' = il_rate_configured l0"
    and "il_refill_per_second l' = il_refill_per_second l0"
    and "il_burst l' = il_burst l0"
  using assms
  by (auto simp: try_acquire_def Let_def frame_simps split: prod.splits if_splits option.splits)

lemma ip_release_frame [frame_simps]:
  "il_max_concurrent (ip_release now l ip) = il_max_concurrent l"
  "il_rate_configured (ip_release now l ip) = il_rate_configured l"
  "il_refill_per_second (ip_release now l ip) = il_refill_per_second l"
  "il_burst (ip_release now l ip) = il_burst l"
  by (simp_all add: ip_release_def frame_simps split: option.split)

lemma try_acquire_admits_in_use:
  assumes acq: "try_acquire keys clk l0 ip = (Inr p, l')"
    and room: "ip_in_use l0 ip < 2 ^ 32 - 1"
  shows "ip_in_use l' = (ip_in_use l0)(ip := Suc (ip_in_use l0 ip))"
    and "il_max_concurrent l0 = Some cap \<Longrightarrow> ip_in_use l0 ip < unat cap"
proof -
  let ?l = "reap_idle keys (clk 0) l0"
  let ?n = "is_concurrent (ip_entry clk ?l ip)"
  have n: "unat ?n = ip_in_use l0 ip" by (simp add: ip_entry_in_use effect_simps)
  have "unat (- 1 :: u32) = 2 ^ 32 - 1" by (simp add: unsigned_minus_1_eq_mask mask_eq_exp_minus_1)
  with n room have "?n < - 1" by (simp add: word_less_nat_alt)
  then have plus: "unat (?n + 1) = unat ?n + 1" by (rule unat_plus_one_less)
  show "ip_in_use l' = (ip_in_use l0)(ip := Suc (ip_in_use l0 ip))"
    by (rule try_acquire_Inr [OF acq]) (simp add: effect_simps n plus)
  show "ip_in_use l0 ip < unat cap" if cap: "il_max_concurrent l0 = Some cap"
    by (rule try_acquire_Inr [OF acq]) (use cap in \<open>auto simp: n [symmetric] word_less_nat_alt\<close>)
qed

lemma try_acquire_refusal_in_use:
  assumes "try_acquire keys clk l0 ip = (Inl r, l')"
  shows "ip_in_use l' = ip_in_use l0"
  by (rule try_acquire_Inl [OF assms]) (auto simp: effect_simps ip_entry_in_use)

lemma ip_release_in_use:
  "ip_in_use (ip_release now l ip) = (ip_in_use l)(ip := ip_in_use l ip - 1)"
proof (cases "il_states l ip")
  case None
  then show ?thesis by (auto simp: ip_release_def ip_in_use_def)
next
  case (Some st)
  then show ?thesis
    using unat_minus_one_pos [of "is_concurrent st"]
    by (auto simp: ip_release_def effect_simps word_gt_0) (auto simp: ip_in_use_def)
qed

text \<open>The limiter as a pool of permits, with addresses as keys.\<close>

definition ip_acquire ::
    "ip_addr list \<times> clock \<Rightarrow> ip_limiter \<Rightarrow> ip_addr \<Rightarrow> bool \<times> ip_limiter" where
  "ip_acquire c l ip =
     (case try_acquire (fst c) (snd c) l ip of
        (Inr _, l') \<Rightarrow> (True, l') | (Inl _, l') \<Rightarrow> (False, l'))"

definition ip_drop :: "ip_addr list \<times> clock \<Rightarrow> ip_limiter \<Rightarrow> ip_addr \<Rightarrow> ip_limiter" where
  "ip_drop c l ip = drop_ip_permit (snd c 0) \<lparr>ip_permit_ip = Some ip\<rparr> l"

lemma ip_acquire_cases:
  assumes "ip_acquire c l ip = (ok, l')"
  obtains p where "ok" "try_acquire (fst c) (snd c) l ip = (Inr p, l')"
  | r where "\<not> ok" "try_acquire (fst c) (snd c) l ip = (Inl r, l')"
  using assms by (auto simp: ip_acquire_def split: prod.splits sum.splits)

interpretation ip_pool: permit_pool ip_acquire ip_drop ip_in_use
    "\<lambda>l _. map_option unat (il_max_concurrent l)" "\<lambda>_. True" "2 ^ 32 - 1"
proof unfold_locales
  fix s k c s'
  assume "ip_in_use s k < 2 ^ 32 - 1" "ip_acquire c s k = (True, s')"
  then show "ip_in_use s' = (ip_in_use s)(k := Suc (ip_in_use s k)) \<and>
      (\<forall>n. map_option unat (il_max_concurrent s) = Some n \<longrightarrow> ip_in_use s k < n)"
    using try_acquire_admits_in_use by (auto elim!: ip_acquire_cases)
next
  fix s k c s'
  assume "ip_acquire c s k = (False, s')"
  then show "ip_in_use s' = ip_in_use s"
    using try_acquire_refusal_in_use by (auto elim!: ip_acquire_cases)
next
  fix s k c ok s'
  assume "ip_acquire c s k = (ok, s')"
  then show "(\<lambda>_. map_option unat (il_max_concurrent s')) =
      (\<lambda>_ :: ip_addr. map_option unat (il_max_concurrent s))"
    using try_acquire_frame(1) by (auto elim!: ip_acquire_cases)
qed (auto simp: ip_drop_def drop_ip_permit_def ip_release_in_use frame_simps)

end
