(* ===== verification/Topic.thy ===== *)
theory Topic
  imports Prelude
begin

text \<open>
  Topic names: \<open>normalize_topic\<close> and \<open>extract_topic\<close> (\<open>src/server.rs\<close>), which clean a
  client's topic name and recover it from a storage key, and \<open>tenant_topic\<close>
  (\<open>src/state.rs\<close>), which builds the key. Tenants are kept apart by the prefix of the key.
\<close>

definition normalize_topic :: "rust_string \<Rightarrow> rust_string" where
  "normalize_topic topic0 =
     (let topic = trim_start_matches char_slash (trim topic0)
      in if topic = [] then lit ''public'' else take 128 topic)"

definition tenant_topic :: "rust_string \<Rightarrow> rust_string \<Rightarrow> rust_string" where
  "tenant_topic tenant_id topic = tenant_id @ lit '':'' @ topic"

definition extract_topic :: "rust_string \<Rightarrow> rust_string" where
  "extract_topic topic_key =
     (case split_once char_colon topic_key of Some (_, t) \<Rightarrow> t | None \<Rightarrow> topic_key)"

definition default_topic :: "rust_string" where
  "default_topic = lit ''public''"

lemma lit_colon: "lit '':'' = [char_colon]"
  by (simp add: lit_def char_colon_def)

lemma tenant_topic_Cons: "tenant_topic tenant topic = tenant @ char_colon # topic"
  by (simp add: tenant_topic_def lit_colon)

section \<open>Normalization\<close>

lemma normalize_topic_nonempty [simp]: "normalize_topic t \<noteq> []"
  by (simp add: normalize_topic_def Let_def)

lemma normalize_topic_length: "length (normalize_topic t) \<le> 128"
  by (simp add: normalize_topic_def Let_def)

lemma hd_take_pos: "0 < n \<Longrightarrow> hd (take n xs) = hd xs"
  by (cases xs; cases n) auto

lemma normalize_topic_no_slash: "hd (normalize_topic t) \<noteq> char_slash"
proof -
  let ?s = "trim_start_matches char_slash (trim t)"
  have "?s \<noteq> [] \<Longrightarrow> hd ?s \<noteq> char_slash"
    unfolding trim_start_matches_def by (rule hd_dropWhile)
  moreover have "hd (lit ''public'') \<noteq> char_slash" by (simp add: lit_def char_slash_def)
  ultimately show ?thesis by (simp add: normalize_topic_def Let_def hd_take_pos)
qed

text \<open>A name that is already clean is kept.\<close>

lemma normalize_topic_clean:
  assumes "t \<noteq> []" "length t \<le> 128" "hd t \<noteq> char_slash" "trim t = t"
  shows "normalize_topic t = t"
proof -
  have "trim_start_matches char_slash t = t"
    using assms(1,3) by (cases t) (auto simp: trim_start_matches_def)
  with assms show ?thesis by (simp add: normalize_topic_def)
qed

lemma normalize_topic_idem:
  "trim (normalize_topic t) = normalize_topic t \<Longrightarrow>
     normalize_topic (normalize_topic t) = normalize_topic t"
  by (rule normalize_topic_clean)
     (simp_all add: normalize_topic_length normalize_topic_no_slash)

lemma trim_Nil [simp]: "trim [] = []"
  by (simp add: trim_def trim_start_def trim_end_def)

text \<open>
  A second pass changes a name exactly when white space is left at one of its ends: the first
  pass trims before it strips slashes and cuts.
\<close>

lemma dropWhile_shorter: "dropWhile P xs \<noteq> xs \<Longrightarrow> length (dropWhile P xs) < length xs"
  by (cases xs) (auto simp: le_imp_less_Suc length_dropWhile_le split: if_splits)

lemma trim_shorter:
  assumes "trim s \<noteq> s"
  shows "length (trim s) < length s"
proof (cases "trim_start s = s")
  case True
  with assms have "dropWhile is_whitespace (rev s) \<noteq> rev s"
    by (metis rev_rev_ident trim_def trim_end_def)
  from dropWhile_shorter [OF this] True show ?thesis by (simp add: trim_def trim_end_def)
next
  case False
  then have "length (trim_start s) < length s" unfolding trim_start_def by (rule dropWhile_shorter)
  moreover have "length (trim_end (trim_start s)) \<le> length (trim_start s)"
    unfolding trim_end_def by (metis length_dropWhile_le length_rev)
  ultimately show ?thesis by (simp add: trim_def)
qed

lemma trim_public: "trim (lit ''public'') = lit ''public''"
  by (simp add: trim_def trim_start_def trim_end_def lit_def is_whitespace_def whitespace_chars_def)

lemma normalize_topic_twice:
  "normalize_topic (normalize_topic t) = normalize_topic t
     \<longleftrightarrow> trim (normalize_topic t) = normalize_topic t"
proof
  let ?n = "normalize_topic t"
  let ?s = "trim_start_matches char_slash (trim ?n)"
  assume twice: "normalize_topic ?n = ?n"
  show "trim ?n = ?n"
  proof (rule ccontr)
    assume ne: "trim ?n \<noteq> ?n"
    have "length ?s \<le> length (trim ?n)" unfolding trim_start_matches_def by (rule length_dropWhile_le)
    with trim_shorter [OF ne] have "?s \<noteq> [] \<Longrightarrow> length (normalize_topic ?n) < length ?n"
      by (simp add: normalize_topic_def [of ?n] Let_def)
    with twice have "?s = []" by auto
    then have "?n = lit ''public''" using twice by (simp add: normalize_topic_def [of ?n] Let_def)
    with ne trim_public show False by simp
  qed
qed (rule normalize_topic_idem)

lemma normalize_topic_slash_space:
  "normalize_topic (lit ''/ a'') = lit '' a''" "normalize_topic (lit '' a'') = lit ''a''"
  by (simp_all add: normalize_topic_def lit_def trim_def trim_start_def trim_end_def
      trim_start_matches_def is_whitespace_def whitespace_chars_def char_slash_def Let_def)

lemma normalize_topic_blank:
  "(\<forall>c \<in> set t. is_whitespace c) \<Longrightarrow> normalize_topic t = lit ''public''"
  by (simp add: normalize_topic_def trim_def trim_start_def trim_end_def trim_start_matches_def
      dropWhile_eq_Nil_conv [THEN iffD2])

section \<open>Keys\<close>

lemma extract_tenant_topic:
  "char_colon \<notin> set tenant \<Longrightarrow> extract_topic (tenant_topic tenant topic) = topic"
  by (simp add: extract_topic_def tenant_topic_Cons split_once_append)

lemma tenant_topic_inj:
  assumes "char_colon \<notin> set t1" "char_colon \<notin> set t2"
    and "tenant_topic t1 p1 = tenant_topic t2 p2"
  shows "t1 = t2 \<and> p1 = p2"
proof -
  from assms(3) have "split_once char_colon (tenant_topic t1 p1)
                        = split_once char_colon (tenant_topic t2 p2)" by simp
  with assms(1,2) show ?thesis by (simp add: tenant_topic_Cons split_once_append)
qed

text \<open>
  The key determines a colon-free tenant, whatever the topic: this is what keeps tenants
  apart. A tenant whose identifier holds a colon shares keys with another tenant.
\<close>

lemma tenant_topic_collision:
  "tenant_topic (t @ char_colon # u) p = tenant_topic t (u @ char_colon # p)"
  by (simp add: tenant_topic_Cons)

end
