(* ===== verification/Metrics.thy ===== *)
theory Metrics
  imports Prelude
begin

text \<open>
  The counters (\<open>src/metrics.rs\<close>). An \<open>AtomicU64\<close> is a 64-bit word; \<open>fetch_add\<close> and
  \<open>fetch_sub\<close> wrap around. The output of \<open>render_prometheus\<close> is ASCII, so it is a HOL
  \<open>string\<close>.
\<close>

record metrics =
  m_active_connections :: u64
  m_accepted_connections :: u64
  m_rejected_connections :: u64
  m_messages_in :: u64
  m_messages_out :: u64
  m_dropped_messages :: u64
  m_protocol_errors :: u64
  m_auth_rejected :: u64
  m_ip_rejected :: u64
  m_tenant_rejected :: u64
  m_tenant_rate_rejected :: u64

definition metrics_default :: metrics where
  "metrics_default =
     \<lparr>m_active_connections = 0, m_accepted_connections = 0, m_rejected_connections = 0,
      m_messages_in = 0, m_messages_out = 0, m_dropped_messages = 0, m_protocol_errors = 0,
      m_auth_rejected = 0, m_ip_rejected = 0, m_tenant_rejected = 0,
      m_tenant_rate_rejected = 0\<rparr>"

definition connection_accepted :: "metrics \<Rightarrow> metrics" where
  "connection_accepted m =
     m\<lparr>m_accepted_connections := m_accepted_connections m + 1,
       m_active_connections := m_active_connections m + 1\<rparr>"

definition connection_closed :: "metrics \<Rightarrow> metrics" where
  "connection_closed m = m\<lparr>m_active_connections := m_active_connections m - 1\<rparr>"

definition connection_rejected :: "metrics \<Rightarrow> metrics" where
  "connection_rejected m = m\<lparr>m_rejected_connections := m_rejected_connections m + 1\<rparr>"

definition message_in :: "metrics \<Rightarrow> metrics" where
  "message_in m = m\<lparr>m_messages_in := m_messages_in m + 1\<rparr>"

definition message_out :: "metrics \<Rightarrow> metrics" where
  "message_out m = m\<lparr>m_messages_out := m_messages_out m + 1\<rparr>"

definition message_dropped :: "metrics \<Rightarrow> metrics" where
  "message_dropped m = m\<lparr>m_dropped_messages := m_dropped_messages m + 1\<rparr>"

definition protocol_error :: "metrics \<Rightarrow> metrics" where
  "protocol_error m = m\<lparr>m_protocol_errors := m_protocol_errors m + 1\<rparr>"

definition auth_rejected :: "metrics \<Rightarrow> metrics" where
  "auth_rejected m = m\<lparr>m_auth_rejected := m_auth_rejected m + 1\<rparr>"

definition ip_rejected :: "metrics \<Rightarrow> metrics" where
  "ip_rejected m = m\<lparr>m_ip_rejected := m_ip_rejected m + 1\<rparr>"

definition tenant_rejected :: "metrics \<Rightarrow> metrics" where
  "tenant_rejected m = m\<lparr>m_tenant_rejected := m_tenant_rejected m + 1\<rparr>"

definition tenant_rate_rejected :: "metrics \<Rightarrow> metrics" where
  "tenant_rate_rejected m = m\<lparr>m_tenant_rate_rejected := m_tenant_rate_rejected m + 1\<rparr>"

lemmas metrics_ops =
  connection_accepted_def connection_closed_def connection_rejected_def message_in_def
  message_out_def message_dropped_def protocol_error_def auth_rejected_def ip_rejected_def
  tenant_rejected_def tenant_rate_rejected_def

section \<open>Rendering\<close>

definition newline :: char where
  "newline = CHR 0x0A"

definition show_digit :: "nat \<Rightarrow> char" where
  "show_digit d = char_of (48 + d)"

fun show_nat :: "nat \<Rightarrow> string" where
  "show_nat n = (if n < 10 then [show_digit n] else show_nat (n div 10) @ [show_digit (n mod 10)])"

declare show_nat.simps [simp del]

definition render_metric :: "string \<Rightarrow> string \<Rightarrow> string \<Rightarrow> u64 \<Rightarrow> string" where
  "render_metric name help kind v =
     ''# HELP '' @ name @ '' '' @ help @ [newline] @
     ''# TYPE '' @ name @ '' '' @ kind @ [newline] @
     name @ '' '' @ show_nat (unat v) @ [newline]"

definition render_prometheus :: "metrics \<Rightarrow> string" where
  "render_prometheus m =
     render_metric ''ws_active_connections'' ''Active websocket connections.''
       ''gauge'' (m_active_connections m) @
     render_metric ''ws_accepted_connections_total'' ''Accepted websocket connections.''
       ''counter'' (m_accepted_connections m) @
     render_metric ''ws_rejected_connections_total'' ''Rejected websocket connections.''
       ''counter'' (m_rejected_connections m) @
     render_metric ''ws_messages_in_total'' ''Inbound websocket messages.''
       ''counter'' (m_messages_in m) @
     render_metric ''ws_messages_out_total'' ''Outbound websocket messages.''
       ''counter'' (m_messages_out m) @
     render_metric ''ws_dropped_messages_total'' ''Dropped websocket messages.''
       ''counter'' (m_dropped_messages m) @
     render_metric ''ws_protocol_errors_total'' ''Invalid websocket protocol messages.''
       ''counter'' (m_protocol_errors m) @
     render_metric ''ws_auth_rejected_total'' ''Connections rejected due to JWT auth failure.''
       ''counter'' (m_auth_rejected m) @
     render_metric ''ws_ip_rejected_total'' ''Connections rejected by IP rate limiting.''
       ''counter'' (m_ip_rejected m) @
     render_metric ''ws_tenant_rejected_total''
       ''Connections rejected by per-tenant connection cap.''
       ''counter'' (m_tenant_rejected m) @
     render_metric ''ws_tenant_rate_rejected_total''
       ''Inbound messages dropped by per-tenant rate limit.''
       ''counter'' (m_tenant_rate_rejected m)"

section \<open>Reading the output back\<close>

text \<open>
  A scraper of the text format, the reference the rendering is checked against: it splits
  the text into lines, skips comments, and reads every other line as a name, a space and a
  decimal number.
\<close>

fun lines_of :: "string \<Rightarrow> string \<Rightarrow> string list" where
  "lines_of cur [] = (if cur = [] then [] else [rev cur])"
| "lines_of cur (c # cs) = (if c = newline then rev cur # lines_of [] cs else lines_of (c # cur) cs)"

fun read_nat :: "nat \<Rightarrow> string \<Rightarrow> nat option" where
  "read_nat acc [] = Some acc"
| "read_nat acc (c # cs) =
     (let d = of_char c
      in if 48 \<le> d \<and> d \<le> 57 then read_nat (acc * 10 + (d - 48)) cs else None)"

definition scrape_line :: "string \<Rightarrow> (string \<times> nat) option" where
  "scrape_line l =
     (case l of
        [] \<Rightarrow> None
      | c # _ \<Rightarrow>
          if c = CHR ''#'' then None
          else
            (let name = takeWhile (\<lambda>x. x \<noteq> CHR '' '') l; rest = dropWhile (\<lambda>x. x \<noteq> CHR '' '') l
             in case rest of
                  [] \<Rightarrow> None
                | _ # ds \<Rightarrow> if ds = [] then None else map_option (Pair name) (read_nat 0 ds)))"

definition scrape :: "string \<Rightarrow> (string \<times> nat) list" where
  "scrape text = List.map_filter scrape_line (lines_of [] text)"

lemma lines_of_line:
  "newline \<notin> set l \<Longrightarrow> lines_of cur (l @ newline # rest) = (rev cur @ l) # lines_of [] rest"
  by (induction l arbitrary: cur) auto

lemma show_digit_range:
  assumes "d < 10"
  shows "of_char (show_digit d) = (48 + d :: nat)"
  using assms by (simp add: show_digit_def of_char_of)

lemma read_nat_append:
  "read_nat acc (s @ t) = (case read_nat acc s of None \<Rightarrow> None | Some v \<Rightarrow> read_nat v t)"
  by (induction acc s rule: read_nat.induct) (auto simp: Let_def)

lemma read_show_nat: "read_nat 0 (show_nat n) = Some n"
proof (induction n rule: show_nat.induct)
  case (1 n)
  then show ?case
    using mod_less_divisor [of 10 n]
    by (subst show_nat.simps) (auto simp: show_digit_range read_nat_append Let_def)
qed

lemma show_nat_digits: "c \<in> set (show_nat n) \<Longrightarrow> 48 \<le> (of_char c :: nat) \<and> (of_char c :: nat) \<le> 57"
proof (induction n rule: show_nat.induct)
  case (1 n)
  then show ?case
    by (subst (asm) show_nat.simps) (auto simp: show_digit_range split: if_splits)
qed

lemma show_nat_nonempty [simp]: "show_nat n \<noteq> []"
  by (subst show_nat.simps) simp

lemma show_nat_no_newline [simp]: "newline \<notin> set (show_nat n)"
  using show_nat_digits [of newline n] by (auto simp: newline_def)

lemma scrape_line_metric:
  assumes "name \<noteq> []" "hd name \<noteq> CHR ''#''" "CHR '' '' \<notin> set name"
  shows "scrape_line (name @ CHR '' '' # show_nat n) = Some (name, n)"
proof -
  have "takeWhile (\<lambda>x. x \<noteq> CHR '' '') (name @ CHR '' '' # show_nat n) = name"
    using assms(3) by (subst takeWhile_append2) auto
  moreover have "dropWhile (\<lambda>x. x \<noteq> CHR '' '') (name @ CHR '' '' # show_nat n)
      = CHR '' '' # show_nat n"
    using assms(3) by (subst dropWhile_append2) auto
  ultimately show ?thesis
    using assms(1,2) by (cases name) (auto simp: scrape_line_def read_show_nat)
qed

lemma scrape_render_metric:
  assumes "name \<noteq> []" "hd name \<noteq> CHR ''#''" "CHR '' '' \<notin> set name"
    and "newline \<notin> set name" "newline \<notin> set help" "newline \<notin> set kind"
  shows "scrape (render_metric name help kind v @ rest) = (name, unat v) # scrape rest"
proof -
  let ?l1 = "''# HELP '' @ name @ '' '' @ help" and ?l2 = "''# TYPE '' @ name @ '' '' @ kind"
  let ?l3 = "name @ CHR '' '' # show_nat (unat v)"
  have n: "newline \<notin> set ?l1" "newline \<notin> set ?l2" "newline \<notin> set ?l3"
    using assms(4-6) show_nat_no_newline [of "unat v"] by (auto simp: newline_def)
  have "lines_of [] (render_metric name help kind v @ rest)
      = ?l1 # ?l2 # ?l3 # lines_of [] rest"
    using lines_of_line [OF n(1), of "[]" "?l2 @ newline # ?l3 @ newline # rest"]
      lines_of_line [OF n(2), of "[]" "?l3 @ newline # rest"]
      lines_of_line [OF n(3), of "[]" rest]
    by (simp add: render_metric_def)
  then show ?thesis
    using scrape_line_metric [OF assms(1-3), of "unat v"]
    by (simp add: scrape_def List.map_filter_simps scrape_line_def [of "CHR ''#'' # _"])
qed

end
