(* ===== verification/Auth.thy ===== *)
theory Auth
  imports Config
begin

text \<open>
  JWT verification (\<open>src/auth.rs\<close>). The \<open>jsonwebtoken\<close> crate is a parameter: the record
  \<open>jwt_lib\<close> of its key constructors and its \<open>decode\<close>, which is given the time of the
  call (\<open>decode\<close> compares it with the \<open>exp\<close> claim). Keys are the type variable \<open>'k\<close>.
\<close>

record claims =
  cl_sub :: rust_string
  cl_tenant_id :: "rust_string option"
  cl_exp :: "64 word"
  cl_iss :: "rust_string option"

record auth_identity =
  ai_client_id :: rust_string
  ai_tenant_id :: rust_string

datatype algorithm = HS256 | RS256 | EdDSA

datatype 'k decoding = Hmac 'k | Asymmetric 'k algorithm

record 'k auth_verifier =
  av_decoding :: "'k decoding"
  av_issuer :: "rust_string option"

datatype auth_error = Invalid | Expired | IssuerMismatch

text \<open>What the server uses of the crate: \<open>Validation\<close>, \<open>ErrorKind\<close>, the constructors of
  \<open>DecodingKey\<close>, and \<open>decode::<Claims>\<close>.\<close>

record validation =
  va_algorithm :: algorithm
  va_issuer :: "rust_string list option"
  va_validate_exp :: bool

datatype jwt_error_kind = ExpiredSignature | InvalidIssuer | OtherErrorKind

record 'k jwt_lib =
  jwt_from_secret :: "rust_string \<Rightarrow> 'k"
  jwt_from_rsa_pem :: "rust_string \<Rightarrow> 'k option"
  jwt_from_ec_pem :: "rust_string \<Rightarrow> 'k option"
  jwt_from_ed_pem :: "rust_string \<Rightarrow> 'k option"
  jwt_decode :: "nat \<Rightarrow> rust_string \<Rightarrow> 'k \<Rightarrow> validation \<Rightarrow> jwt_error_kind + claims"

fun str_contains :: "rust_string \<Rightarrow> rust_string \<Rightarrow> bool" where
  "str_contains needle [] = (needle = [])"
| "str_contains needle (c # cs) =
     (take (length needle) (c # cs) = needle \<or> str_contains needle cs)"

definition algorithm_name :: "'k auth_verifier \<Rightarrow> string" where
  "algorithm_name v =
     (case av_decoding v of
        Hmac _ \<Rightarrow> ''HS256''
      | Asymmetric _ EdDSA \<Rightarrow> ''EdDSA''
      | Asymmetric _ _ \<Rightarrow> ''RS256'')"

definition auth_error_display :: "auth_error \<Rightarrow> string" where
  "auth_error_display e =
     (case e of
        Invalid \<Rightarrow> ''invalid token''
      | Expired \<Rightarrow> ''token expired''
      | IssuerMismatch \<Rightarrow> ''token issuer mismatch'')"

definition or_else :: "'a option \<Rightarrow> 'a option \<Rightarrow> 'a option" where
  "or_else x y = (case x of None \<Rightarrow> y | Some v \<Rightarrow> Some v)"

definition auth_verifier_from_config :: "'k jwt_lib \<Rightarrow> config \<Rightarrow> 'k auth_verifier option" where
  "auth_verifier_from_config jwt cfg =
     (case cfg_jwt_secret cfg of
        Some secret \<Rightarrow>
          Some \<lparr>av_decoding = Hmac (jwt_from_secret jwt secret), av_issuer = cfg_jwt_issuer cfg\<rparr>
      | None \<Rightarrow>
          (case cfg_jwt_public_key cfg of
             None \<Rightarrow> None
           | Some pem \<Rightarrow>
               (let algorithm =
                      (if str_contains (lit ''ED25519'') pem \<or> str_contains (lit ''Ed25519'') pem
                       then EdDSA else RS256);
                    key = or_else (or_else (jwt_from_rsa_pem jwt pem) (jwt_from_ec_pem jwt pem))
                            (jwt_from_ed_pem jwt pem)
                in case key of
                     None \<Rightarrow> None
                   | Some k \<Rightarrow>
                       Some \<lparr>av_decoding = Asymmetric k algorithm,
                             av_issuer = cfg_jwt_issuer cfg\<rparr>)))"

definition decoding_key :: "'k auth_verifier \<Rightarrow> 'k" where
  "decoding_key v = (case av_decoding v of Hmac k \<Rightarrow> k | Asymmetric k _ \<Rightarrow> k)"

definition verifier_validation :: "'k auth_verifier \<Rightarrow> validation" where
  \<comment> \<open>the \<open>Validation\<close> that \<open>verify\<close> builds\<close>
  "verifier_validation v =
     \<lparr>va_algorithm = (case av_decoding v of Hmac _ \<Rightarrow> HS256 | Asymmetric _ algo \<Rightarrow> algo),
      va_issuer = (case av_issuer v of Some iss \<Rightarrow> Some [iss] | None \<Rightarrow> None),
      va_validate_exp = True\<rparr>"

definition verify ::
    "'k jwt_lib \<Rightarrow> nat \<Rightarrow> 'k auth_verifier \<Rightarrow> rust_string \<Rightarrow> auth_error + auth_identity" where
  "verify jwt now v token =
     (case jwt_decode jwt now token (decoding_key v) (verifier_validation v) of
        Inl kind \<Rightarrow>
          Inl (case kind of
                 ExpiredSignature \<Rightarrow> Expired
               | InvalidIssuer \<Rightarrow> IssuerMismatch
               | OtherErrorKind \<Rightarrow> Invalid)
      | Inr claims \<Rightarrow>
          Inr \<lparr>ai_client_id = cl_sub claims,
               ai_tenant_id = unwrap_or (cl_tenant_id claims) (lit ''default'')\<rparr>)"

section \<open>What the documentation of the crate promises about \<open>decode\<close>\<close>

text \<open>
  \<open>signed token key algorithm claims\<close> says that the token carries these claims under a
  signature that is valid for the key and the algorithm. \<open>decode\<close> returns the claims of a
  signed token only; with \<open>validate_exp\<close> it refuses expired tokens (60 seconds of leeway,
  the default of \<open>Validation::new\<close>); with an issuer set, a token that names an issuer
  outside the set is refused.
\<close>

definition jwt_leeway :: int where
  "jwt_leeway = 60"

locale jwt_decoder =
  fixes jwt :: "'k jwt_lib"
    and signed :: "rust_string \<Rightarrow> 'k \<Rightarrow> algorithm \<Rightarrow> claims \<Rightarrow> bool"
  assumes decode_signed:
      "jwt_decode jwt now token k va = Inr c \<Longrightarrow> signed token k (va_algorithm va) c"
    and decode_not_expired:
      "jwt_decode jwt now token k va = Inr c \<Longrightarrow> va_validate_exp va \<Longrightarrow>
         int now \<le> sint (cl_exp c) + jwt_leeway"
    and decode_issuer:
      "jwt_decode jwt now token k va = Inr c \<Longrightarrow> va_issuer va = Some isss \<Longrightarrow> cl_iss c = Some i
         \<Longrightarrow> i \<in> set isss"
begin

lemma verify_Inr:
  assumes "verify jwt now v token = Inr ident"
  obtains c where "signed token (decoding_key v) (va_algorithm (verifier_validation v)) c"
    and "int now \<le> sint (cl_exp c) + jwt_leeway"
    and "\<And>i j. av_issuer v = Some i \<Longrightarrow> cl_iss c = Some j \<Longrightarrow> j = i"
    and "ai_client_id ident = cl_sub c"
    and "ai_tenant_id ident = unwrap_or (cl_tenant_id c) (lit ''default'')"
proof -
  from assms obtain c
    where dec: "jwt_decode jwt now token (decoding_key v) (verifier_validation v) = Inr c"
      and ident: "ident = \<lparr>ai_client_id = cl_sub c,
                           ai_tenant_id = unwrap_or (cl_tenant_id c) (lit ''default'')\<rparr>"
    by (auto simp: verify_def split: sum.splits)
  show thesis
  proof (rule that [of c])
    show "signed token (decoding_key v) (va_algorithm (verifier_validation v)) c"
      by (rule decode_signed [OF dec])
    show "int now \<le> sint (cl_exp c) + jwt_leeway"
      by (rule decode_not_expired [OF dec]) (simp add: verifier_validation_def)
    show "j = i" if "av_issuer v = Some i" "cl_iss c = Some j" for i j
      using decode_issuer [OF dec, of "[i]" j] that by (simp add: verifier_validation_def)
  qed (simp_all add: ident)
qed

end

text \<open>
  An instance for concrete runs: a token is a tag character for the key, and a text that
  becomes the subject; it is signed when the tag is the key's, it expires at second 1000.
\<close>

definition tag_jwt :: "nat jwt_lib" where
  "tag_jwt =
     \<lparr>jwt_from_secret = (\<lambda>s. sum_list s),
      jwt_from_rsa_pem = (\<lambda>s. if s = [] then None else Some (hd s)),
      jwt_from_ec_pem = (\<lambda>s. None),
      jwt_from_ed_pem = (\<lambda>s. None),
      jwt_decode = (\<lambda>now token k va.
        case token of
          [] \<Rightarrow> Inl OtherErrorKind
        | tag # sub \<Rightarrow>
            if tag \<noteq> k then Inl OtherErrorKind
            else if 1060 < now then Inl ExpiredSignature
            else Inr \<lparr>cl_sub = sub, cl_tenant_id = None, cl_exp = 1000, cl_iss = None\<rparr>)\<rparr>"

definition tag_signed :: "rust_string \<Rightarrow> nat \<Rightarrow> algorithm \<Rightarrow> claims \<Rightarrow> bool" where
  "tag_signed token k algo c \<longleftrightarrow> token = k # cl_sub c"

interpretation tag_decoder: jwt_decoder tag_jwt tag_signed
  by unfold_locales
     (auto simp: tag_jwt_def tag_signed_def jwt_leeway_def split: list.splits if_splits)

end
