(* ===== verification/Protocol.thy ===== *)
theory Protocol
  imports Prelude
begin

text \<open>
  The wire protocol (\<open>src/protocol.rs\<close>). A payload is an arbitrary JSON value of the
  \<open>serde_json\<close> crate, here the type variable \<open>'v\<close>. The attributes on \<open>ServerEvent\<close>
  (\<open>tag = "kind"\<close>, \<open>rename_all = "snake_case"\<close>) and its field names determine the map
  that is serialized, \<open>server_event_wire\<close>; turning the map into MessagePack bytes, and
  text or bytes into a client event, is the work of \<open>rmp_serde\<close> and \<open>serde_json\<close>: three
  parameters, the fields of \<open>codec\<close>.
\<close>

datatype 'v client_event =
  Publish (ce_topic: "rust_string option") (ce_request_id: "rust_string option") (ce_payload: 'v)
| Direct (ce_to: rust_string) (ce_request_id: "rust_string option") (ce_payload: 'v)
| Ping (ce_request_id: "rust_string option") (ce_opt_payload: "'v option")

datatype 'v server_event =
  Ready (se_topic: rust_string) (se_client_id: rust_string)
| Message (se_topic: rust_string) (se_from: rust_string)
    (se_request_id: "rust_string option") (se_payload: 'v)
| DirectMessage (se_from: rust_string) (se_to: rust_string)
    (se_request_id: "rust_string option") (se_payload: 'v)
| Pong (se_request_id: "rust_string option") (se_opt_payload: "'v option")
| Error (se_code: rust_string) (se_message: rust_string)

section \<open>The serialized map\<close>

datatype 'v wire_value = WNil | WStr rust_string | WVal 'v

type_synonym 'v wire_map = "(string \<times> 'v wire_value) list"

definition wire_opt_str :: "rust_string option \<Rightarrow> 'v wire_value" where
  "wire_opt_str x = (case x of None \<Rightarrow> WNil | Some s \<Rightarrow> WStr s)"

definition wire_opt_val :: "'v option \<Rightarrow> 'v wire_value" where
  "wire_opt_val x = (case x of None \<Rightarrow> WNil | Some v \<Rightarrow> WVal v)"

fun server_event_wire :: "'v server_event \<Rightarrow> 'v wire_map" where
  "server_event_wire (Ready topic client_id) =
     [(''kind'', WStr (lit ''ready'')), (''topic'', WStr topic), (''client_id'', WStr client_id)]"
| "server_event_wire (Message topic from request_id payload) =
     [(''kind'', WStr (lit ''message'')), (''topic'', WStr topic), (''from'', WStr from),
      (''request_id'', wire_opt_str request_id), (''payload'', WVal payload)]"
| "server_event_wire (DirectMessage from to request_id payload) =
     [(''kind'', WStr (lit ''direct_message'')), (''from'', WStr from), (''to'', WStr to),
      (''request_id'', wire_opt_str request_id), (''payload'', WVal payload)]"
| "server_event_wire (Pong request_id payload) =
     [(''kind'', WStr (lit ''pong'')), (''request_id'', wire_opt_str request_id),
      (''payload'', wire_opt_val payload)]"
| "server_event_wire (Error code message) =
     [(''kind'', WStr (lit ''error'')), (''code'', WStr code), (''message'', WStr message)]"

section \<open>The three functions of the module\<close>

record 'v codec =
  serde_json_from_str :: "rust_string \<Rightarrow> 'v client_event option"
  rmp_from_slice :: "bytes \<Rightarrow> 'v client_event option"
  rmp_to_vec_named :: "'v wire_map \<Rightarrow> bytes option"

definition parse_client_event_text :: "'v codec \<Rightarrow> rust_string \<Rightarrow> 'v client_event option" where
  "parse_client_event_text cd raw = serde_json_from_str cd raw"

definition parse_client_event_binary :: "'v codec \<Rightarrow> bytes \<Rightarrow> 'v client_event option" where
  "parse_client_event_binary cd raw = rmp_from_slice cd raw"

definition encode_server_event :: "'v codec \<Rightarrow> 'v server_event \<Rightarrow> bytes option" where
  "encode_server_event cd event = rmp_to_vec_named cd (server_event_wire event)"

section \<open>Reading the map back\<close>

text \<open>
  What a receiver reconstructs from the map by the field names, in any order: the event is
  determined by its kind and its fields.
\<close>

definition wire_str :: "'v wire_map \<Rightarrow> string \<Rightarrow> rust_string option" where
  "wire_str m f = (case map_of m f of Some (WStr s) \<Rightarrow> Some s | _ \<Rightarrow> None)"

definition wire_str_or_nil :: "'v wire_map \<Rightarrow> string \<Rightarrow> rust_string option option" where
  "wire_str_or_nil m f =
     (case map_of m f of Some (WStr s) \<Rightarrow> Some (Some s) | Some WNil \<Rightarrow> Some None | _ \<Rightarrow> None)"

definition wire_val :: "'v wire_map \<Rightarrow> string \<Rightarrow> 'v option" where
  "wire_val m f = (case map_of m f of Some (WVal v) \<Rightarrow> Some v | _ \<Rightarrow> None)"

definition wire_val_or_nil :: "'v wire_map \<Rightarrow> string \<Rightarrow> 'v option option" where
  "wire_val_or_nil m f =
     (case map_of m f of Some (WVal v) \<Rightarrow> Some (Some v) | Some WNil \<Rightarrow> Some None | _ \<Rightarrow> None)"

definition server_event_of_wire :: "'v wire_map \<Rightarrow> 'v server_event option" where
  "server_event_of_wire m =
     Option.bind (wire_str m ''kind'') (\<lambda>kind.
       if kind = lit ''ready'' then
         Option.bind (wire_str m ''topic'') (\<lambda>t.
         Option.bind (wire_str m ''client_id'') (\<lambda>c. Some (Ready t c)))
       else if kind = lit ''message'' then
         Option.bind (wire_str m ''topic'') (\<lambda>t.
         Option.bind (wire_str m ''from'') (\<lambda>f.
         Option.bind (wire_str_or_nil m ''request_id'') (\<lambda>r.
         Option.bind (wire_val m ''payload'') (\<lambda>p. Some (Message t f r p)))))
       else if kind = lit ''direct_message'' then
         Option.bind (wire_str m ''from'') (\<lambda>f.
         Option.bind (wire_str m ''to'') (\<lambda>t.
         Option.bind (wire_str_or_nil m ''request_id'') (\<lambda>r.
         Option.bind (wire_val m ''payload'') (\<lambda>p. Some (DirectMessage f t r p)))))
       else if kind = lit ''pong'' then
         Option.bind (wire_str_or_nil m ''request_id'') (\<lambda>r.
         Option.bind (wire_val_or_nil m ''payload'') (\<lambda>p. Some (Pong r p)))
       else if kind = lit ''error'' then
         Option.bind (wire_str m ''code'') (\<lambda>c.
         Option.bind (wire_str m ''message'') (\<lambda>t. Some (Error c t)))
       else None)"

lemmas wire_access =
  wire_str_def wire_str_or_nil_def wire_val_def wire_val_or_nil_def wire_opt_str_def
  wire_opt_val_def

lemma server_event_wire_distinct: "distinct (map fst (server_event_wire e))"
  by (cases e) simp_all

lemma server_event_wire_any_order:
  "set xs = set (server_event_wire e) \<Longrightarrow> distinct (map fst xs) \<Longrightarrow>
     map_of xs = map_of (server_event_wire e)"
  using map_of_inject_set [of xs "server_event_wire e"] server_event_wire_distinct by blast

lemma server_event_of_wire_any_order:
  assumes "map_of xs = map_of ys"
  shows "server_event_of_wire xs = server_event_of_wire ys"
  unfolding server_event_of_wire_def wire_str_def wire_str_or_nil_def wire_val_def
    wire_val_or_nil_def assms ..

lemma server_event_of_wire_wire: "server_event_of_wire (server_event_wire e) = Some e"
  by (cases e) (auto simp: server_event_of_wire_def wire_access split: option.splits)

section \<open>Reference codec\<close>

text \<open>
  An instance of the parameters for concrete runs: it refuses all input and encodes the
  kind of an event only.
\<close>

definition trivial_codec :: "'v codec" where
  "trivial_codec =
     \<lparr>serde_json_from_str = (\<lambda>_. None), rmp_from_slice = (\<lambda>_. None),
      rmp_to_vec_named = (\<lambda>m. Some (case m of (_, WStr s) # _ \<Rightarrow> map of_nat s | _ \<Rightarrow> []))\<rparr>"

end
