(* ===== verification/Tokio.thy ===== *)
theory Tokio
  imports Protocol "HOL-Library.AList"
begin

text \<open>
  The synchronization primitives of the \<open>tokio\<close> crate the server is built on are
  parameters: three records of operations (\<open>sem_lib\<close>, \<open>mpsc_lib\<close>, \<open>broadcast_lib\<close>) on
  state types of their own, with the documented behaviour as the laws of three locales.
  A counter, a bounded list and a table of queues are instances for concrete runs.
  Constructors that panic on a zero or oversized capacity are total here: such a
  configuration is outside the model.
\<close>

section \<open>Frames\<close>

text \<open>\<open>axum\<close>'s frames and \<open>OutboundMessage\<close> (\<open>src/state.rs\<close>), what a client queue holds.\<close>

datatype ws_message =
  WsText rust_string
| WsBinary bytes
| WsPing bytes
| WsPong bytes
| WsClose "(u16 \<times> rust_string) option"

datatype outbound_message =
  OutBinary bytes
| OutPong bytes
| OutClose u16 rust_string

definition into_ws_message :: "outbound_message \<Rightarrow> ws_message" where
  "into_ws_message m =
     (case m of
        OutBinary b \<Rightarrow> WsBinary b
      | OutPong payload \<Rightarrow> WsPong payload
      | OutClose code reason \<Rightarrow> WsClose (Some (code, reason)))"

lemma into_ws_message_inj: "into_ws_message a = into_ws_message b \<longleftrightarrow> a = b"
  by (cases a; cases b) (simp_all add: into_ws_message_def)

section \<open>Semaphores\<close>

record 's sem_lib =
  sem_new :: "nat \<Rightarrow> 's"
  sem_try_acquire :: "'s \<Rightarrow> 's option"
  sem_release :: "'s \<Rightarrow> 's"

text \<open>\<open>avail\<close> is the number of free permits.\<close>

locale semaphore =
  fixes S :: "'s sem_lib" and avail :: "'s \<Rightarrow> nat"
  assumes avail_new: "avail (sem_new S n) = n"
    and try_acquire_Some: "sem_try_acquire S s = Some s' \<Longrightarrow> avail s = Suc (avail s')"
    and try_acquire_None: "sem_try_acquire S s = None \<Longrightarrow> avail s = 0"
    and avail_release: "avail (sem_release S s) = Suc (avail s)"
begin

lemma try_acquire_cases:
  obtains s' where "sem_try_acquire S s = Some s'" "avail s = Suc (avail s')"
  | "sem_try_acquire S s = None" "avail s = 0"
  using try_acquire_Some try_acquire_None by (cases "sem_try_acquire S s") auto

lemma try_acquire_None_iff: "sem_try_acquire S s = None \<longleftrightarrow> avail s = 0"
  by (rule try_acquire_cases [of s]) auto

end

definition counting_sem :: "nat sem_lib" where
  "counting_sem =
     \<lparr>sem_new = (\<lambda>n. n),
      sem_try_acquire = (\<lambda>n. if n = 0 then None else Some (n - 1)),
      sem_release = Suc\<rparr>"

interpretation counting: semaphore counting_sem "\<lambda>n. n"
  by unfold_locales (auto simp: counting_sem_def split: if_splits)

section \<open>Bounded queues (mpsc)\<close>

datatype try_send_error = Full | Closed

record 'q mpsc_lib =
  mpsc_channel :: "nat \<Rightarrow> 'q"
  mpsc_try_send :: "'q \<Rightarrow> outbound_message \<Rightarrow> try_send_error + 'q"
  mpsc_recv :: "'q \<Rightarrow> (outbound_message \<times> 'q) option"
  mpsc_close :: "'q \<Rightarrow> 'q"

text \<open>
  \<open>mpsc_recv\<close> is \<open>None\<close> when nothing is queued, and \<open>mpsc_close\<close> is the drop of the
  receiver. \<open>queued\<close> is the content of the channel, oldest message first.
\<close>

locale bounded_queue =
  fixes M :: "'q mpsc_lib"
    and queued :: "'q \<Rightarrow> outbound_message list" and cap :: "'q \<Rightarrow> nat" and closed :: "'q \<Rightarrow> bool"
  assumes channel_new:
      "queued (mpsc_channel M n) = [] \<and> cap (mpsc_channel M n) = n \<and> \<not> closed (mpsc_channel M n)"
    and try_send_ok:
      "mpsc_try_send M q m = Inr q' \<Longrightarrow>
         \<not> closed q \<and> length (queued q) < cap q \<and>
         queued q' = queued q @ [m] \<and> cap q' = cap q \<and> \<not> closed q'"
    and try_send_full:
      "mpsc_try_send M q m = Inl Full \<Longrightarrow> \<not> closed q \<and> cap q \<le> length (queued q)"
    and try_send_closed: "mpsc_try_send M q m = Inl Closed \<Longrightarrow> closed q"
    and recv_Some:
      "mpsc_recv M q = Some (m, q') \<Longrightarrow>
         queued q = m # queued q' \<and> cap q' = cap q \<and> closed q' = closed q"
    and recv_None: "mpsc_recv M q = None \<Longrightarrow> queued q = []"
    and close_queue:
      "closed (mpsc_close M q) \<and> queued (mpsc_close M q) = [] \<and> cap (mpsc_close M q) = cap q"
begin

lemma try_send_bounded:
  "length (queued q) \<le> cap q \<Longrightarrow> mpsc_try_send M q m = Inr q' \<Longrightarrow> length (queued q') \<le> cap q'"
  using try_send_ok by fastforce

lemma try_send_Inr_iff:
  "(\<exists>q'. mpsc_try_send M q m = Inr q') \<longleftrightarrow> \<not> closed q \<and> length (queued q) < cap q"
proof (cases "mpsc_try_send M q m")
  case (Inl e)
  then show ?thesis using try_send_full try_send_closed by (cases e) force+
next
  case (Inr q')
  then show ?thesis using try_send_ok by blast
qed

end

text \<open>The instance: capacity, whether the receiver is gone, and the messages.\<close>

definition list_mpsc :: "(nat \<times> bool \<times> outbound_message list) mpsc_lib" where
  "list_mpsc =
     \<lparr>mpsc_channel = (\<lambda>n. (n, False, [])),
      mpsc_try_send = (\<lambda>(n, cl, ms) m.
        if cl then Inl Closed else if n \<le> length ms then Inl Full else Inr (n, cl, ms @ [m])),
      mpsc_recv = (\<lambda>(n, cl, ms).
        case ms of [] \<Rightarrow> None | m # ms' \<Rightarrow> Some (m, (n, cl, ms'))),
      mpsc_close = (\<lambda>(n, cl, ms). (n, True, []))\<rparr>"

interpretation list_queue: bounded_queue list_mpsc "\<lambda>(n, cl, ms). ms" "\<lambda>(n, cl, ms). n"
    "\<lambda>(n, cl, ms). cl"
  by unfold_locales (auto simp: list_mpsc_def split: if_splits list.splits)

section \<open>Broadcast channels\<close>

text \<open>
  A receiver is known by a number. \<open>bc_send\<close> is \<open>None\<close> when there is no receiver, and
  otherwise counts the receivers. A receiver that is too slow misses messages: its next
  \<open>bc_recv\<close> is \<open>BcLagged\<close>. The server keeps a sender of each channel, so a receiver never
  sees the channel closed.
\<close>

datatype 'b bc_result = BcMessage bytes 'b | BcLagged u64 'b | BcEmpty

record 'b broadcast_lib =
  bc_channel :: "nat \<Rightarrow> 'b"
  bc_send :: "'b \<Rightarrow> bytes \<Rightarrow> (nat \<times> 'b) option"
  bc_subscribe :: "'b \<Rightarrow> nat \<times> 'b"
  bc_recv :: "'b \<Rightarrow> nat \<Rightarrow> 'b bc_result"
  bc_unsubscribe :: "'b \<Rightarrow> nat \<Rightarrow> 'b"

locale broadcast =
  fixes B :: "'b broadcast_lib"
    and receivers :: "'b \<Rightarrow> nat set" and pending :: "'b \<Rightarrow> nat \<Rightarrow> bytes list"
    and capacity :: "'b \<Rightarrow> nat"
  assumes channel_new: "receivers (bc_channel B n) = {} \<and> n \<le> capacity (bc_channel B n)"
    and receivers_finite: "finite (receivers b)"
    and send_None_iff: "bc_send B b m = None \<longleftrightarrow> receivers b = {}"
    and send_Some:
      "bc_send B b m = Some (n, b') \<Longrightarrow>
         n = card (receivers b) \<and> receivers b' = receivers b \<and> capacity b' = capacity b \<and>
         (\<forall>r \<in> receivers b. \<exists>k. pending b' r = drop k (pending b r @ [m]) \<and>
            (length (pending b r) < capacity b \<longrightarrow> k = 0))"
    and subscribe_new:
      "bc_subscribe B b = (r, b') \<Longrightarrow>
         r \<notin> receivers b \<and> receivers b' = insert r (receivers b) \<and> pending b' r = [] \<and>
         capacity b' = capacity b \<and> (\<forall>r' \<in> receivers b. pending b' r' = pending b r')"
    and recv_message:
      "bc_recv B b r = BcMessage m b' \<Longrightarrow> r \<in> receivers b \<Longrightarrow>
         pending b r = m # pending b' r \<and> receivers b' = receivers b \<and> capacity b' = capacity b \<and>
         (\<forall>r' \<in> receivers b - {r}. pending b' r' = pending b r')"
    and recv_lagged:
      "bc_recv B b r = BcLagged skipped b' \<Longrightarrow> r \<in> receivers b \<Longrightarrow>
         receivers b' = receivers b \<and> capacity b' = capacity b \<and>
         (\<forall>r' \<in> receivers b. pending b' r' = pending b r')"
    and recv_empty: "bc_recv B b r = BcEmpty \<Longrightarrow> r \<in> receivers b \<Longrightarrow> pending b r = []"
    and unsubscribe:
      "receivers (bc_unsubscribe B b r) = receivers b - {r} \<and>
       capacity (bc_unsubscribe B b r) = capacity b \<and>
       (\<forall>r' \<in> receivers b - {r}. pending (bc_unsubscribe B b r) r' = pending b r')"

text \<open>
  The instance: the capacity, and for each receiver its lag and its pending messages; a
  full receiver loses the oldest one.
\<close>

type_synonym table_bc = "nat \<times> (nat \<times> nat \<times> bytes list) list"

definition bc_push :: "nat \<Rightarrow> bytes \<Rightarrow> nat \<times> bytes list \<Rightarrow> nat \<times> bytes list" where
  "bc_push n m = (\<lambda>(lag, ms).
     if length ms < n then (lag, ms @ [m]) else (Suc lag, drop 1 (ms @ [m])))"

definition fresh_receiver :: "(nat \<times> 'a) list \<Rightarrow> nat" where
  "fresh_receiver rs = foldr (\<lambda>(r, _) acc. max (Suc r) acc) rs 0"

definition table_broadcast :: "table_bc broadcast_lib" where
  "table_broadcast =
     \<lparr>bc_channel = (\<lambda>n. (n, [])),
      bc_send = (\<lambda>(n, rs) m.
        if rs = [] then None
        else Some (length (remdups (map fst rs)), (n, map (\<lambda>(r, x). (r, bc_push n m x)) rs))),
      bc_subscribe = (\<lambda>(n, rs).
        (fresh_receiver rs, (n, AList.update (fresh_receiver rs) (0, []) rs))),
      bc_recv = (\<lambda>(n, rs) r.
        case map_of rs r of
          None \<Rightarrow> BcEmpty
        | Some (lag, ms) \<Rightarrow>
            if 0 < lag then BcLagged (of_nat lag) (n, AList.update r (0, ms) rs)
            else (case ms of
                    [] \<Rightarrow> BcEmpty
                  | m # ms' \<Rightarrow> BcMessage m (n, AList.update r (0, ms') rs))),
      bc_unsubscribe = (\<lambda>(n, rs) r. (n, AList.delete r rs))\<rparr>"

definition table_receivers :: "table_bc \<Rightarrow> nat set" where
  "table_receivers b = fst ` set (snd b)"

definition table_pending :: "table_bc \<Rightarrow> nat \<Rightarrow> bytes list" where
  "table_pending b r = (case map_of (snd b) r of None \<Rightarrow> [] | Some (lag, ms) \<Rightarrow> ms)"

lemma fresh_receiver_fresh: "r \<in> fst ` set rs \<Longrightarrow> r < fresh_receiver rs"
  by (induction rs) (auto simp: fresh_receiver_def less_max_iff_disj rev_image_eqI)

lemma fresh_receiver_unused: "map_of rs (fresh_receiver rs) = None"
  using fresh_receiver_fresh by (fastforce simp: map_of_eq_None_iff)

lemma table_receivers_dom: "r \<in> table_receivers b \<longleftrightarrow> map_of (snd b) r \<noteq> None"
  by (simp add: table_receivers_def map_of_eq_None_iff)

lemma table_pending_map:
  "map_of (map (\<lambda>(r, x). (r, f x)) rs) r = map_option f (map_of rs r)"
  by (induction rs) auto

lemma bc_push_pending:
  "\<exists>k. snd (bc_push n m x) = drop k (snd x @ [m]) \<and> (length (snd x) < n \<longrightarrow> k = 0)"
  by (cases x) (auto simp: bc_push_def intro: exI [of _ 0] exI [of _ 1])

interpretation table: broadcast table_broadcast table_receivers table_pending fst
proof unfold_locales
  fix b b' :: table_bc and m n r
  obtain c rs where b: "b = (c, rs)" by (cases b)
  show "finite (table_receivers b)" by (simp add: table_receivers_def)
  show "bc_send table_broadcast b m = None \<longleftrightarrow> table_receivers b = {}"
    by (simp add: b table_broadcast_def table_receivers_def)
  show "n = card (table_receivers b) \<and> table_receivers b' = table_receivers b \<and> fst b' = fst b \<and>
      (\<forall>r \<in> table_receivers b. \<exists>k. table_pending b' r = drop k (table_pending b r @ [m]) \<and>
         (length (table_pending b r) < fst b \<longrightarrow> k = 0))"
    if "bc_send table_broadcast b m = Some (n, b')"
  proof -
    from that have n: "n = card (table_receivers b)"
      and b': "b' = (c, map (\<lambda>(r, x). (r, bc_push c m x)) rs)"
      by (auto simp: b table_broadcast_def table_receivers_def length_remdups_card_conv
          split: if_splits)
    have "table_receivers b' = table_receivers b"
      by (force simp: b b' table_receivers_def)
    moreover have "\<exists>k. table_pending b' r = drop k (table_pending b r @ [m]) \<and>
         (length (table_pending b r) < c \<longrightarrow> k = 0)" if r: "r \<in> table_receivers b" for r
    proof -
      from r obtain x where "map_of rs r = Some x" by (auto simp: table_receivers_dom b)
      then show ?thesis
        using bc_push_pending [of c m x]
        by (auto simp: table_pending_def b b' table_pending_map split_beta)
    qed
    ultimately show ?thesis using n by (simp add: b b')
  qed
  show "r \<notin> table_receivers b \<and> table_receivers b' = insert r (table_receivers b) \<and>
      table_pending b' r = [] \<and> fst b' = fst b \<and>
      (\<forall>r' \<in> table_receivers b. table_pending b' r' = table_pending b r')"
    if "bc_subscribe table_broadcast b = (r, b')"
    using that fresh_receiver_unused [of rs]
    by (auto simp: b table_broadcast_def table_receivers_dom table_pending_def update_conv
        set_eq_iff split: if_splits)
  show "table_pending b r = m # table_pending b' r \<and> table_receivers b' = table_receivers b \<and>
      fst b' = fst b \<and> (\<forall>r' \<in> table_receivers b - {r}. table_pending b' r' = table_pending b r')"
    if "bc_recv table_broadcast b r = BcMessage m b'" "r \<in> table_receivers b"
    using that
    by (auto simp: b table_broadcast_def table_receivers_dom table_pending_def update_conv
        set_eq_iff split: if_splits list.splits option.splits)
  show "table_receivers b' = table_receivers b \<and> fst b' = fst b \<and>
      (\<forall>r' \<in> table_receivers b. table_pending b' r' = table_pending b r')"
    if "bc_recv table_broadcast b r = BcLagged n' b'" "r \<in> table_receivers b" for n'
    using that
    by (auto simp: b table_broadcast_def table_receivers_dom table_pending_def update_conv
        set_eq_iff split: if_splits list.splits option.splits)
  show "table_pending b r = []"
    if "bc_recv table_broadcast b r = BcEmpty" "r \<in> table_receivers b"
    using that
    by (auto simp: b table_broadcast_def table_receivers_dom table_pending_def
        split: if_splits list.splits option.splits)
  show "table_receivers (bc_unsubscribe table_broadcast b r) = table_receivers b - {r} \<and>
      fst (bc_unsubscribe table_broadcast b r) = fst b \<and>
      (\<forall>r' \<in> table_receivers b - {r}.
         table_pending (bc_unsubscribe table_broadcast b r) r' = table_pending b r')"
    by (auto simp: b table_broadcast_def table_receivers_dom table_pending_def delete_conv
        set_eq_iff)
qed (simp_all add: table_broadcast_def table_receivers_def)

end
