(* ===== verification/App_State.thy ===== *)
theory App_State
  imports Ip_Limiter Topic Metrics Auth Tokio
begin

text \<open>
  The shared state of the server (\<open>src/state.rs\<close>). A \<open>DashMap\<close> is a map. The state owns
  the store of client queues, \<open>st_chans\<close>: the clones of an \<open>mpsc::Sender\<close> share one
  queue, so a sender is an address in that store. Broadcast channels and semaphores are
  shared through their map entries and stay in them. The third-party primitives are the
  fields of \<open>env\<close>, with the number of worker threads of the runtime.
\<close>

record ('s, 'b, 'q, 'k, 'v) env =
  env_sem :: "'s sem_lib"
  env_bcast :: "'b broadcast_lib"
  env_mpsc :: "'q mpsc_lib"
  env_jwt :: "'k jwt_lib"
  env_codec :: "'v codec"
  env_workers :: nat

record client_handle =
  ch_connection_id :: u64
  ch_sender :: nat

record ('s, 'b, 'q, 'k) app_state =
  st_config :: config
  st_metrics :: metrics
  st_connection_limit :: 's
  st_auth :: "'k auth_verifier option"
  st_ip_limiter :: "ip_limiter option"
  st_tenant_limits :: "(rust_string \<rightharpoonup> 's) option"
  st_tenant_rate_limits :: "(rust_string \<rightharpoonup> token_bucket) option"
  st_topics :: "rust_string \<rightharpoonup> 'b"
  st_clients :: "rust_string \<times> rust_string \<rightharpoonup> client_handle"
  st_next_connection_id :: u64
  st_chans :: "nat \<rightharpoonup> 'q"
  st_next_chan :: nat

definition app_state_new :: "('s, 'b, 'q, 'k, 'v) env \<Rightarrow> config \<Rightarrow> ('s, 'b, 'q, 'k) app_state" where
  "app_state_new E cfg =
     \<lparr>st_config = cfg,
      st_metrics = metrics_default,
      st_connection_limit = sem_new (env_sem E) (unat (cfg_max_connections cfg)),
      st_auth = auth_verifier_from_config (env_jwt E) cfg,
      st_ip_limiter = ip_limiter_from_config cfg,
      st_tenant_limits = map_option (\<lambda>_. Map.empty) (cfg_tenant_max_connections cfg),
      st_tenant_rate_limits =
        map_option (\<lambda>_. Map.empty) (cfg_tenant_max_messages_per_second cfg),
      st_topics = Map.empty,
      st_clients = Map.empty,
      st_next_connection_id = 1,
      st_chans = Map.empty,
      st_next_chan = 0\<rparr>"

definition count_metric ::
    "(metrics \<Rightarrow> metrics) \<Rightarrow> ('s, 'b, 'q, 'k) app_state \<Rightarrow> ('s, 'b, 'q, 'k) app_state" where
  \<comment> \<open>\<open>state.metrics.f()\<close>\<close>
  "count_metric f st = st\<lparr>st_metrics := f (st_metrics st)\<rparr>"

definition next_connection_id ::
    "('s, 'b, 'q, 'k) app_state \<Rightarrow> u64 \<times> ('s, 'b, 'q, 'k) app_state" where
  "next_connection_id st =
     (st_next_connection_id st, st\<lparr>st_next_connection_id := st_next_connection_id st + 1\<rparr>)"

section \<open>Tenant limits\<close>

text \<open>
  The permit of a tenant names the tenant whose semaphore it came from. The result is
  \<open>None\<close> when no cap is configured, \<open>Some (Inl ())\<close> when the cap is reached.
\<close>

definition acquire_tenant_permit ::
    "('s, 'b, 'q, 'k, 'v) env \<Rightarrow> rust_string \<Rightarrow> ('s, 'b, 'q, 'k) app_state
      \<Rightarrow> (unit + rust_string) option \<times> ('s, 'b, 'q, 'k) app_state" where
  "acquire_tenant_permit E tenant_id st =
     (case st_tenant_limits st of
        None \<Rightarrow> (None, st)
      | Some limits \<Rightarrow>
          (case cfg_tenant_max_connections (st_config st) of
             None \<Rightarrow> (None, st)
           | Some cap \<Rightarrow>
               (let sem = (case limits tenant_id of
                             Some s \<Rightarrow> s
                           | None \<Rightarrow> sem_new (env_sem E) (unat cap))
                in case sem_try_acquire (env_sem E) sem of
                     Some sem' \<Rightarrow>
                       (Some (Inr tenant_id), st\<lparr>st_tenant_limits := Some (limits(tenant_id \<mapsto> sem'))\<rparr>)
                   | None \<Rightarrow>
                       (Some (Inl ()), st\<lparr>st_tenant_limits := Some (limits(tenant_id \<mapsto> sem))\<rparr>))))"

definition drop_tenant_permit ::
    "('s, 'b, 'q, 'k, 'v) env \<Rightarrow> rust_string \<Rightarrow> ('s, 'b, 'q, 'k) app_state
      \<Rightarrow> ('s, 'b, 'q, 'k) app_state" where
  \<comment> \<open>the drop of an \<open>OwnedSemaphorePermit\<close> of the tenant's semaphore\<close>
  "drop_tenant_permit E tenant_id st =
     (case st_tenant_limits st of
        None \<Rightarrow> st
      | Some limits \<Rightarrow>
          (case limits tenant_id of
             None \<Rightarrow> st
           | Some sem \<Rightarrow>
               st\<lparr>st_tenant_limits := Some (limits(tenant_id \<mapsto> sem_release (env_sem E) sem))\<rparr>))"

text \<open>Clock readings: a new bucket (0), the refill (1).\<close>

definition check_tenant_rate ::
    "clock \<Rightarrow> rust_string \<Rightarrow> ('s, 'b, 'q, 'k) app_state \<Rightarrow> bool \<times> ('s, 'b, 'q, 'k) app_state" where
  "check_tenant_rate clk tenant_id st =
     (case st_tenant_rate_limits st of
        None \<Rightarrow> (True, st)
      | Some limits \<Rightarrow>
          (case cfg_tenant_max_messages_per_second (st_config st) of
             None \<Rightarrow> (True, st)
           | Some r \<Rightarrow>
               (let rate = f64_of_nat (unat r);
                    burst = (case cfg_tenant_message_burst (st_config st) of
                               Some b \<Rightarrow> f64_of_nat (unat b)
                             | None \<Rightarrow> max rate 1);
                    bucket = (case limits tenant_id of
                                Some b \<Rightarrow> b
                              | None \<Rightarrow> token_bucket_new rate burst (clk 0));
                    (ok, bucket') = try_consume (clk 1) bucket
                in (ok, st\<lparr>st_tenant_rate_limits := Some (limits(tenant_id \<mapsto> bucket'))\<rparr>))))"

section \<open>Client queues\<close>

definition new_channel ::
    "('s, 'b, 'q, 'k, 'v) env \<Rightarrow> ('s, 'b, 'q, 'k) app_state \<Rightarrow> nat \<times> ('s, 'b, 'q, 'k) app_state" where
  \<comment> \<open>\<open>mpsc::channel(config.client_queue_capacity)\<close>\<close>
  "new_channel E st =
     (st_next_chan st,
      st\<lparr>st_chans := (st_chans st)(st_next_chan st \<mapsto>
            mpsc_channel (env_mpsc E) (unat (cfg_client_queue_capacity (st_config st)))),
         st_next_chan := Suc (st_next_chan st)\<rparr>)"

definition chan_try_send ::
    "('s, 'b, 'q, 'k, 'v) env \<Rightarrow> nat \<Rightarrow> outbound_message \<Rightarrow> ('s, 'b, 'q, 'k) app_state
      \<Rightarrow> try_send_error + ('s, 'b, 'q, 'k) app_state" where
  \<comment> \<open>\<open>Sender::try_send\<close> on the queue at an address\<close>
  "chan_try_send E addr m st =
     (case st_chans st addr of
        None \<Rightarrow> Inl Closed
      | Some q \<Rightarrow>
          (case mpsc_try_send (env_mpsc E) q m of
             Inl e \<Rightarrow> Inl e
           | Inr q' \<Rightarrow> Inr (st\<lparr>st_chans := (st_chans st)(addr \<mapsto> q')\<rparr>)))"

section \<open>The registry of clients\<close>

definition register_client ::
    "rust_string \<Rightarrow> rust_string \<Rightarrow> u64 \<Rightarrow> nat \<Rightarrow> ('s, 'b, 'q, 'k) app_state
      \<Rightarrow> ('s, 'b, 'q, 'k) app_state" where
  "register_client client_id tenant_id connection_id sender st =
     st\<lparr>st_clients := (st_clients st)((tenant_id, client_id) \<mapsto>
          \<lparr>ch_connection_id = connection_id, ch_sender = sender\<rparr>)\<rparr>"

text \<open>
  \<open>unregister_client\<close> reads the registry and removes the entry in two separate map
  operations: the guard of \<open>get\<close> is released before \<open>remove\<close> runs.
\<close>

definition unregister_check ::
    "rust_string \<Rightarrow> rust_string \<Rightarrow> u64 \<Rightarrow> ('s, 'b, 'q, 'k) app_state \<Rightarrow> bool" where
  "unregister_check client_id tenant_id connection_id st =
     (case st_clients st (tenant_id, client_id) of
        Some handle \<Rightarrow> ch_connection_id handle = connection_id
      | None \<Rightarrow> False)"

definition unregister_remove ::
    "rust_string \<Rightarrow> rust_string \<Rightarrow> ('s, 'b, 'q, 'k) app_state \<Rightarrow> ('s, 'b, 'q, 'k) app_state" where
  "unregister_remove client_id tenant_id st =
     st\<lparr>st_clients := (st_clients st)((tenant_id, client_id) := None)\<rparr>"

definition unregister_client ::
    "rust_string \<Rightarrow> rust_string \<Rightarrow> u64 \<Rightarrow> ('s, 'b, 'q, 'k) app_state
      \<Rightarrow> ('s, 'b, 'q, 'k) app_state" where
  "unregister_client client_id tenant_id connection_id st =
     (if unregister_check client_id tenant_id connection_id st
      then unregister_remove client_id tenant_id st else st)"

definition send_to_client ::
    "('s, 'b, 'q, 'k, 'v) env \<Rightarrow> rust_string \<Rightarrow> rust_string \<Rightarrow> bytes \<Rightarrow> ('s, 'b, 'q, 'k) app_state
      \<Rightarrow> bool \<times> ('s, 'b, 'q, 'k) app_state" where
  "send_to_client E client_id tenant_id message st =
     (case st_clients st (tenant_id, client_id) of
        Some handle \<Rightarrow>
          (case chan_try_send E (ch_sender handle) (OutBinary message) st of
             Inr st' \<Rightarrow> (True, st')
           | Inl _ \<Rightarrow> (False, st))
      | None \<Rightarrow> (False, st))"

section \<open>Topics\<close>

definition topic_sender ::
    "('s, 'b, 'q, 'k, 'v) env \<Rightarrow> rust_string \<Rightarrow> ('s, 'b, 'q, 'k) app_state
      \<Rightarrow> 'b \<times> ('s, 'b, 'q, 'k) app_state" where
  "topic_sender E topic_key st =
     (case st_topics st topic_key of
        Some b \<Rightarrow> (b, st)
      | None \<Rightarrow>
          (let b = bc_channel (env_bcast E) (unat (cfg_topic_channel_capacity (st_config st)))
           in (b, st\<lparr>st_topics := (st_topics st)(topic_key \<mapsto> b)\<rparr>)))"

definition put_topic ::
    "rust_string \<Rightarrow> 'b \<Rightarrow> ('s, 'b, 'q, 'k) app_state \<Rightarrow> ('s, 'b, 'q, 'k) app_state" where
  "put_topic topic_key b st = st\<lparr>st_topics := (st_topics st)(topic_key \<mapsto> b)\<rparr>"

definition publish ::
    "('s, 'b, 'q, 'k, 'v) env \<Rightarrow> rust_string \<Rightarrow> bytes \<Rightarrow> ('s, 'b, 'q, 'k) app_state
      \<Rightarrow> nat \<times> ('s, 'b, 'q, 'k) app_state" where
  "publish E topic_key message st =
     (let (b, st') = topic_sender E topic_key st
      in case bc_send (env_bcast E) b message of
           Some (n, b') \<Rightarrow> (n, put_topic topic_key b' st')
         | None \<Rightarrow> (0, st'))"

definition subscribe ::
    "('s, 'b, 'q, 'k, 'v) env \<Rightarrow> rust_string \<Rightarrow> ('s, 'b, 'q, 'k) app_state
      \<Rightarrow> nat \<times> ('s, 'b, 'q, 'k) app_state" where
  "subscribe E topic_key st =
     (let (b, st') = topic_sender E topic_key st;
          (r, b') = bc_subscribe (env_bcast E) b
      in (r, put_topic topic_key b' st'))"

section \<open>What an operation leaves alone\<close>

text \<open>
  \<open>touches A K\<close>: the step from \<open>st\<close> to \<open>st'\<close> only moves messages, through the client
  queues at the addresses \<open>A\<close> and the topics with the keys \<open>K\<close>. Limits, registry,
  identifiers and the connection counters stay as they are.
\<close>

definition same_control ::
    "('s, 'b, 'q, 'k) app_state \<Rightarrow> ('s, 'b, 'q, 'k) app_state \<Rightarrow> bool" where
  "same_control st st' \<longleftrightarrow>
     st_config st' = st_config st \<and> st_connection_limit st' = st_connection_limit st \<and>
     st_auth st' = st_auth st \<and> st_ip_limiter st' = st_ip_limiter st \<and>
     st_tenant_limits st' = st_tenant_limits st \<and> st_clients st' = st_clients st \<and>
     st_next_connection_id st' = st_next_connection_id st \<and>
     st_next_chan st' = st_next_chan st \<and> dom (st_chans st') = dom (st_chans st) \<and>
     m_active_connections (st_metrics st') = m_active_connections (st_metrics st) \<and>
     m_accepted_connections (st_metrics st') = m_accepted_connections (st_metrics st) \<and>
     m_rejected_connections (st_metrics st') = m_rejected_connections (st_metrics st)"

definition touches ::
    "nat set \<Rightarrow> rust_string set \<Rightarrow> ('s, 'b, 'q, 'k) app_state \<Rightarrow> ('s, 'b, 'q, 'k) app_state
      \<Rightarrow> bool" where
  "touches A K st st' \<longleftrightarrow>
     same_control st st' \<and>
     (\<forall>a. a \<notin> A \<longrightarrow> st_chans st' a = st_chans st a) \<and>
     (\<forall>k. k \<notin> K \<longrightarrow> st_topics st' k = st_topics st k)"

lemma touches_refl [simp, intro]: "touches A K st st"
  by (simp add: touches_def same_control_def)

lemma touches_trans [trans]:
  "touches A K st st1 \<Longrightarrow> touches A K st1 st2 \<Longrightarrow> touches A K st st2"
  by (simp add: touches_def same_control_def)

lemma touches_control:
  assumes "touches A K st st'"
  shows "st_config st' = st_config st" "st_connection_limit st' = st_connection_limit st"
    "st_auth st' = st_auth st" "st_ip_limiter st' = st_ip_limiter st"
    "st_tenant_limits st' = st_tenant_limits st" "st_clients st' = st_clients st"
    "st_next_connection_id st' = st_next_connection_id st"
    "st_next_chan st' = st_next_chan st" "dom (st_chans st') = dom (st_chans st)"
    "m_active_connections (st_metrics st') = m_active_connections (st_metrics st)"
  using assms by (simp_all add: touches_def same_control_def)

lemma touches_count_metric [invariant_intros]:
  assumes "\<And>m. m_active_connections (f m) = m_active_connections m"
    and "\<And>m. m_accepted_connections (f m) = m_accepted_connections m"
    and "\<And>m. m_rejected_connections (f m) = m_rejected_connections m"
  shows "touches A K st (count_metric f st)"
  using assms by (simp add: touches_def same_control_def count_metric_def)

lemma touches_check_tenant_rate [invariant_intros]:
  assumes "check_tenant_rate clk t st = (ok, st')"
  shows "touches A K st st'"
  using assms
  by (auto simp: check_tenant_rate_def touches_def same_control_def Let_def
      split: option.splits prod.splits)

lemma touches_chan_try_send [invariant_intros]:
  assumes "chan_try_send E a m st = Inr st'" "a \<in> A"
  shows "touches A K st st'"
  using assms
  by (auto simp: chan_try_send_def touches_def same_control_def split: option.splits sum.splits
      if_splits)

lemma touches_send_to_client [invariant_intros]:
  assumes "send_to_client E c t m st = (ok, st')"
    and "\<And>h. st_clients st (t, c) = Some h \<Longrightarrow> ch_sender h \<in> A"
  shows "touches A K st st'"
  using assms touches_chan_try_send
  by (fastforce simp: send_to_client_def split: option.splits sum.splits)

lemma topic_sender_eq:
  "topic_sender E key st =
     (case st_topics st key of
        Some b \<Rightarrow> (b, st)
      | None \<Rightarrow>
          (let b = bc_channel (env_bcast E) (unat (cfg_topic_channel_capacity (st_config st)))
           in (b, put_topic key b st)))"
  by (simp add: topic_sender_def put_topic_def split: option.split)

lemma put_topic_put_topic [simp]: "put_topic key b (put_topic key b' st) = put_topic key b st"
  by (simp add: put_topic_def)

lemma put_topic_topics [effect_simps]: "st_topics (put_topic key b st) = (st_topics st)(key \<mapsto> b)"
  by (simp add: put_topic_def)

text \<open>The channel an operation on a topic works on: the one in the map, or a new one.\<close>

definition topic_of :: "('s, 'b, 'q, 'k, 'v) env \<Rightarrow> rust_string \<Rightarrow> ('s, 'b, 'q, 'k) app_state \<Rightarrow> 'b" where
  "topic_of E key st = fst (topic_sender E key st)"

lemma subscribe_eq:
  assumes "subscribe E key st = (r, st')"
  obtains b where "bc_subscribe (env_bcast E) (topic_of E key st) = (r, b)" "st' = put_topic key b st"
  using assms
  by (auto simp: subscribe_def topic_of_def topic_sender_eq Let_def split: option.splits prod.splits)

lemma publish_eq:
  assumes "publish E key m st = (n, st')"
  obtains b where "bc_send (env_bcast E) (topic_of E key st) m = Some (n, b)" "st' = put_topic key b st"
  | "bc_send (env_bcast E) (topic_of E key st) m = None" "n = 0" "st' = snd (topic_sender E key st)"
  using assms
  by (auto simp: publish_def topic_of_def topic_sender_eq Let_def split: option.splits prod.splits)

lemma touches_put_topic: "key \<in> K \<Longrightarrow> touches A K st (put_topic key b st)"
  by (simp add: touches_def same_control_def put_topic_def)

lemma touches_publish [invariant_intros]:
  assumes "publish E key m st = (n, st')" "key \<in> K"
  shows "touches A K st st'"
  using assms(1)
  by (rule publish_eq)
     (auto simp: topic_sender_eq Let_def assms(2) touches_put_topic split: option.split)

section \<open>The state over the laws of the crates\<close>

text \<open>
  What the laws let one observe: the receivers of a topic and what is pending for each,
  the messages queued for a client, the free permits of a tenant. A topic or a tenant with
  no entry yet has the value a new entry would have.
\<close>

definition topic_receivers ::
    "('b \<Rightarrow> nat set) \<Rightarrow> ('s, 'b, 'q, 'k) app_state \<Rightarrow> rust_string \<Rightarrow> nat set" where
  "topic_receivers receivers st key =
     (case st_topics st key of None \<Rightarrow> {} | Some b \<Rightarrow> receivers b)"

definition topic_pending ::
    "('b \<Rightarrow> nat \<Rightarrow> bytes list) \<Rightarrow> ('s, 'b, 'q, 'k) app_state \<Rightarrow> rust_string \<Rightarrow> nat \<Rightarrow> bytes list" where
  "topic_pending pending st key r =
     (case st_topics st key of None \<Rightarrow> [] | Some b \<Rightarrow> pending b r)"

definition queue_of ::
    "('q \<Rightarrow> outbound_message list) \<Rightarrow> ('s, 'b, 'q, 'k) app_state \<Rightarrow> nat \<Rightarrow> outbound_message list" where
  "queue_of queued st a = (case st_chans st a of None \<Rightarrow> [] | Some q \<Rightarrow> queued q)"

definition tenant_cap :: "('s, 'b, 'q, 'k) app_state \<Rightarrow> nat option" where
  "tenant_cap st =
     (case st_tenant_limits st of
        None \<Rightarrow> None
      | Some _ \<Rightarrow> map_option unat (cfg_tenant_max_connections (st_config st)))"

definition tenant_used ::
    "('s \<Rightarrow> nat) \<Rightarrow> ('s, 'b, 'q, 'k) app_state \<Rightarrow> rust_string \<Rightarrow> nat" where
  "tenant_used avail st t =
     (case (tenant_cap st, st_tenant_limits st) of
        (Some cap, Some limits) \<Rightarrow> (case limits t of None \<Rightarrow> 0 | Some s \<Rightarrow> cap - avail s)
      | _ \<Rightarrow> 0)"

definition tenant_limits_ok :: "('s \<Rightarrow> nat) \<Rightarrow> ('s, 'b, 'q, 'k) app_state \<Rightarrow> bool" where
  "tenant_limits_ok avail st \<longleftrightarrow>
     (\<forall>limits t s cap. st_tenant_limits st = Some limits \<longrightarrow> limits t = Some s \<longrightarrow>
        cfg_tenant_max_connections (st_config st) = Some cap \<longrightarrow> avail s \<le> unat cap)"

lemma tenant_frame:
  assumes "st_tenant_limits st' = st_tenant_limits st" "st_config st' = st_config st"
  shows "tenant_used avail st' = tenant_used avail st" "tenant_cap st' = tenant_cap st"
    "tenant_limits_ok avail st' = tenant_limits_ok avail st"
  unfolding tenant_used_def tenant_cap_def tenant_limits_ok_def assms by (rule refl)+

locale server_env =
  sem: semaphore "env_sem E" avail +
  mpsc: bounded_queue "env_mpsc E" queued qcap qclosed +
  bc: broadcast "env_bcast E" receivers pending bcap
  for E :: "('s, 'b, 'q, 'k, 'v) env"
    and avail :: "'s \<Rightarrow> nat"
    and queued :: "'q \<Rightarrow> outbound_message list" and qcap :: "'q \<Rightarrow> nat" and qclosed :: "'q \<Rightarrow> bool"
    and receivers :: "'b \<Rightarrow> nat set" and pending :: "'b \<Rightarrow> nat \<Rightarrow> bytes list"
    and bcap :: "'b \<Rightarrow> nat"
begin

abbreviation "topic_rx \<equiv> topic_receivers receivers"
abbreviation "topic_msgs \<equiv> topic_pending pending"

lemma topic_of_receivers: "receivers (topic_of E key st) = topic_rx st key"
  using bc.channel_new
  by (auto simp: topic_of_def topic_sender_eq topic_receivers_def Let_def split: option.split)

lemma topic_of_pending: "r \<in> topic_rx st key \<Longrightarrow> pending (topic_of E key st) r = topic_msgs st key r"
  by (auto simp: topic_of_def topic_sender_eq topic_receivers_def topic_pending_def Let_def
      split: option.splits)

lemma topic_rx_put_topic: "topic_rx (put_topic key b st) = (topic_rx st)(key := receivers b)"
  by (auto simp: topic_receivers_def put_topic_def fun_eq_iff)

text \<open>
  A publish reaches every receiver of its topic, and no other: it counts the receivers
  and puts the message behind what is pending for each; a receiver that already has as
  many messages as the channel holds loses the oldest.
\<close>

lemma publish_count:
  assumes "publish E key m st = (n, st')"
  shows "n = card (topic_rx st key)"
  using assms
proof (rule publish_eq)
  fix b assume "bc_send (env_bcast E) (topic_of E key st) m = Some (n, b)"
  then show ?thesis using bc.send_Some topic_of_receivers [of key st] by metis
next
  assume "bc_send (env_bcast E) (topic_of E key st) m = None" "n = 0"
  then show ?thesis using bc.send_None_iff topic_of_receivers [of key st] by simp
qed

lemma publish_receivers:
  assumes "publish E key m st = (n, st')"
  shows "topic_rx st' = topic_rx st"
  using assms
proof (rule publish_eq)
  fix b assume "bc_send (env_bcast E) (topic_of E key st) m = Some (n, b)" "st' = put_topic key b st"
  then show ?thesis using bc.send_Some topic_of_receivers [of key st]
    by (metis topic_rx_put_topic fun_upd_triv)
next
  assume "st' = snd (topic_sender E key st)"
  then show ?thesis using bc.channel_new
    by (auto simp: topic_sender_eq Let_def topic_receivers_def put_topic_def fun_eq_iff
        split: option.split)
qed

lemma publish_delivers:
  assumes "publish E key m st = (n, st')" and r: "r \<in> topic_rx st key"
  obtains k where "topic_msgs st' key r = drop k (topic_msgs st key r @ [m])"
    and "length (topic_msgs st key r) < bcap (topic_of E key st) \<Longrightarrow> k = 0"
  using assms(1)
proof (rule publish_eq)
  fix b assume send: "bc_send (env_bcast E) (topic_of E key st) m = Some (n, b)"
    and st': "st' = put_topic key b st"
  from r have r': "r \<in> receivers (topic_of E key st)" by (simp add: topic_of_receivers)
  with send bc.send_Some obtain k where "pending b r = drop k (pending (topic_of E key st) r @ [m])"
    and "length (pending (topic_of E key st) r) < bcap (topic_of E key st) \<longrightarrow> k = 0" by blast
  with that show thesis
    by (simp add: topic_of_pending [OF r] st' topic_pending_def [of _ "put_topic _ _ _"]
        put_topic_topics)
next
  assume "bc_send (env_bcast E) (topic_of E key st) m = None"
  with r show thesis using bc.send_None_iff topic_of_receivers [of key st] by simp
qed

lemma subscribe_new:
  assumes "subscribe E key st = (r, st')"
  shows "r \<notin> topic_rx st key"
    and "topic_rx st' = (topic_rx st)(key := insert r (topic_rx st key))"
    and "topic_msgs st' key r = []"
    and "r' \<in> topic_rx st key' \<Longrightarrow> topic_msgs st' key' r' = topic_msgs st key' r'"
proof -
  from assms obtain b where sub: "bc_subscribe (env_bcast E) (topic_of E key st) = (r, b)"
    and st': "st' = put_topic key b st" by (rule subscribe_eq)
  note new = bc.subscribe_new [OF sub, unfolded topic_of_receivers]
  show "r \<notin> topic_rx st key" using new by simp
  show "topic_rx st' = (topic_rx st)(key := insert r (topic_rx st key))"
    using new by (simp add: st' topic_rx_put_topic)
  show "topic_msgs st' key r = []"
    using new by (simp add: st' topic_pending_def put_topic_topics)
  show "topic_msgs st' key' r' = topic_msgs st key' r'" if "r' \<in> topic_rx st key'"
    using new that topic_of_pending [of r' st key]
    by (auto simp: st' topic_pending_def [of _ "put_topic _ _ _"] put_topic_topics)
       (auto simp: topic_pending_def)
qed

end

section \<open>Connection permits\<close>

text \<open>The global limit (\<open>connection_limit\<close>), as \<open>ws_handler\<close> uses it.\<close>

definition acquire_slot ::
    "('s, 'b, 'q, 'k, 'v) env \<Rightarrow> ('s, 'b, 'q, 'k) app_state \<Rightarrow> bool \<times> ('s, 'b, 'q, 'k) app_state" where
  "acquire_slot E st =
     (case sem_try_acquire (env_sem E) (st_connection_limit st) of
        Some sem' \<Rightarrow> (True, st\<lparr>st_connection_limit := sem'\<rparr>)
      | None \<Rightarrow> (False, st))"

definition drop_slot ::
    "('s, 'b, 'q, 'k, 'v) env \<Rightarrow> ('s, 'b, 'q, 'k) app_state \<Rightarrow> ('s, 'b, 'q, 'k) app_state" where
  "drop_slot E st = st\<lparr>st_connection_limit := sem_release (env_sem E) (st_connection_limit st)\<rparr>"

definition slots_used :: "('s \<Rightarrow> nat) \<Rightarrow> ('s, 'b, 'q, 'k) app_state \<Rightarrow> nat" where
  "slots_used avail st =
     unat (cfg_max_connections (st_config st)) - avail (st_connection_limit st)"

definition slots_ok :: "('s \<Rightarrow> nat) \<Rightarrow> ('s, 'b, 'q, 'k) app_state \<Rightarrow> bool" where
  "slots_ok avail st \<longleftrightarrow>
     avail (st_connection_limit st) \<le> unat (cfg_max_connections (st_config st))"

text \<open>The operations in the form of a pool of permits.\<close>

definition slot_acquire ::
    "('s, 'b, 'q, 'k, 'v) env \<Rightarrow> unit \<Rightarrow> ('s, 'b, 'q, 'k) app_state \<Rightarrow> unit
      \<Rightarrow> bool \<times> ('s, 'b, 'q, 'k) app_state" where
  "slot_acquire E c st k = acquire_slot E st"

definition tenant_acquire ::
    "('s, 'b, 'q, 'k, 'v) env \<Rightarrow> unit \<Rightarrow> ('s, 'b, 'q, 'k) app_state \<Rightarrow> rust_string
      \<Rightarrow> bool \<times> ('s, 'b, 'q, 'k) app_state" where
  "tenant_acquire E c st t =
     (case acquire_tenant_permit E t st of (r, st') \<Rightarrow> (\<exists>p. r = Some (Inr p), st'))"

lemma acquire_slot_eq:
  assumes "acquire_slot E st = (ok, st')"
  obtains s where "ok" "sem_try_acquire (env_sem E) (st_connection_limit st) = Some s"
    "st' = st\<lparr>st_connection_limit := s\<rparr>"
  | "\<not> ok" "sem_try_acquire (env_sem E) (st_connection_limit st) = None" "st' = st"
  using assms by (auto simp: acquire_slot_def split: option.splits)

text \<open>
  The outcomes of \<open>acquire_tenant_permit\<close>: no cap, admitted, refused. The tenant's
  semaphore is the one in the map, or a new one.
\<close>

definition tenant_sem ::
    "('s, 'b, 'q, 'k, 'v) env \<Rightarrow> usize \<Rightarrow> (rust_string \<rightharpoonup> 's) \<Rightarrow> rust_string \<Rightarrow> 's" where
  "tenant_sem E cap limits t =
     (case limits t of Some s \<Rightarrow> s | None \<Rightarrow> sem_new (env_sem E) (unat cap))"

lemma acquire_tenant_permit_eq:
  assumes "acquire_tenant_permit E t st = (r, st')"
  obtains "r = None" "st' = st" "tenant_cap st = None"
  | limits cap s where "r = Some (Inr t)" "st_tenant_limits st = Some limits"
      "cfg_tenant_max_connections (st_config st) = Some cap"
      "sem_try_acquire (env_sem E) (tenant_sem E cap limits t) = Some s"
      "st' = st\<lparr>st_tenant_limits := Some (limits(t \<mapsto> s))\<rparr>"
  | limits cap where "r = Some (Inl ())" "st_tenant_limits st = Some limits"
      "cfg_tenant_max_connections (st_config st) = Some cap"
      "sem_try_acquire (env_sem E) (tenant_sem E cap limits t) = None"
      "st' = st\<lparr>st_tenant_limits := Some (limits(t \<mapsto> tenant_sem E cap limits t))\<rparr>"
  using assms
  by (auto simp: acquire_tenant_permit_def tenant_cap_def tenant_sem_def Let_def
      split: option.splits)

context server_env
begin

lemma avail_tenant_sem:
  assumes "st_tenant_limits st = Some limits"
    and "cfg_tenant_max_connections (st_config st) = Some cap" and "tenant_limits_ok avail st"
  shows "avail (tenant_sem E cap limits t) + tenant_used avail st t = unat cap"
  using assms sem.avail_new [of "unat cap"]
  by (auto simp: tenant_sem_def tenant_used_def tenant_cap_def tenant_limits_ok_def
      split: option.split)

lemma tenant_used_put:
  assumes "st_tenant_limits st = Some limits"
    and "cfg_tenant_max_connections (st_config st) = Some cap"
  shows "tenant_used avail (st\<lparr>st_tenant_limits := Some (limits(t \<mapsto> s))\<rparr>)
           = (tenant_used avail st)(t := unat cap - avail s)"
  using assms by (auto simp: tenant_used_def tenant_cap_def)

lemma tenant_admitted:
  assumes "acquire_tenant_permit E t st = (Some (Inr p), st')" "tenant_limits_ok avail st"
  shows "tenant_used avail st' = (tenant_used avail st)(t := Suc (tenant_used avail st t))"
    and "tenant_cap st = Some n \<Longrightarrow> tenant_used avail st t < n"
    and "tenant_limits_ok avail st'" and "p = t"
proof -
  obtain limits cap s where r: "p = t" and lim: "st_tenant_limits st = Some limits"
    and cap: "cfg_tenant_max_connections (st_config st) = Some cap"
    and acq: "sem_try_acquire (env_sem E) (tenant_sem E cap limits t) = Some s"
    and st': "st' = st\<lparr>st_tenant_limits := Some (limits(t \<mapsto> s))\<rparr>"
    using assms(1) by (rule acquire_tenant_permit_eq) auto
  have "Suc (avail s) + tenant_used avail st t = unat cap"
    using avail_tenant_sem [OF lim cap assms(2), of t] sem.try_acquire_Some [OF acq] by simp
  moreover from this have "unat cap - avail s = Suc (tenant_used avail st t)" by simp
  moreover have "tenant_cap st = Some n \<Longrightarrow> n = unat cap" by (simp add: tenant_cap_def lim cap)
  ultimately show "tenant_used avail st' = (tenant_used avail st)(t := Suc (tenant_used avail st t))"
    and "tenant_cap st = Some n \<Longrightarrow> tenant_used avail st t < n"
    and "tenant_limits_ok avail st'"
    using assms(2) lim cap by (auto simp: st' tenant_used_put [OF lim cap] tenant_limits_ok_def)
  show "p = t" by (rule r)
qed

lemma tenant_refused:
  assumes "acquire_tenant_permit E t st = (r, st')" "\<nexists>p. r = Some (Inr p)"
    and "tenant_limits_ok avail st"
  shows "tenant_used avail st' = tenant_used avail st" and "tenant_limits_ok avail st'"
    and "r = Some (Inl ()) \<Longrightarrow> tenant_cap st = Some (tenant_used avail st t)"
proof -
  from assms(1) have "tenant_used avail st' = tenant_used avail st \<and> tenant_limits_ok avail st' \<and>
    (r = Some (Inl ()) \<longrightarrow> tenant_cap st = Some (tenant_used avail st t))"
  proof (rule acquire_tenant_permit_eq)
    fix limits cap
    assume r: "r = Some (Inl ())" and lim: "st_tenant_limits st = Some limits"
      and cap: "cfg_tenant_max_connections (st_config st) = Some cap"
      and none: "sem_try_acquire (env_sem E) (tenant_sem E cap limits t) = None"
      and st': "st' = st\<lparr>st_tenant_limits := Some (limits(t \<mapsto> tenant_sem E cap limits t))\<rparr>"
    have "avail (tenant_sem E cap limits t) = 0" using sem.try_acquire_None [OF none] .
    with avail_tenant_sem [OF lim cap assms(3), of t] show ?thesis
      using assms(3) lim cap
      by (auto simp: st' tenant_used_put [OF lim cap] tenant_limits_ok_def tenant_cap_def)
  qed (use assms(2,3) in auto)
  then show "tenant_used avail st' = tenant_used avail st" "tenant_limits_ok avail st'"
    "r = Some (Inl ()) \<Longrightarrow> tenant_cap st = Some (tenant_used avail st t)" by auto
qed

lemma drop_tenant_used:
  assumes "tenant_limits_ok avail st" "0 < tenant_used avail st t"
  shows "tenant_used avail (drop_tenant_permit E t st)
           = (tenant_used avail st)(t := tenant_used avail st t - 1)"
    and "tenant_limits_ok avail (drop_tenant_permit E t st)"
proof -
  from assms(2) obtain limits cap s where lim: "st_tenant_limits st = Some limits"
    and cap: "cfg_tenant_max_connections (st_config st) = Some cap" and s: "limits t = Some s"
    by (auto simp: tenant_used_def tenant_cap_def split: option.splits)
  have used: "tenant_used avail st t = unat cap - avail s"
    by (simp add: tenant_used_def tenant_cap_def lim cap s)
  have st': "drop_tenant_permit E t st
      = st\<lparr>st_tenant_limits := Some (limits(t \<mapsto> sem_release (env_sem E) s))\<rparr>"
    by (simp add: drop_tenant_permit_def lim s)
  show "tenant_used avail (drop_tenant_permit E t st)
          = (tenant_used avail st)(t := tenant_used avail st t - 1)"
    by (simp add: st' tenant_used_put [OF lim cap] used sem.avail_release)
  show "tenant_limits_ok avail (drop_tenant_permit E t st)"
    using assms used by (auto simp: st' tenant_limits_ok_def sem.avail_release lim cap)
qed

end

lemma acquire_tenant_permit_frame:
  assumes "acquire_tenant_permit E t st = (r, st')"
  shows "st_config st' = st_config st" "tenant_cap st' = tenant_cap st"
  using assms by (auto elim!: acquire_tenant_permit_eq simp: tenant_cap_def)

lemma drop_tenant_permit_frame [frame_simps]:
  "st_config (drop_tenant_permit E t st) = st_config st"
  "tenant_cap (drop_tenant_permit E t st) = tenant_cap st"
  by (simp_all add: drop_tenant_permit_def tenant_cap_def split: option.split)

text \<open>
  Given the law of semaphores, the tenant limits are a pool of permits with the tenants as
  keys, and the global limit is one with a single key.
\<close>

sublocale server_env \<subseteq> tenant_pool: permit_pool "tenant_acquire E" "\<lambda>_ st t. drop_tenant_permit E t st"
    "tenant_used avail" "\<lambda>st _. tenant_cap st" "tenant_limits_ok avail" "2 ^ 64"
proof unfold_locales
  fix s s' :: "('s, 'b, 'q, 'k) app_state" and t c ok
  assume acq: "tenant_acquire E c s t = (ok, s')"
  then obtain r where r: "acquire_tenant_permit E t s = (r, s')" "ok \<longleftrightarrow> (\<exists>p. r = Some (Inr p))"
    by (auto simp: tenant_acquire_def split: prod.splits)
  show "tenant_limits_ok avail s'" if "tenant_limits_ok avail s"
    using r that tenant_admitted(3) tenant_refused(2) by (cases ok) blast+
  show "(\<lambda>_ :: rust_string. tenant_cap s') = (\<lambda>_. tenant_cap s)"
    using acquire_tenant_permit_frame(2) [OF r(1)] by simp
next
  fix s s' :: "('s, 'b, 'q, 'k) app_state" and t c
  assume ok: "tenant_limits_ok avail s" and acq: "tenant_acquire E c s t = (True, s')"
  from acq obtain p where "acquire_tenant_permit E t s = (Some (Inr p), s')"
    by (auto simp: tenant_acquire_def split: prod.splits)
  from tenant_admitted(1,2) [OF this ok]
  show "tenant_used avail s' = (tenant_used avail s)(t := Suc (tenant_used avail s t)) \<and>
      (\<forall>n. tenant_cap s = Some n \<longrightarrow> tenant_used avail s t < n)" by blast
next
  fix s s' :: "('s, 'b, 'q, 'k) app_state" and t c
  assume ok: "tenant_limits_ok avail s" and acq: "tenant_acquire E c s t = (False, s')"
  from acq obtain r where "acquire_tenant_permit E t s = (r, s')" "\<nexists>p. r = Some (Inr p)"
    by (auto simp: tenant_acquire_def split: prod.splits)
  from tenant_refused(1) [OF this ok] show "tenant_used avail s' = tenant_used avail s" .
qed (auto simp: drop_tenant_used frame_simps)

text \<open>Slots of the global limit.\<close>

sublocale server_env \<subseteq> slot_pool: permit_pool "slot_acquire E" "\<lambda>_ st _. drop_slot E st"
    "\<lambda>st _. slots_used avail st" "\<lambda>st _. Some (unat (cfg_max_connections (st_config st)))"
    "slots_ok avail" "2 ^ 64"
proof unfold_locales
  fix s s' :: "('s, 'b, 'q, 'k) app_state" and k c
  assume "slots_ok avail s" and acq: "slot_acquire E c s k = (True, s')"
  then show "(\<lambda>_ :: unit. slots_used avail s') = (\<lambda>_. slots_used avail s)(k := Suc (slots_used avail s)) \<and>
      (\<forall>n. Some (unat (cfg_max_connections (st_config s))) = Some n \<longrightarrow> slots_used avail s < n)"
    by (auto simp: slot_acquire_def slots_used_def slots_ok_def dest!: sem.try_acquire_Some
        elim!: acquire_slot_eq)
next
  fix s s' :: "('s, 'b, 'q, 'k) app_state" and c k ok
  assume ok: "slots_ok avail s" and acq: "slot_acquire E c s k = (ok, s')"
  then show "slots_ok avail s'"
    by (auto simp: slot_acquire_def slots_ok_def dest!: sem.try_acquire_Some elim!: acquire_slot_eq)
qed (auto simp: slot_acquire_def slots_used_def slots_ok_def drop_slot_def sem.avail_release
    elim!: acquire_slot_eq)

section \<open>Client queues and the registry\<close>

definition queues_ok ::
    "('q \<Rightarrow> outbound_message list) \<Rightarrow> ('q \<Rightarrow> nat) \<Rightarrow> ('s, 'b, 'q, 'k) app_state \<Rightarrow> bool" where
  \<comment> \<open>no queue holds more than its capacity, which is the configured one\<close>
  "queues_ok queued qcap st \<longleftrightarrow>
     (\<forall>a q. st_chans st a = Some q \<longrightarrow>
        qcap q = unat (cfg_client_queue_capacity (st_config st)) \<and>
        length (queued q) \<le> unat (cfg_client_queue_capacity (st_config st)))"

lemma chan_try_send_eq:
  assumes "chan_try_send E a m st = Inr st'"
  obtains q q' where "st_chans st a = Some q" "mpsc_try_send (env_mpsc E) q m = Inr q'"
    "st' = st\<lparr>st_chans := (st_chans st)(a \<mapsto> q')\<rparr>"
  using assms by (auto simp: chan_try_send_def split: option.splits sum.splits)

lemma send_to_client_eq:
  assumes "send_to_client E c t m st = (ok, st')"
  obtains h where "ok" "st_clients st (t, c) = Some h"
    "chan_try_send E (ch_sender h) (OutBinary m) st = Inr st'"
  | "\<not> ok" "st' = st"
    "\<And>h. st_clients st (t, c) = Some h \<Longrightarrow>
       \<exists>e. chan_try_send E (ch_sender h) (OutBinary m) st = Inl e"
  using assms by (auto simp: send_to_client_def split: option.splits sum.splits)

text \<open>Removing a registration leaves a newer one of the same client in place.\<close>

lemma unregister_client_lookup:
  "st_clients (unregister_client c t i st) k =
     (if k = (t, c) \<and> unregister_check c t i st then None else st_clients st k)"
  by (auto simp: unregister_client_def unregister_remove_def)

lemma register_client_lookup:
  "st_clients (register_client c t i a st) =
     (st_clients st)((t, c) \<mapsto> \<lparr>ch_connection_id = i, ch_sender = a\<rparr>)"
  by (simp add: register_client_def)

context server_env
begin

lemma chan_send_queue:
  assumes "chan_try_send E a m st = Inr st'"
  shows "queue_of queued st' = (queue_of queued st)(a := queue_of queued st a @ [m])"
  using assms by (rule chan_try_send_eq) (auto simp: queue_of_def fun_eq_iff dest!: mpsc.try_send_ok)

lemma chan_send_accepts_iff:
  "(\<exists>st'. chan_try_send E a m st = Inr st') \<longleftrightarrow>
     (\<exists>q. st_chans st a = Some q \<and> \<not> qclosed q \<and> length (queued q) < qcap q)"
  unfolding mpsc.try_send_Inr_iff [symmetric, of _ m]
  by (auto simp: chan_try_send_def split: option.splits sum.splits)

lemma chan_send_queues_ok:
  assumes "chan_try_send E a m st = Inr st'" "queues_ok queued qcap st"
  shows "queues_ok queued qcap st'"
  using assms(1)
proof (rule chan_try_send_eq)
  fix q q' assume q: "st_chans st a = Some q" "mpsc_try_send (env_mpsc E) q m = Inr q'"
    and st': "st' = st\<lparr>st_chans := (st_chans st)(a \<mapsto> q')\<rparr>"
  from mpsc.try_send_ok [OF q(2)] q(1) assms(2) show ?thesis
    by (fastforce simp: queues_ok_def st')
qed

lemma new_channel_queues_ok:
  "new_channel E st = (a, st') \<Longrightarrow> queues_ok queued qcap st \<Longrightarrow> queues_ok queued qcap st'"
  using mpsc.channel_new by (auto simp: new_channel_def queues_ok_def split: if_splits)

text \<open>
  A direct message goes to the queue of the client registered under that tenant, and to
  no other queue; a failed one changes nothing.
\<close>

lemma send_to_client_delivers:
  assumes "send_to_client E c t m st = (True, st')"
  obtains h where "st_clients st (t, c) = Some h"
    and "queue_of queued st' =
           (queue_of queued st)(ch_sender h := queue_of queued st (ch_sender h) @ [OutBinary m])"
  using assms by (rule send_to_client_eq) (auto dest: chan_send_queue)

lemma send_to_client_iff:
  "fst (send_to_client E c t m st) \<longleftrightarrow>
     (\<exists>h q. st_clients st (t, c) = Some h \<and> st_chans st (ch_sender h) = Some q \<and>
        \<not> qclosed q \<and> length (queued q) < qcap q)"
proof (cases "st_clients st (t, c)")
  case (Some h)
  then show ?thesis
    using chan_send_accepts_iff [of "ch_sender h" "OutBinary m" st]
    by (auto simp: send_to_client_def split: sum.split)
qed (simp add: send_to_client_def)

end

section \<open>An environment for concrete runs\<close>

text \<open>
  A codec that reads a few events: the text \<open>p\<close> publishes to the connection's topic, \<open>i\<close>
  is a ping, and a text that starts with \<open>d\<close> is a direct message to the rest of it. Of
  a server event it encodes the kind.
\<close>

definition demo_codec :: "unit codec" where
  "demo_codec =
     \<lparr>serde_json_from_str = (\<lambda>s.
        if s = lit ''p'' then Some (Publish None None ())
        else if s = lit ''i'' then Some (Ping None None)
        else case s of [] \<Rightarrow> None
        | c # cs \<Rightarrow> if [c] = lit ''d'' then Some (Direct cs None ()) else None),
      rmp_from_slice = (\<lambda>b. if b = [1] then Some (Publish None None ()) else None),
      rmp_to_vec_named = rmp_to_vec_named trivial_codec\<rparr>"

definition demo_env ::
    "(nat, table_bc, nat \<times> bool \<times> outbound_message list, nat, unit) env" where
  "demo_env =
     \<lparr>env_sem = counting_sem, env_bcast = table_broadcast, env_mpsc = list_mpsc,
      env_jwt = tag_jwt, env_codec = demo_codec, env_workers = 1\<rparr>"

interpretation demo: server_env demo_env "\<lambda>n. n" "\<lambda>(n, cl, ms). ms" "\<lambda>(n, cl, ms). n"
    "\<lambda>(n, cl, ms). cl" table_receivers table_pending fst
  unfolding demo_env_def server_env_def env.simps
  using counting.semaphore_axioms list_queue.bounded_queue_axioms table.broadcast_axioms by blast

end
