(* ===== verification/Messaging.thy ===== *)
theory Messaging
  imports App_State
begin

text \<open>
  Operations that only move messages. The handlers of the server are composed of five
  primitives: counting, sending to a client queue, publishing to a topic and taking from a
  tenant's rate bucket. A relation on states that is reflexive and transitive and holds of
  the primitives therefore holds of the handlers. \<open>message_steps\<close> is this contract; the
  handlers of the HTTP interface and of the connections are proved against it once, and
  its interpretations below give their isolation, their effect on the receivers of the
  topics, and the bounds of the queues.
\<close>

text \<open>\<open>A\<close> and \<open>K\<close> are the client queues and the topics the primitives work on.\<close>

locale message_steps =
  fixes E :: "('s, 'b, 'q, 'k, 'v) env"
    and R :: "('s, 'b, 'q, 'k) app_state \<Rightarrow> ('s, 'b, 'q, 'k) app_state \<Rightarrow> bool"
    and A :: "nat set" and K :: "rust_string set"
  assumes R_refl: "R st st"
    and R_trans: "R st st1 \<Longrightarrow> R st1 st2 \<Longrightarrow> R st st2"
    and R_metric:
      "f \<in> {message_in, message_out, message_dropped, protocol_error, tenant_rate_rejected}
         \<Longrightarrow> R st (count_metric f st)"
    and R_send: "chan_try_send E a m st = Inr st' \<Longrightarrow> a \<in> A \<Longrightarrow> R st st'"
    and R_publish: "publish E key b st = (n, st') \<Longrightarrow> key \<in> K \<Longrightarrow> R st st'"
    and R_rate: "check_tenant_rate clk t st = (ok, st') \<Longrightarrow> R st st'"
begin

lemma R_metrics:
  "R st (count_metric message_in st)" "R st (count_metric message_out st)"
  "R st (count_metric message_dropped st)" "R st (count_metric protocol_error st)"
  "R st (count_metric tenant_rate_rejected st)"
  by (simp_all add: R_metric)

lemma R_then_metric:
  "R st st' \<Longrightarrow> R st (count_metric message_out st')"
  "R st st' \<Longrightarrow> R st (count_metric message_dropped st')"
  "R st st' \<Longrightarrow> R st (count_metric protocol_error st')"
  using R_trans R_metrics by blast+

lemma R_message_out_funpow: "R st ((count_metric message_out ^^ n) st)"
  by (induction n) (simp_all add: R_refl R_then_metric)

lemma R_send_to_client:
  assumes "send_to_client E c t m st = (ok, st')"
    and "\<And>h. st_clients st (t, c) = Some h \<Longrightarrow> ch_sender h \<in> A"
  shows "R st st'"
  using assms(1) by (rule send_to_client_eq) (use assms(2) R_send R_refl in auto)

end

section \<open>Instances\<close>

interpretation touching: message_steps E "touches A K" A K for E A K
proof unfold_locales
  fix st :: "('a, 'b, 'c, 'd) app_state" and f
  assume "f \<in> {message_in, message_out, message_dropped, protocol_error, tenant_rate_rejected}"
  then show "touches A K st (count_metric f st)"
    by (auto intro!: touches_count_metric simp: metrics_ops)
qed (auto intro: touches_trans touches_chan_try_send touches_publish touches_check_tenant_rate)

lemma topic_receivers_cong: "st_topics st' = st_topics st \<Longrightarrow> topic_receivers r st' = topic_receivers r st"
  by (simp add: topic_receivers_def fun_eq_iff)

lemma queues_ok_cong:
  "st_chans st' = st_chans st \<Longrightarrow> st_config st' = st_config st \<Longrightarrow>
     queues_ok queued qcap st' = queues_ok queued qcap st"
  by (simp add: queues_ok_def)

lemma count_metric_frame [simp]:
  "st_config (count_metric f st) = st_config st"
  "st_connection_limit (count_metric f st) = st_connection_limit st"
  "st_auth (count_metric f st) = st_auth st"
  "st_ip_limiter (count_metric f st) = st_ip_limiter st"
  "st_tenant_limits (count_metric f st) = st_tenant_limits st"
  "st_tenant_rate_limits (count_metric f st) = st_tenant_rate_limits st"
  "st_clients (count_metric f st) = st_clients st"
  "st_topics (count_metric f st) = st_topics st"
  "st_chans (count_metric f st) = st_chans st"
  "st_next_chan (count_metric f st) = st_next_chan st"
  "st_next_connection_id (count_metric f st) = st_next_connection_id st"
  "st_metrics (count_metric f st) = f (st_metrics st)"
  by (simp_all add: count_metric_def)

lemma check_tenant_rate_only:
  assumes "check_tenant_rate clk t st = (ok, st')"
  obtains l where "st' = st\<lparr>st_tenant_rate_limits := l\<rparr>"
  using assms
  by (auto simp: check_tenant_rate_def Let_def intro: that [of "st_tenant_rate_limits st"] that
      split: option.splits prod.splits)

lemma topic_sender_only:
  obtains l where "snd (topic_sender E key st) = st\<lparr>st_topics := l\<rparr>"
  by (cases "st_topics st key")
     (auto simp: topic_sender_def Let_def intro: that [of "st_topics st"] that)

lemma publish_only:
  assumes "publish E key m st = (n, st')"
  obtains l where "st' = st\<lparr>st_topics := l\<rparr>"
  using assms by (rule publish_eq) (auto simp: put_topic_def intro: that topic_sender_only)

lemma topic_receivers_update [simp]:
  "topic_receivers r (count_metric f st) = topic_receivers r st"
  "topic_receivers r (st\<lparr>st_chans := c\<rparr>) = topic_receivers r st"
  "topic_receivers r (st\<lparr>st_tenant_rate_limits := l\<rparr>) = topic_receivers r st"
  by (rule topic_receivers_cong; simp)+

lemma queues_ok_update [simp]:
  "queues_ok queued qcap (count_metric f st) = queues_ok queued qcap st"
  "queues_ok queued qcap (st\<lparr>st_topics := t\<rparr>) = queues_ok queued qcap st"
  "queues_ok queued qcap (st\<lparr>st_tenant_rate_limits := l\<rparr>) = queues_ok queued qcap st"
  by (rule queues_ok_cong; simp)+

sublocale server_env \<subseteq> rx: message_steps E "\<lambda>st st'. topic_rx st' = topic_rx st" UNIV UNIV
proof unfold_locales
  fix st st' :: "('s, 'b, 'q, 'k) app_state" and clk t ok
  assume "check_tenant_rate clk t st = (ok, st')"
  then show "topic_rx st' = topic_rx st" by (rule check_tenant_rate_only) simp
next
  fix st st' :: "('s, 'b, 'q, 'k) app_state" and a m
  assume "chan_try_send E a m st = Inr st'"
  then show "topic_rx st' = topic_rx st" by (rule chan_try_send_eq) simp
next
  fix st st' :: "('s, 'b, 'q, 'k) app_state" and key m n
  assume "publish E key m st = (n, st')"
  then show "topic_rx st' = topic_rx st" by (rule publish_receivers)
qed simp_all

sublocale server_env \<subseteq> bounded: message_steps E
    "\<lambda>st st'. queues_ok queued qcap st \<longrightarrow> queues_ok queued qcap st'" UNIV UNIV
proof unfold_locales
  fix st st' :: "('s, 'b, 'q, 'k) app_state" and clk t ok
  assume "check_tenant_rate clk t st = (ok, st')"
  then show "queues_ok queued qcap st \<longrightarrow> queues_ok queued qcap st'"
    by (rule check_tenant_rate_only) simp
next
  fix st st' :: "('s, 'b, 'q, 'k) app_state" and key m n
  assume "publish E key m st = (n, st')"
  then show "queues_ok queued qcap st \<longrightarrow> queues_ok queued qcap st'"
    by (rule publish_only) simp
next
  fix st st' :: "('s, 'b, 'q, 'k) app_state" and a m
  assume "chan_try_send E a m st = Inr st'"
  then show "queues_ok queued qcap st \<longrightarrow> queues_ok queued qcap st'"
    using chan_send_queues_ok by blast
qed simp_all

section \<open>What belongs to a tenant\<close>

text \<open>The keys of its topics and the queues of its registered clients.\<close>

definition tenant_keys :: "rust_string \<Rightarrow> rust_string set" where
  "tenant_keys t = range (tenant_topic t)"

definition tenant_queues :: "rust_string \<Rightarrow> ('s, 'b, 'q, 'k) app_state \<Rightarrow> nat set" where
  "tenant_queues t st = {ch_sender h | c h. st_clients st (t, c) = Some h}"

lemma tenant_topic_in_keys [simp]: "tenant_topic t p \<in> tenant_keys t"
  by (simp add: tenant_keys_def)

lemma tenant_keys_disjoint:
  "char_colon \<notin> set t \<Longrightarrow> char_colon \<notin> set u \<Longrightarrow> t \<noteq> u \<Longrightarrow> tenant_keys t \<inter> tenant_keys u = {}"
  unfolding tenant_keys_def by (blast dest: tenant_topic_inj)

end
