(* ===== verification/Admission.thy ===== *)
theory Admission
  imports Messaging
begin

text \<open>
  The admission of a websocket request: \<open>ws_handler\<close> and \<open>resolve_client_ip\<close>
  (\<open>src/server.rs\<close>). A request passes the per-IP limiter, the global limit, JWT
  verification and the tenant's limit, in this order; each early return drops the permits
  acquired so far. The handler is defined whole and in the stages between which others run. Headers are the function \<open>headers.get(name).and_then(to_str)\<close>.
\<close>

section \<open>The request\<close>

record ws_query =
  wq_topic :: rust_string
  wq_client_id :: "rust_string option"
  wq_tenant_id :: "rust_string option"
  wq_token :: "rust_string option"

type_synonym header_map = "string \<Rightarrow> rust_string option"

definition ws_query_of ::
    "rust_string option \<Rightarrow> rust_string option \<Rightarrow> rust_string option \<Rightarrow> rust_string option \<Rightarrow> ws_query" where
  \<comment> \<open>the query parameters that are present; \<open>#[serde(default = "default_topic")]\<close>\<close>
  "ws_query_of topic client_id tenant_id token =
     \<lparr>wq_topic = unwrap_or topic default_topic, wq_client_id = client_id,
      wq_tenant_id = tenant_id, wq_token = token\<rparr>"

definition resolve_client_ip :: "socket_addr \<Rightarrow> header_map \<Rightarrow> bool \<Rightarrow> ip_addr" where
  "resolve_client_ip peer headers trust_proxy =
     (if trust_proxy
      then
        (case Option.bind (headers ''x-forwarded-for'')
                (\<lambda>xff. parse_ip_addr (trim (split_first char_comma xff))) of
           Some ip \<Rightarrow> ip
         | None \<Rightarrow>
             (case Option.bind (headers ''x-real-ip'') (\<lambda>xrip. parse_ip_addr (trim xrip)) of
                Some ip \<Rightarrow> ip
              | None \<Rightarrow> sa_ip peer))
      else sa_ip peer)"

section \<open>The per-IP limiter in the state\<close>

definition admit_ip ::
    "ip_addr list \<Rightarrow> clock \<Rightarrow> ip_addr \<Rightarrow> ('s, 'b, 'q, 'k) app_state
      \<Rightarrow> (ip_rejection + ip_permit option) \<times> ('s, 'b, 'q, 'k) app_state" where
  "admit_ip keys clk ip st =
     (case st_ip_limiter st of
        None \<Rightarrow> (Inr None, st)
      | Some limiter \<Rightarrow>
          (case try_acquire keys clk limiter ip of
             (Inr permit, limiter') \<Rightarrow> (Inr (Some permit), st\<lparr>st_ip_limiter := Some limiter'\<rparr>)
           | (Inl reason, limiter') \<Rightarrow> (Inl reason, st\<lparr>st_ip_limiter := Some limiter'\<rparr>)))"

definition drop_ip ::
    "instant \<Rightarrow> ip_permit option \<Rightarrow> ('s, 'b, 'q, 'k) app_state \<Rightarrow> ('s, 'b, 'q, 'k) app_state" where
  \<comment> \<open>the drop of an \<open>Option<IpPermit>\<close>\<close>
  "drop_ip now permit st =
     (case (permit, st_ip_limiter st) of
        (Some p, Some limiter) \<Rightarrow> st\<lparr>st_ip_limiter := Some (drop_ip_permit now p limiter)\<rparr>
      | _ \<Rightarrow> st)"

section \<open>The handler\<close>

text \<open>
  What the closure of \<open>on_upgrade\<close> owns; the slot of the global limit has no data. The
  response is a status with its text, or the upgrade.
\<close>

record ticket =
  tk_topic :: rust_string
  tk_identity :: auth_identity
  tk_ip_permit :: "ip_permit option"
  tk_tenant_permit :: "rust_string option"

datatype ws_response = Refuse nat string | Upgrade ticket

definition too_many_requests :: nat where "too_many_requests = 429"
definition service_unavailable :: nat where "service_unavailable = 503"
definition unauthorized :: nat where "unauthorized = 401"

definition ip_rejection_text :: "ip_rejection \<Rightarrow> string" where
  "ip_rejection_text reason =
     (case reason of
        RateLimited \<Rightarrow> ''ip connection rate limit exceeded'' @ [newline]
      | ConcurrencyLimited \<Rightarrow> ''ip concurrent connection limit exceeded'' @ [newline])"

definition ws_identity ::
    "('s, 'b, 'q, 'k, 'v) env \<Rightarrow> nat \<Rightarrow> ws_query \<Rightarrow> ('s, 'b, 'q, 'k) app_state
      \<Rightarrow> string + auth_identity" where
  \<comment> \<open>the identity of a request, or the text of the refusal\<close>
  "ws_identity E now_secs query st =
     (case st_auth st of
        Some verifier \<Rightarrow>
          (case wq_token query of
             Some token \<Rightarrow>
               (case verify (env_jwt E) now_secs verifier token of
                  Inr identity \<Rightarrow> Inr identity
                | Inl err \<Rightarrow> Inl (''invalid token'' @ [newline]))
           | None \<Rightarrow> Inl (''missing token'' @ [newline]))
      | None \<Rightarrow>
          Inr \<lparr>ai_client_id = unwrap_or (wq_client_id query) (lit ''anonymous''),
               ai_tenant_id = unwrap_or (wq_tenant_id query) (lit ''default'')\<rparr>)"

text \<open>
  \<open>now_secs\<close> is the wall clock of the token check. Clock readings: the limiter (0 to 4), the
  drop of the IP permit on an early return (5).
\<close>

definition ws_handler ::
    "('s, 'b, 'q, 'k, 'v) env \<Rightarrow> ip_addr list \<Rightarrow> clock \<Rightarrow> nat \<Rightarrow> ws_query \<Rightarrow> socket_addr
      \<Rightarrow> header_map \<Rightarrow> ('s, 'b, 'q, 'k) app_state \<Rightarrow> ws_response \<times> ('s, 'b, 'q, 'k) app_state" where
  "ws_handler E keys clk now_secs query peer headers st0 =
     (let ip = resolve_client_ip peer headers (cfg_trust_proxy_headers (st_config st0))
      in case admit_ip keys clk ip st0 of
        (Inl reason, st) \<Rightarrow>
          (Refuse too_many_requests (ip_rejection_text reason),
           count_metric connection_rejected (count_metric ip_rejected st))
      | (Inr ip_permit, st) \<Rightarrow>
          (case acquire_slot E st of
             (False, st) \<Rightarrow>
               (Refuse service_unavailable (''connection limit reached'' @ [newline]),
                drop_ip (clk 5) ip_permit (count_metric connection_rejected st))
           | (True, st) \<Rightarrow>
               (case ws_identity E now_secs query st of
                  Inl text \<Rightarrow>
                    (Refuse unauthorized text,
                     drop_ip (clk 5) ip_permit
                       (drop_slot E
                         (count_metric connection_rejected (count_metric auth_rejected st))))
                | Inr identity \<Rightarrow>
                    (case acquire_tenant_permit E (ai_tenant_id identity) st of
                       (Some (Inl _), st) \<Rightarrow>
                         (Refuse too_many_requests
                            (''tenant connection limit exceeded'' @ [newline]),
                          drop_ip (clk 5) ip_permit
                            (drop_slot E
                              (count_metric connection_rejected
                                (count_metric tenant_rejected st))))
                     | (None, st) \<Rightarrow>
                         (Upgrade \<lparr>tk_topic = wq_topic query, tk_identity = identity,
                                   tk_ip_permit = ip_permit, tk_tenant_permit = None\<rparr>, st)
                     | (Some (Inr p), st) \<Rightarrow>
                         (Upgrade \<lparr>tk_topic = wq_topic query, tk_identity = identity,
                                   tk_ip_permit = ip_permit, tk_tenant_permit = Some p\<rparr>, st)))))"

text \<open>
  The permits of a ticket, dropped when the connection is over (\<open>handle_socket\<close> returns) or
  the upgrade fails (the closure is dropped).
\<close>

definition drop_tenant ::
    "('s, 'b, 'q, 'k, 'v) env \<Rightarrow> rust_string option \<Rightarrow> ('s, 'b, 'q, 'k) app_state
      \<Rightarrow> ('s, 'b, 'q, 'k) app_state" where
  "drop_tenant E permit st =
     (case permit of Some t \<Rightarrow> drop_tenant_permit E t st | None \<Rightarrow> st)"

definition drop_ticket ::
    "('s, 'b, 'q, 'k, 'v) env \<Rightarrow> instant \<Rightarrow> ticket \<Rightarrow> ('s, 'b, 'q, 'k) app_state
      \<Rightarrow> ('s, 'b, 'q, 'k) app_state" where
  "drop_ticket E now t st =
     drop_slot E (drop_ip now (tk_ip_permit t) (drop_tenant E (tk_tenant_permit t) st))"

section \<open>The handler in stages\<close>

text \<open>
  The handler has no \<open>.await\<close>: a worker thread runs it from its first to its last line, but
  handlers on other threads, and every other task, run in between. A handler touches the
  shared state where it asks one of the three limits, so it is three stages: what it has
  passed, and the permits it holds while the others run. A refusal gives back the permits.
\<close>

datatype ws_stage =
  Arrived ws_query socket_addr header_map
| IpAdmitted ws_query "ip_permit option"
| SlotTaken ws_query "ip_permit option"

datatype stage_result = Next ws_stage | Answer ws_response

fun ws_stage_step ::
    "('s, 'b, 'q, 'k, 'v) env \<Rightarrow> ip_addr list \<Rightarrow> clock \<Rightarrow> nat \<Rightarrow> ws_stage
      \<Rightarrow> ('s, 'b, 'q, 'k) app_state \<Rightarrow> stage_result \<times> ('s, 'b, 'q, 'k) app_state" where
  "ws_stage_step E keys clk now_secs (Arrived query peer headers) st0 =
     (let ip = resolve_client_ip peer headers (cfg_trust_proxy_headers (st_config st0))
      in case admit_ip keys clk ip st0 of
        (Inl reason, st) \<Rightarrow>
          (Answer (Refuse too_many_requests (ip_rejection_text reason)),
           count_metric connection_rejected (count_metric ip_rejected st))
      | (Inr ip_permit, st) \<Rightarrow> (Next (IpAdmitted query ip_permit), st))"
| "ws_stage_step E keys clk now_secs (IpAdmitted query ip_permit) st0 =
     (case acquire_slot E st0 of
        (False, st) \<Rightarrow>
          (Answer (Refuse service_unavailable (''connection limit reached'' @ [newline])),
           drop_ip (clk 5) ip_permit (count_metric connection_rejected st))
      | (True, st) \<Rightarrow> (Next (SlotTaken query ip_permit), st))"
| "ws_stage_step E keys clk now_secs (SlotTaken query ip_permit) st0 =
     (case ws_identity E now_secs query st0 of
        Inl text \<Rightarrow>
          (Answer (Refuse unauthorized text),
           drop_ip (clk 5) ip_permit
             (drop_slot E (count_metric connection_rejected (count_metric auth_rejected st0))))
      | Inr identity \<Rightarrow>
          (case acquire_tenant_permit E (ai_tenant_id identity) st0 of
             (Some (Inl _), st) \<Rightarrow>
               (Answer (Refuse too_many_requests
                  (''tenant connection limit exceeded'' @ [newline])),
                drop_ip (clk 5) ip_permit
                  (drop_slot E (count_metric connection_rejected (count_metric tenant_rejected st))))
           | (None, st) \<Rightarrow>
               (Answer (Upgrade \<lparr>tk_topic = wq_topic query, tk_identity = identity,
                                 tk_ip_permit = ip_permit, tk_tenant_permit = None\<rparr>), st)
           | (Some (Inr p), st) \<Rightarrow>
               (Answer (Upgrade \<lparr>tk_topic = wq_topic query, tk_identity = identity,
                                 tk_ip_permit = ip_permit, tk_tenant_permit = Some p\<rparr>), st)))"

fun run_stages ::
    "('s, 'b, 'q, 'k, 'v) env \<Rightarrow> ip_addr list \<Rightarrow> clock \<Rightarrow> nat \<Rightarrow> nat \<Rightarrow> ws_stage
      \<Rightarrow> ('s, 'b, 'q, 'k) app_state \<Rightarrow> stage_result \<times> ('s, 'b, 'q, 'k) app_state" where
  \<comment> \<open>the given number of stages, with nothing in between\<close>
  "run_stages E keys clk now_secs 0 g st = (Next g, st)"
| "run_stages E keys clk now_secs (Suc n) g st =
     (case ws_stage_step E keys clk now_secs g st of
        (Next g', st') \<Rightarrow> run_stages E keys clk now_secs n g' st'
      | (Answer r, st') \<Rightarrow> (Answer r, st'))"

text \<open>Three stages with nothing in between are \<open>ws_handler\<close>.\<close>

lemma run_stages_handler:
  "run_stages E keys clk now_secs 3 (Arrived query peer headers) st
     = map_prod Answer id (ws_handler E keys clk now_secs query peer headers st)"
  by (simp add: numeral_3_eq_3 ws_handler_def Let_def split: prod.split sum.split bool.split option.split)

text \<open>A handler comes to its answer: each stage leaves fewer stages.\<close>

fun stages_left :: "ws_stage \<Rightarrow> nat" where
  "stages_left (Arrived query peer headers) = 3"
| "stages_left (IpAdmitted query p) = 2"
| "stages_left (SlotTaken query p) = 1"

lemma ws_stage_advances:
  "ws_stage_step E keys clk now_secs g st = (Next g', st') \<Longrightarrow> stages_left g' < stages_left g"
  by (cases g) (auto simp: Let_def split: prod.splits sum.splits bool.splits option.splits)

section \<open>Accounting\<close>

text \<open>
  What a request or a session holds: a slot of the global limit, a permit of an address, a
  permit of a tenant.
\<close>

record holding =
  ho_slot :: bool
  ho_ip :: "ip_permit option"
  ho_tenant :: "rust_string option"

definition ticket_holding :: "ticket \<Rightarrow> holding" where
  "ticket_holding t = \<lparr>ho_slot = True, ho_ip = tk_ip_permit t, ho_tenant = tk_tenant_permit t\<rparr>"

fun stage_holding :: "ws_stage \<Rightarrow> holding" where
  "stage_holding (Arrived query peer headers) = \<lparr>ho_slot = False, ho_ip = None, ho_tenant = None\<rparr>"
| "stage_holding (IpAdmitted query p) = \<lparr>ho_slot = False, ho_ip = p, ho_tenant = None\<rparr>"
| "stage_holding (SlotTaken query p) = \<lparr>ho_slot = True, ho_ip = p, ho_tenant = None\<rparr>"

lemma ticket_holding_sel [simp]:
  "ho_slot (ticket_holding t)" "ho_ip (ticket_holding t) = tk_ip_permit t"
  "ho_tenant (ticket_holding t) = tk_tenant_permit t"
  by (simp_all add: ticket_holding_def)

text \<open>The three limits agree with the holdings \<open>M\<close> that are out.\<close>

definition held_slots :: "holding multiset \<Rightarrow> nat" where
  "held_slots M = size (filter_mset ho_slot M)"

definition held_tenant :: "holding multiset \<Rightarrow> rust_string \<Rightarrow> nat" where
  "held_tenant M t = size (filter_mset (\<lambda>h. ho_tenant h = Some t) M)"

definition held_ip :: "holding multiset \<Rightarrow> ip_addr \<Rightarrow> nat" where
  "held_ip M ip = size (filter_mset (\<lambda>h. Option.bind (ho_ip h) ip_permit_ip = Some ip) M)"

definition slot_account :: "('s \<Rightarrow> nat) \<Rightarrow> ('s, 'b, 'q, 'k) app_state \<Rightarrow> nat \<Rightarrow> bool" where
  "slot_account avail st n \<longleftrightarrow> slots_ok avail st \<and> slots_used avail st = n"

definition tenant_account ::
    "('s \<Rightarrow> nat) \<Rightarrow> ('s, 'b, 'q, 'k) app_state \<Rightarrow> (rust_string \<Rightarrow> nat) \<Rightarrow> bool" where
  "tenant_account avail st f \<longleftrightarrow> tenant_limits_ok avail st \<and> tenant_used avail st = f"

definition ip_account :: "('s, 'b, 'q, 'k) app_state \<Rightarrow> (ip_addr \<Rightarrow> nat) \<Rightarrow> bool" where
  "ip_account st g \<longleftrightarrow>
     (case st_ip_limiter st of
        None \<Rightarrow> g = (\<lambda>_. 0)
      | Some l \<Rightarrow>
          ip_in_use l = g \<and> (\<forall>cap ip. il_max_concurrent l = Some cap \<longrightarrow> g ip \<le> unat cap))"

definition accounts :: "('s \<Rightarrow> nat) \<Rightarrow> ('s, 'b, 'q, 'k) app_state \<Rightarrow> holding multiset \<Rightarrow> bool" where
  "accounts avail st M \<longleftrightarrow>
     slot_account avail st (held_slots M) \<and> tenant_account avail st (held_tenant M) \<and>
     ip_account st (held_ip M)"

lemma held_add [simp]:
  "held_slots (add_mset h M) = (if ho_slot h then Suc (held_slots M) else held_slots M)"
  "held_tenant (add_mset h M)
     = (case ho_tenant h of
          None \<Rightarrow> held_tenant M | Some t \<Rightarrow> (held_tenant M)(t := Suc (held_tenant M t)))"
  "held_ip (add_mset h M)
     = (case Option.bind (ho_ip h) ip_permit_ip of
          None \<Rightarrow> held_ip M | Some ip \<Rightarrow> (held_ip M)(ip := Suc (held_ip M ip)))"
  by (auto simp: held_slots_def held_tenant_def held_ip_def fun_eq_iff split: option.split)

lemma held_empty [simp]:
  "held_slots {#} = 0" "held_tenant {#} = (\<lambda>_. 0)" "held_ip {#} = (\<lambda>_. 0)"
  by (auto simp: held_slots_def held_tenant_def held_ip_def)

lemma held_ip_le: "held_ip M ip \<le> size M"
  by (simp add: held_ip_def size_filter_mset_lesseq)

text \<open>Each of the three parts depends on its own fields only.\<close>

lemma slot_account_frame:
  assumes "st_connection_limit st' = st_connection_limit st" "st_config st' = st_config st"
  shows "slot_account avail st' = slot_account avail st"
  unfolding slot_account_def slots_ok_def slots_used_def assms by (rule refl)

lemma tenant_account_frame:
  assumes "st_tenant_limits st' = st_tenant_limits st" "st_config st' = st_config st"
  shows "tenant_account avail st' = tenant_account avail st"
  unfolding tenant_account_def tenant_frame [OF assms] by (rule refl)

lemma ip_account_frame:
  assumes "st_ip_limiter st' = st_ip_limiter st"
  shows "ip_account st' = ip_account st"
  unfolding ip_account_def assms by (rule refl)

lemma account_updates [simp]:
  "slot_account avail (st\<lparr>st_tenant_limits := l\<rparr>) = slot_account avail st"
  "slot_account avail (st\<lparr>st_ip_limiter := i\<rparr>) = slot_account avail st"
  "slot_account avail (count_metric f st) = slot_account avail st"
  "tenant_account avail (st\<lparr>st_connection_limit := s\<rparr>) = tenant_account avail st"
  "tenant_account avail (st\<lparr>st_ip_limiter := i\<rparr>) = tenant_account avail st"
  "tenant_account avail (count_metric f st) = tenant_account avail st"
  "tenant_account avail (drop_slot E st) = tenant_account avail st"
  "ip_account (st\<lparr>st_connection_limit := s\<rparr>) = ip_account st"
  "ip_account (st\<lparr>st_tenant_limits := l\<rparr>) = ip_account st"
  "ip_account (count_metric f st) = ip_account st"
  "ip_account (drop_slot E st) = ip_account st"
  by (intro slot_account_frame tenant_account_frame ip_account_frame;
      simp add: count_metric_def drop_slot_def)+

lemma drop_ip_account [simp]:
  "slot_account avail (drop_ip now p st) = slot_account avail st"
  "tenant_account avail (drop_ip now p st) = tenant_account avail st"
  by (simp_all add: drop_ip_def split: option.split)

lemma accounts_frame:
  assumes "st_connection_limit st' = st_connection_limit st" "st_config st' = st_config st"
    and "st_tenant_limits st' = st_tenant_limits st" "st_ip_limiter st' = st_ip_limiter st"
  shows "accounts avail st' M = accounts avail st M"
  unfolding accounts_def slot_account_frame [OF assms(1,2)] tenant_account_frame [OF assms(3,2)]
    ip_account_frame [OF assms(4)] ..

lemma accounts_touches: "touches A K st st' \<Longrightarrow> accounts avail st' M = accounts avail st M"
  by (rule accounts_frame) (simp_all add: touches_control)

section \<open>The phases\<close>

lemma admit_ip_eq:
  assumes "admit_ip keys clk ip st = (r, st')"
  obtains "st_ip_limiter st = None" "r = Inr None" "st' = st"
  | l l' p where "st_ip_limiter st = Some l" "r = Inr (Some p)"
      "try_acquire keys clk l ip = (Inr p, l')" "st' = st\<lparr>st_ip_limiter := Some l'\<rparr>"
  | l l' reason where "st_ip_limiter st = Some l" "r = Inl reason"
      "try_acquire keys clk l ip = (Inl reason, l')" "st' = st\<lparr>st_ip_limiter := Some l'\<rparr>"
  using assms by (auto simp: admit_ip_def split: option.splits prod.splits sum.splits)

lemma ip_account_admit:
  assumes "admit_ip keys clk ip st = (Inr p, st')" "ip_account st g" "g ip < 2 ^ 32 - 1"
  shows "ip_account st' (case Option.bind p ip_permit_ip of
                           None \<Rightarrow> g | Some i \<Rightarrow> g(i := Suc (g i)))"
  using assms(1)
proof (rule admit_ip_eq)
  fix l l' p' assume l: "st_ip_limiter st = Some l" and p: "Inr p = Inr (Some p')"
    and acq: "try_acquire keys clk l ip = (Inr p', l')" and st': "st' = st\<lparr>st_ip_limiter := Some l'\<rparr>"
  from assms(2) l have g: "ip_in_use l = g"
    and caps: "\<And>cap i. il_max_concurrent l = Some cap \<Longrightarrow> g i \<le> unat cap"
    by (simp_all add: ip_account_def)
  have p': "ip_permit_ip p' = Some ip" by (rule try_acquire_Inr [OF acq]) simp
  have "ip_in_use l' = g(ip := Suc (g ip))"
    and "il_max_concurrent l = Some cap \<Longrightarrow> g ip < unat cap" for cap
    using try_acquire_admits_in_use [OF acq] assms(3) g by auto
  with caps p p' show ?thesis
    by (simp add: ip_account_def st' try_acquire_frame(1) [OF acq] Suc_le_eq)
qed (use assms(2) in auto)

lemma ip_account_refused:
  assumes "admit_ip keys clk ip st = (Inl reason, st')" "ip_account st g"
  shows "ip_account st' g"
  using assms(1)
proof (rule admit_ip_eq)
  fix l l' reason' assume l: "st_ip_limiter st = Some l"
    and acq: "try_acquire keys clk l ip = (Inl reason', l')" and st': "st' = st\<lparr>st_ip_limiter := Some l'\<rparr>"
  with assms(2) show ?thesis
    using try_acquire_refusal_in_use [OF acq] try_acquire_frame(1) [OF acq]
    by (simp add: ip_account_def)
qed (use assms(2) in auto)

lemma ip_account_drop:
  assumes "ip_account st (case Option.bind p ip_permit_ip of
                            None \<Rightarrow> g | Some i \<Rightarrow> g(i := Suc (g i)))"
  shows "ip_account (drop_ip now p st) g"
proof (cases "st_ip_limiter st")
  case None
  with assms show ?thesis
    by (auto simp: drop_ip_def ip_account_def fun_eq_iff split: option.splits if_splits)
next
  case (Some l)
  with assms show ?thesis
    by (auto simp: drop_ip_def drop_ip_permit_def ip_account_def ip_release_in_use frame_simps
        split: option.splits if_splits) (metis Suc_leD fun_upd_apply)
qed

lemma drop_ip_frame [frame_simps]:
  "st_config (drop_ip now p st) = st_config st"
  "st_connection_limit (drop_ip now p st) = st_connection_limit st"
  "st_tenant_limits (drop_ip now p st) = st_tenant_limits st"
  "st_clients (drop_ip now p st) = st_clients st"
  "st_topics (drop_ip now p st) = st_topics st"
  "st_chans (drop_ip now p st) = st_chans st"
  "st_next_chan (drop_ip now p st) = st_next_chan st"
  "st_next_connection_id (drop_ip now p st) = st_next_connection_id st"
  "st_metrics (drop_ip now p st) = st_metrics st"
  "st_auth (drop_ip now p st) = st_auth st"
  "st_tenant_rate_limits (drop_ip now p st) = st_tenant_rate_limits st"
  by (simp_all add: drop_ip_def split: option.split)

text \<open>The five ways a request ends.\<close>

lemma ws_handler_cases:
  assumes "ws_handler E keys clk now_secs query peer headers st = (r, st')"
  defines "ip \<equiv> resolve_client_ip peer headers (cfg_trust_proxy_headers (st_config st))"
  obtains (ip) reason st1 where "admit_ip keys clk ip st = (Inl reason, st1)"
      "r = Refuse too_many_requests (ip_rejection_text reason)"
      "st' = count_metric connection_rejected (count_metric ip_rejected st1)"
  | (slot) p st1 st2 where "admit_ip keys clk ip st = (Inr p, st1)" "acquire_slot E st1 = (False, st2)"
      "r = Refuse service_unavailable (''connection limit reached'' @ [newline])"
      "st' = drop_ip (clk 5) p (count_metric connection_rejected st2)"
  | (auth) p st1 st2 refusal where "admit_ip keys clk ip st = (Inr p, st1)"
      "acquire_slot E st1 = (True, st2)" "ws_identity E now_secs query st2 = Inl refusal"
      "r = Refuse unauthorized refusal"
      "st' = drop_ip (clk 5) p (drop_slot E
               (count_metric connection_rejected (count_metric auth_rejected st2)))"
  | (tenant) p st1 st2 identity u st3 where "admit_ip keys clk ip st = (Inr p, st1)"
      "acquire_slot E st1 = (True, st2)" "ws_identity E now_secs query st2 = Inr identity"
      "acquire_tenant_permit E (ai_tenant_id identity) st2 = (Some (Inl u), st3)"
      "r = Refuse too_many_requests (''tenant connection limit exceeded'' @ [newline])"
      "st' = drop_ip (clk 5) p (drop_slot E
               (count_metric connection_rejected (count_metric tenant_rejected st3)))"
  | (upgrade) p st1 st2 identity a where "admit_ip keys clk ip st = (Inr p, st1)"
      "acquire_slot E st1 = (True, st2)" "ws_identity E now_secs query st2 = Inr identity"
      "acquire_tenant_permit E (ai_tenant_id identity) st2 = (a, st')" "\<And>u. a \<noteq> Some (Inl u)"
      "r = Upgrade \<lparr>tk_topic = wq_topic query, tk_identity = identity, tk_ip_permit = p,
                    tk_tenant_permit = Option.bind a (\<lambda>x. Some (projr x))\<rparr>"
proof -
  obtain ra st1 where A: "admit_ip keys clk ip st = (ra, st1)" by (rule prod.exhaust)
  obtain ok st2 where B: "acquire_slot E st1 = (ok, st2)" by (rule prod.exhaust)
  note H = assms(1) [unfolded ws_handler_def Let_def ip_def [symmetric] A prod.case]
  show thesis
  proof (cases ra)
    case (Inl reason)
    with A H that(1) show thesis by simp
  next
    case (Inr p)
    note H = H [unfolded Inr sum.case B prod.case]
    show thesis
    proof (cases ok)
      case False
      with A B H Inr that(2) show thesis by simp
    next
      case True
      show thesis
      proof (cases "ws_identity E now_secs query st2")
        case (Inl refusal)
        with A B H Inr True that(3) show thesis by simp
      next
        case id: (Inr identity)
        obtain a st3 where C: "acquire_tenant_permit E (ai_tenant_id identity) st2 = (a, st3)"
          by (rule prod.exhaust)
        show thesis
        proof (cases "\<exists>u. a = Some (Inl u)")
          case False
          then have "\<And>u. a \<noteq> Some (Inl u)" by blast
          with that(5) [of p st1 st2 identity a] A B C H Inr True id show thesis
            by (auto split: option.splits sum.splits)
        next
          case t: True
          with that(4) [of p st1 st2 identity _ st3] A B C H Inr True id show thesis by auto
        qed
      qed
    qed
  qed
qed

text \<open>The same, stage by stage.\<close>

lemma ws_stage_cases:
  assumes "ws_stage_step E keys clk now_secs g st = (r, st')"
  obtains (ip_refused) query peer headers reason st1 where "g = Arrived query peer headers"
      "admit_ip keys clk (resolve_client_ip peer headers (cfg_trust_proxy_headers (st_config st))) st
         = (Inl reason, st1)"
      "r = Answer (Refuse too_many_requests (ip_rejection_text reason))"
      "st' = count_metric connection_rejected (count_metric ip_rejected st1)"
  | (ip_passed) query peer headers p where "g = Arrived query peer headers"
      "admit_ip keys clk (resolve_client_ip peer headers (cfg_trust_proxy_headers (st_config st))) st
         = (Inr p, st')"
      "r = Next (IpAdmitted query p)"
  | (full) query p st1 where "g = IpAdmitted query p" "acquire_slot E st = (False, st1)"
      "r = Answer (Refuse service_unavailable (''connection limit reached'' @ [newline]))"
      "st' = drop_ip (clk 5) p (count_metric connection_rejected st1)"
  | (slot) query p where "g = IpAdmitted query p" "acquire_slot E st = (True, st')"
      "r = Next (SlotTaken query p)"
  | (auth) query p refusal where "g = SlotTaken query p"
      "ws_identity E now_secs query st = Inl refusal" "r = Answer (Refuse unauthorized refusal)"
      "st' = drop_ip (clk 5) p (drop_slot E
               (count_metric connection_rejected (count_metric auth_rejected st)))"
  | (tenant) query p identity u st1 where "g = SlotTaken query p"
      "ws_identity E now_secs query st = Inr identity"
      "acquire_tenant_permit E (ai_tenant_id identity) st = (Some (Inl u), st1)"
      "r = Answer (Refuse too_many_requests (''tenant connection limit exceeded'' @ [newline]))"
      "st' = drop_ip (clk 5) p (drop_slot E
               (count_metric connection_rejected (count_metric tenant_rejected st1)))"
  | (upgrade) query p identity a where "g = SlotTaken query p"
      "ws_identity E now_secs query st = Inr identity"
      "acquire_tenant_permit E (ai_tenant_id identity) st = (a, st')" "\<And>u. a \<noteq> Some (Inl u)"
      "r = Answer (Upgrade \<lparr>tk_topic = wq_topic query, tk_identity = identity, tk_ip_permit = p,
                            tk_tenant_permit = Option.bind a (\<lambda>x. Some (projr x))\<rparr>)"
  using assms
  by (cases g)
     (auto simp: Let_def split: prod.splits sum.splits bool.splits option.splits)

section \<open>The handler keeps the accounts\<close>

lemma admit_ip_frame:
  assumes "admit_ip keys clk ip st = (r, st')"
  obtains l where "st' = st\<lparr>st_ip_limiter := l\<rparr>"
  using assms by (rule admit_ip_eq) (auto intro: that [of "st_ip_limiter st"] that)

lemma acquire_slot_frame:
  assumes "acquire_slot E st = (r, st')"
  obtains s where "st' = st\<lparr>st_connection_limit := s\<rparr>"
  using assms by (rule acquire_slot_eq) (auto intro: that [of "st_connection_limit st"] that)

lemma acquire_tenant_permit_only:
  assumes "acquire_tenant_permit E t st = (r, st')"
  obtains l where "st' = st\<lparr>st_tenant_limits := l\<rparr>"
  using assms by (rule acquire_tenant_permit_eq) (auto intro: that [of "st_tenant_limits st"] that)

text \<open>A request touches limits and counters only, and never the number of open connections.\<close>

lemma ws_handler_frame:
  assumes "ws_handler E keys clk now_secs query peer headers st = (r, st')"
  shows "st_config st' = st_config st" "st_clients st' = st_clients st"
    "st_topics st' = st_topics st" "st_chans st' = st_chans st"
    "st_next_chan st' = st_next_chan st" "st_next_connection_id st' = st_next_connection_id st"
    "m_active_connections (st_metrics st') = m_active_connections (st_metrics st)"
  by (rule ws_handler_cases [OF assms];
      elim admit_ip_frame acquire_slot_frame acquire_tenant_permit_only;
      simp add: frame_simps drop_slot_def metrics_ops)+

lemma ws_stage_frame:
  assumes "ws_stage_step E keys clk now_secs g st = (r, st')"
  shows "st_config st' = st_config st" "st_clients st' = st_clients st"
    "st_topics st' = st_topics st" "st_chans st' = st_chans st"
    "st_next_chan st' = st_next_chan st" "st_next_connection_id st' = st_next_connection_id st"
    "m_active_connections (st_metrics st') = m_active_connections (st_metrics st)"
    "st_auth st' = st_auth st" "st_tenant_rate_limits st' = st_tenant_rate_limits st"
  by (rule ws_stage_cases [OF assms];
      (elim admit_ip_frame acquire_slot_frame acquire_tenant_permit_only)?;
      simp add: frame_simps drop_slot_def metrics_ops)+

lemma drop_tenant_frame:
  obtains l where "drop_tenant E p st = st\<lparr>st_tenant_limits := l\<rparr>"
  by (rule that [of "st_tenant_limits (drop_tenant E p st)"])
     (simp add: drop_tenant_def drop_tenant_permit_def split: option.split)

context server_env
begin

lemma slot_account_acquire:
  assumes "acquire_slot E st = (ok, st')" "slot_account avail st n"
  shows "slot_account avail st' (if ok then Suc n else n)"
    and "ok \<Longrightarrow> n < unat (cfg_max_connections (st_config st))"
    and "\<not> ok \<Longrightarrow> n = unat (cfg_max_connections (st_config st))"
  using assms
  by (auto simp: slot_account_def slots_ok_def slots_used_def sem.try_acquire_None
      dest!: sem.try_acquire_Some elim!: acquire_slot_eq)

lemma slot_account_drop: "slot_account avail st (Suc n) \<Longrightarrow> slot_account avail (drop_slot E st) n"
  by (auto simp: slot_account_def slots_ok_def slots_used_def drop_slot_def sem.avail_release)

lemma tenant_account_acquire:
  assumes acq: "acquire_tenant_permit E t st = (r, st')" and acc: "tenant_account avail st f"
  shows "tenant_account avail st' (case r of Some (Inr p) \<Rightarrow> f(p := Suc (f p)) | _ \<Rightarrow> f)"
proof (cases "\<exists>p. r = Some (Inr p)")
  case True
  then obtain p where p: "r = Some (Inr p)" by blast
  from acc have "tenant_limits_ok avail st" "tenant_used avail st = f"
    by (simp_all add: tenant_account_def)
  with tenant_admitted [of t st p st'] acq p show ?thesis by (simp add: tenant_account_def)
next
  case False
  with tenant_refused [OF acq] acc show ?thesis
    by (auto simp: tenant_account_def split: option.split sum.split)
qed

lemma tenant_account_drop:
  assumes "tenant_account avail st (case p of None \<Rightarrow> f | Some t \<Rightarrow> f(t := Suc (f t)))"
  shows "tenant_account avail (drop_tenant E p st) f"
  using assms drop_tenant_used [of st]
  by (auto simp: tenant_account_def drop_tenant_def split: option.splits)

lemma drop_ticket_accounts:
  assumes "accounts avail st (add_mset (ticket_holding t) M)"
  shows "accounts avail (drop_ticket E now t st) M"
proof -
  let ?a = "drop_tenant E (tk_tenant_permit t) st" and ?ip = "tk_ip_permit t"
  obtain l where a: "?a = st\<lparr>st_tenant_limits := l\<rparr>" by (rule drop_tenant_frame)
  from assms have "slot_account avail st (Suc (held_slots M))"
    and ten: "tenant_account avail ?a (held_tenant M)"
    and "ip_account st (case Option.bind ?ip ip_permit_ip of
           None \<Rightarrow> held_ip M | Some i \<Rightarrow> (held_ip M)(i := Suc (held_ip M i)))"
    by (simp_all add: accounts_def tenant_account_drop)
  moreover from this have "ip_account (drop_ip now ?ip ?a) (held_ip M)"
    by (intro ip_account_drop) (simp add: a)
  ultimately show ?thesis
    by (simp add: drop_ticket_def accounts_def a slot_account_drop)
qed

text \<open>
  A stage moves its holding on, turns it into the ticket of the session, or gives it back.
\<close>

fun result_holding :: "stage_result \<Rightarrow> holding multiset" where
  "result_holding (Next g) = {#stage_holding g#}"
| "result_holding (Answer (Upgrade t)) = {#ticket_holding t#}"
| "result_holding (Answer (Refuse _ _)) = {#}"

lemma ws_stage_accounts:
  assumes run: "ws_stage_step E keys clk now_secs g st = (r, st')"
    and acc: "accounts avail st (add_mset (stage_holding g) M)" and room: "size M < 2 ^ 32 - 1"
  shows "accounts avail st' (result_holding r + M)"
proof -
  from run show ?thesis
  proof (cases rule: ws_stage_cases)
    case (ip_refused query peer headers reason st1)
    from ip_refused(2) obtain l where "st1 = st\<lparr>st_ip_limiter := l\<rparr>" by (rule admit_ip_frame)
    with acc ip_refused ip_account_refused [OF ip_refused(2)] show ?thesis by (simp add: accounts_def)
  next
    case (ip_passed query peer headers p)
    let ?ip = "resolve_client_ip peer headers (cfg_trust_proxy_headers (st_config st))"
    have few: "held_ip M ?ip < 2 ^ 32 - 1" using held_ip_le [of M ?ip] room by simp
    from ip_passed(2) obtain l where "st' = st\<lparr>st_ip_limiter := l\<rparr>" by (rule admit_ip_frame)
    moreover have "ip_account st (held_ip M)" using acc ip_passed(1) by (simp add: accounts_def)
    note ip_account_admit [OF ip_passed(2) this few]
    ultimately show ?thesis using acc ip_passed(1,3) by (simp add: accounts_def)
  next
    case (full query p st1)
    from full(2) have "st1 = st" by (rule acquire_slot_eq) auto
    with acc full show ?thesis by (simp add: accounts_def ip_account_drop)
  next
    case (slot query p)
    from slot(2) obtain s where "st' = st\<lparr>st_connection_limit := s\<rparr>" by (rule acquire_slot_frame)
    with acc slot slot_account_acquire(1) [OF slot(2), of "held_slots M"] show ?thesis
      by (simp add: accounts_def)
  next
    case (auth query p refusal)
    with acc show ?thesis by (auto simp: accounts_def intro!: ip_account_drop slot_account_drop)
  next
    case (tenant query p identity u st1)
    from tenant(3) obtain l where "st1 = st\<lparr>st_tenant_limits := l\<rparr>"
      by (rule acquire_tenant_permit_only)
    with acc tenant tenant_account_acquire [OF tenant(3), of "held_tenant M"] show ?thesis
      by (auto simp: accounts_def intro!: ip_account_drop slot_account_drop)
  next
    case (upgrade query p identity a)
    from upgrade(3) obtain l where "st' = st\<lparr>st_tenant_limits := l\<rparr>"
      by (rule acquire_tenant_permit_only)
    moreover have "a = None \<or> (\<exists>t. a = Some (Inr t))"
      using upgrade(4) by (metis option.exhaust sum.exhaust)
    ultimately show ?thesis
      using acc upgrade tenant_account_acquire [OF upgrade(3), of "held_tenant M"]
      by (auto simp: accounts_def)
  qed
qed

lemma run_stages_accounts:
  assumes "run_stages E keys clk now_secs n g st = (r, st')"
    and "accounts avail st (add_mset (stage_holding g) M)" "size M < 2 ^ 32 - 1"
  shows "accounts avail st' (result_holding r + M)"
  using assms
proof (induction n arbitrary: g st)
  case (Suc n)
  obtain r1 st1 where run: "ws_stage_step E keys clk now_secs g st = (r1, st1)" by (rule prod.exhaust)
  with Suc ws_stage_accounts [OF run Suc.prems(2,3)] show ?case by (cases r1) auto
qed auto

text \<open>An admitted request adds its ticket to the accounts, a refused one changes nothing.\<close>

lemma ws_handler_accounts:
  assumes handler: "ws_handler E keys clk now_secs query peer headers st = (r, st')"
    and acc: "accounts avail st M" and room: "size M < 2 ^ 32 - 1"
  shows "accounts avail st'
           (case r of Upgrade t \<Rightarrow> add_mset (ticket_holding t) M | Refuse _ _ \<Rightarrow> M)"
proof -
  have "run_stages E keys clk now_secs 3 (Arrived query peer headers) st = (Answer r, st')"
    by (simp add: run_stages_handler handler)
  moreover have "accounts avail st (add_mset (stage_holding (Arrived query peer headers)) M)"
    using acc by (simp add: accounts_def)
  ultimately have "accounts avail st' (result_holding (Answer r) + M)"
    using room by (rule run_stages_accounts)
  then show ?thesis by (cases r) simp_all
qed

end

end
