(* ===== verification/Api.thy ===== *)
theory Api
  imports Admission
begin

text \<open>
  The HTTP interface (\<open>src/api.rs\<close>): \<open>POST /api/publish\<close> and \<open>POST /api/direct\<close>. The
  JSON bodies arrive decoded, as \<open>axum\<close>'s extractor delivers them.
\<close>

record 'v publish_body =
  pb_topic :: "rust_string option"
  pb_request_id :: "rust_string option"
  pb_payload :: 'v

record 'v direct_body =
  db_to :: rust_string
  db_request_id :: "rust_string option"
  db_payload :: 'v

datatype api_body =
  PublishResponse nat
| DirectResponse bool "rust_string option"
| ErrorResponse rust_string

type_synonym api_response = "nat \<times> api_body"

definition status_ok :: nat where "status_ok = 200"
definition not_found :: nat where "not_found = 404"
definition internal_server_error :: nat where "internal_server_error = 500"

definition extract_bearer :: "header_map \<Rightarrow> rust_string option" where
  "extract_bearer headers =
     Option.bind (headers ''authorization'') (strip_prefix (lit ''Bearer ''))"

definition resolve_identity ::
    "('s, 'b, 'q, 'k, 'v) env \<Rightarrow> nat \<Rightarrow> header_map \<Rightarrow> ('s, 'b, 'q, 'k) app_state
      \<Rightarrow> nat \<times> rust_string + auth_identity" where
  "resolve_identity E now_secs headers st =
     (case st_auth st of
        Some verifier \<Rightarrow>
          (case extract_bearer headers of
             None \<Rightarrow> Inl (unauthorized, lit (''missing Authorization header'' @ [newline]))
           | Some token \<Rightarrow>
               (case verify (env_jwt E) now_secs verifier token of
                  Inr identity \<Rightarrow> Inr identity
                | Inl err \<Rightarrow>
                    Inl (unauthorized,
                         lit (''invalid token: '' @ auth_error_display err @ [newline]))))
      | None \<Rightarrow> Inr \<lparr>ai_client_id = lit ''api'', ai_tenant_id = lit ''default''\<rparr>)"

definition api_publish ::
    "('s, 'b, 'q, 'k, 'v) env \<Rightarrow> nat \<Rightarrow> header_map \<Rightarrow> 'v publish_body
      \<Rightarrow> ('s, 'b, 'q, 'k) app_state \<Rightarrow> api_response \<times> ('s, 'b, 'q, 'k) app_state" where
  "api_publish E now_secs headers body st =
     (case resolve_identity E now_secs headers st of
        Inl (status, msg) \<Rightarrow> ((status, ErrorResponse msg), st)
      | Inr identity \<Rightarrow>
          (let topic = unwrap_or (pb_topic body) (lit ''public'');
               topic_key = tenant_topic (ai_tenant_id identity) (normalize_topic topic)
           in case encode_server_event (env_codec E)
                     (Message topic (ai_client_id identity) (pb_request_id body) (pb_payload body)) of
                Some encoded \<Rightarrow>
                  (let (receivers, st) = publish E topic_key encoded st
                   in ((status_ok, PublishResponse receivers),
                       if receivers = 0 then count_metric message_dropped st
                       else (count_metric message_out ^^ receivers) st))
              | None \<Rightarrow> ((internal_server_error, ErrorResponse (lit ''encode failed'')), st)))"

definition api_direct ::
    "('s, 'b, 'q, 'k, 'v) env \<Rightarrow> nat \<Rightarrow> header_map \<Rightarrow> 'v direct_body
      \<Rightarrow> ('s, 'b, 'q, 'k) app_state \<Rightarrow> api_response \<times> ('s, 'b, 'q, 'k) app_state" where
  "api_direct E now_secs headers body st =
     (case resolve_identity E now_secs headers st of
        Inl (status, msg) \<Rightarrow> ((status, ErrorResponse msg), st)
      | Inr identity \<Rightarrow>
          (case encode_server_event (env_codec E)
                  (DirectMessage (ai_client_id identity) (db_to body) (db_request_id body)
                     (db_payload body)) of
             Some encoded \<Rightarrow>
               (let (sent, st) = send_to_client E (db_to body) (ai_tenant_id identity) encoded st
                in if sent
                   then ((status_ok, DirectResponse True None), count_metric message_out st)
                   else ((not_found, DirectResponse False (Some (lit ''client_not_found''))),
                         count_metric message_dropped st))
           | None \<Rightarrow>
               ((internal_server_error, DirectResponse False (Some (lit ''encode failed''))), st)))"

section \<open>What a call may touch\<close>

text \<open>The tenant of a call: the one of its token, or the default tenant without JWT.\<close>

definition call_tenant ::
    "('s, 'b, 'q, 'k, 'v) env \<Rightarrow> nat \<Rightarrow> header_map \<Rightarrow> ('s, 'b, 'q, 'k) app_state
      \<Rightarrow> rust_string option" where
  "call_tenant E now_secs headers st =
     (case resolve_identity E now_secs headers st of
        Inl _ \<Rightarrow> None | Inr identity \<Rightarrow> Some (ai_tenant_id identity))"

text \<open>One call of the interface, whichever it is, for the tenant \<open>actor\<close>.\<close>

definition api_call ::
    "('s, 'b, 'q, 'k, 'v) env \<Rightarrow> rust_string option \<Rightarrow> ('s, 'b, 'q, 'k) app_state
      \<Rightarrow> ('s, 'b, 'q, 'k) app_state \<Rightarrow> bool" where
  "api_call E actor st st' \<longleftrightarrow>
     (\<exists>now_secs headers. actor = call_tenant E now_secs headers st \<and>
        ((\<exists>body r. api_publish E now_secs headers body st = (r, st')) \<or>
         (\<exists>body r. api_direct E now_secs headers body st = (r, st'))))"

lemma api_call_intros:
  "api_publish E now_secs headers body st = (r, st') \<Longrightarrow> api_call E (call_tenant E now_secs headers st) st st'"
  "api_direct E now_secs headers body' st = (r, st') \<Longrightarrow> api_call E (call_tenant E now_secs headers st) st st'"
  unfolding api_call_def by blast+

context message_steps
begin

lemma R_api_publish:
  assumes "api_publish E now_secs headers body st = (r, st')"
    and keys: "\<And>t. call_tenant E now_secs headers st = Some t \<Longrightarrow> tenant_keys t \<subseteq> K"
  shows "R st st'"
proof (cases "resolve_identity E now_secs headers st")
  case (Inl e)
  with assms(1) show ?thesis by (auto simp: api_publish_def R_refl split: prod.splits)
next
  case (Inr identity)
  let ?topic = "unwrap_or (pb_topic body) (lit ''public'')"
  let ?key = "tenant_topic (ai_tenant_id identity) (normalize_topic ?topic)"
  have key: "?key \<in> K" using keys Inr by (auto simp: call_tenant_def)
  show ?thesis
  proof (cases "encode_server_event (env_codec E)
      (Message ?topic (ai_client_id identity) (pb_request_id body) (pb_payload body))")
    case None
    with assms(1) Inr show ?thesis by (simp add: api_publish_def Let_def R_refl)
  next
    case (Some encoded)
    obtain n st1 where pub: "publish E ?key encoded st = (n, st1)" by (rule prod.exhaust)
    have "R st1 st'"
      using assms(1) Inr Some pub
      by (auto simp: api_publish_def Let_def R_message_out_funpow R_metrics split: if_splits)
    with R_publish [OF pub key] show ?thesis by (rule R_trans)
  qed
qed

lemma R_api_direct:
  assumes "api_direct E now_secs headers body st = (r, st')"
    and queues: "\<And>t. call_tenant E now_secs headers st = Some t \<Longrightarrow> tenant_queues t st \<subseteq> A"
  shows "R st st'"
proof (cases "resolve_identity E now_secs headers st")
  case (Inl e)
  with assms(1) show ?thesis by (auto simp: api_direct_def R_refl split: prod.splits)
next
  case (Inr identity)
  show ?thesis
  proof (cases "encode_server_event (env_codec E)
      (DirectMessage (ai_client_id identity) (db_to body) (db_request_id body) (db_payload body))")
    case None
    with assms(1) Inr show ?thesis by (simp add: api_direct_def R_refl)
  next
    case (Some encoded)
    obtain ok st1 where send:
      "send_to_client E (db_to body) (ai_tenant_id identity) encoded st = (ok, st1)"
      by (rule prod.exhaust)
    have "R st st1"
      using send by (rule R_send_to_client)
        (use queues Inr in \<open>auto simp: call_tenant_def tenant_queues_def\<close>)
    then show ?thesis
      using assms(1) Inr Some send by (auto simp: api_direct_def R_then_metric split: if_splits)
  qed
qed

lemma R_api_call:
  assumes "api_call E actor st st'"
    and "\<And>t. actor = Some t \<Longrightarrow> tenant_keys t \<subseteq> K \<and> tenant_queues t st \<subseteq> A"
  shows "R st st'"
  using assms by (auto simp: api_call_def intro: R_api_publish R_api_direct)

end

end
