(* ===== verification/Connection.thy ===== *)
theory Connection
  imports Api
begin

text \<open>
  A websocket connection (\<open>handle_socket\<close>, \<open>connection_loop\<close> and the message handlers of
  \<open>src/server.rs\<close>). A connection runs three tasks: the reader (frames of the client), the
  writer (the client's queue and the heartbeat) and the fan-out (the topic's messages to
  the queue). A step runs a task from one await point to the next: an iteration of the
  reader's or of the fan-out's loop, which await only at their head (the handlers are
  \<open>async\<close> without an \<open>await\<close> of a pending future), or one of the two halves of an iteration of the
  writer, which awaits its \<open>send\<close>. What the socket does is an input of the step.
\<close>

section \<open>Sending to the connection's own queue\<close>

definition send_encoded ::
    "('s, 'b, 'q, 'k, 'v) env \<Rightarrow> nat \<Rightarrow> bytes \<Rightarrow> ('s, 'b, 'q, 'k) app_state
      \<Rightarrow> bool \<times> ('s, 'b, 'q, 'k) app_state" where
  "send_encoded E tx message st =
     (case chan_try_send E tx (OutBinary message) st of
        Inr st' \<Rightarrow> (True, st')
      | Inl Full \<Rightarrow> (False, count_metric message_dropped st)
      | Inl Closed \<Rightarrow> (False, count_metric message_dropped st))"

definition send_error ::
    "('s, 'b, 'q, 'k, 'v) env \<Rightarrow> nat \<Rightarrow> string \<Rightarrow> string \<Rightarrow> ('s, 'b, 'q, 'k) app_state
      \<Rightarrow> ('s, 'b, 'q, 'k) app_state" where
  "send_error E tx code message st =
     (case encode_server_event (env_codec E) (Error (lit code) (lit message)) of
        Some encoded \<Rightarrow> snd (send_encoded E tx encoded st)
      | None \<Rightarrow> st)"

definition try_send_ignoring ::
    "('s, 'b, 'q, 'k, 'v) env \<Rightarrow> nat \<Rightarrow> outbound_message \<Rightarrow> ('s, 'b, 'q, 'k) app_state
      \<Rightarrow> ('s, 'b, 'q, 'k) app_state" where
  \<comment> \<open>\<open>let _ = tx.try_send(m)\<close>\<close>
  "try_send_ignoring E tx m st =
     (case chan_try_send E tx m st of Inr st' \<Rightarrow> st' | Inl _ \<Rightarrow> st)"

section \<open>Client events\<close>

definition publish_event ::
    "('s, 'b, 'q, 'k, 'v) env \<Rightarrow> nat \<Rightarrow> rust_string \<Rightarrow> rust_string \<Rightarrow> rust_string
      \<Rightarrow> rust_string option \<Rightarrow> rust_string option \<Rightarrow> 'v
      \<Rightarrow> ('s, 'b, 'q, 'k) app_state \<Rightarrow> ('s, 'b, 'q, 'k) app_state" where
  "publish_event E tx default_topic_key tenant_id client_id topic request_id payload st =
     (let topic_key = unwrap_or (map_option (\<lambda>t. tenant_topic tenant_id (normalize_topic t)) topic)
                        default_topic_key
      in case encode_server_event (env_codec E)
                (Message (extract_topic topic_key) client_id request_id payload) of
           Some encoded \<Rightarrow>
             (let (receivers, st') = publish E topic_key encoded st
              in if receivers = 0 then count_metric message_dropped st' else st')
         | None \<Rightarrow>
             send_error E tx ''encode_failed'' ''failed to encode message''
               (count_metric protocol_error st))"

definition direct_event ::
    "('s, 'b, 'q, 'k, 'v) env \<Rightarrow> nat \<Rightarrow> rust_string \<Rightarrow> rust_string \<Rightarrow> rust_string
      \<Rightarrow> rust_string option \<Rightarrow> 'v \<Rightarrow> ('s, 'b, 'q, 'k) app_state \<Rightarrow> ('s, 'b, 'q, 'k) app_state" where
  "direct_event E tx tenant_id client_id to request_id payload st =
     (case encode_server_event (env_codec E) (DirectMessage client_id to request_id payload) of
        Some encoded \<Rightarrow>
          (let (sent, st') = send_to_client E to tenant_id encoded st
           in if sent then st'
              else send_error E tx ''client_not_found'' ''target client is not online''
                     (count_metric message_dropped st'))
      | None \<Rightarrow>
          send_error E tx ''encode_failed'' ''failed to encode direct message''
            (count_metric protocol_error st))"

definition ping_event ::
    "('s, 'b, 'q, 'k, 'v) env \<Rightarrow> nat \<Rightarrow> rust_string option \<Rightarrow> 'v option
      \<Rightarrow> ('s, 'b, 'q, 'k) app_state \<Rightarrow> ('s, 'b, 'q, 'k) app_state" where
  "ping_event E tx request_id payload st =
     (case encode_server_event (env_codec E) (Pong request_id payload) of
        Some encoded \<Rightarrow> snd (send_encoded E tx encoded st)
      | None \<Rightarrow> send_error E tx ''encode_failed'' ''failed to encode pong'' st)"

definition handle_client_event ::
    "('s, 'b, 'q, 'k, 'v) env \<Rightarrow> nat \<Rightarrow> rust_string \<Rightarrow> rust_string \<Rightarrow> rust_string
      \<Rightarrow> 'v client_event \<Rightarrow> ('s, 'b, 'q, 'k) app_state \<Rightarrow> ('s, 'b, 'q, 'k) app_state" where
  "handle_client_event E tx default_topic_key tenant_id client_id event st =
     (case event of
        Publish topic request_id payload \<Rightarrow>
          publish_event E tx default_topic_key tenant_id client_id topic request_id payload st
      | Direct to request_id payload \<Rightarrow>
          direct_event E tx tenant_id client_id to request_id payload st
      | Ping request_id payload \<Rightarrow> ping_event E tx request_id payload st)"

definition handle_text ::
    "('s, 'b, 'q, 'k, 'v) env \<Rightarrow> nat \<Rightarrow> rust_string \<Rightarrow> rust_string \<Rightarrow> rust_string
      \<Rightarrow> rust_string \<Rightarrow> ('s, 'b, 'q, 'k) app_state \<Rightarrow> ('s, 'b, 'q, 'k) app_state" where
  "handle_text E tx default_topic_key tenant_id client_id raw st =
     (case parse_client_event_text (env_codec E) raw of
        Some event \<Rightarrow> handle_client_event E tx default_topic_key tenant_id client_id event st
      | None \<Rightarrow>
          send_error E tx ''invalid_json'' ''message must match the websocket JSON protocol''
            (count_metric protocol_error st))"

definition handle_binary ::
    "('s, 'b, 'q, 'k, 'v) env \<Rightarrow> nat \<Rightarrow> rust_string \<Rightarrow> rust_string \<Rightarrow> rust_string
      \<Rightarrow> bytes \<Rightarrow> ('s, 'b, 'q, 'k) app_state \<Rightarrow> ('s, 'b, 'q, 'k) app_state" where
  "handle_binary E tx default_topic_key tenant_id client_id raw st =
     (case parse_client_event_binary (env_codec E) raw of
        Some event \<Rightarrow> handle_client_event E tx default_topic_key tenant_id client_id event st
      | None \<Rightarrow>
          send_error E tx ''invalid_msgpack''
            ''binary message must match the websocket MessagePack protocol''
            (count_metric protocol_error st))"

section \<open>The connection\<close>

text \<open>
  What \<open>connection_loop\<close> has in its local variables: the address of the client queue for
  \<open>client_tx\<close> and \<open>client_rx\<close>, the number of the topic's receiver for \<open>topic_rx\<close>.
\<close>

record conn =
  co_topic_key :: rust_string
  co_tenant_id :: rust_string
  co_client_id :: rust_string
  co_connection_id :: u64
  co_tx :: nat
  co_rx :: nat

text \<open>The end of a task: \<open>None\<close> is \<open>Ok(())\<close>, \<open>Some\<close> an error with its text.\<close>

type_synonym task_end = "string option"

datatype task_state = Running | Finished task_end

datatype connection_task = ReaderTask | WriterTask | FanoutTask

datatype join_result = Joined task_end | JoinCancelled | JoinFailed string

definition task_result :: "string \<Rightarrow> join_result \<Rightarrow> task_end" where
  "task_result task_name result =
     (case result of
        Joined r \<Rightarrow> r
      | JoinCancelled \<Rightarrow> None
      | JoinFailed err \<Rightarrow> Some (task_name @ '' task failed: '' @ err))"

text \<open>Close codes of the websocket protocol, as \<open>axum\<close> names them.\<close>

definition close_normal :: u16 where "close_normal = 1000"
definition close_policy :: u16 where "close_policy = 1008"

section \<open>Opening\<close>

definition drop_writer ::
    "('s, 'b, 'q, 'k, 'v) env \<Rightarrow> conn \<Rightarrow> ('s, 'b, 'q, 'k) app_state \<Rightarrow> ('s, 'b, 'q, 'k) app_state" where
  \<comment> \<open>the writer task is gone: \<open>client_rx\<close> is dropped\<close>
  "drop_writer E c st =
     (case st_chans st (co_tx c) of
        Some q \<Rightarrow> st\<lparr>st_chans := (st_chans st)(co_tx c \<mapsto> mpsc_close (env_mpsc E) q)\<rparr>
      | None \<Rightarrow> st)"

definition drop_fanout ::
    "('s, 'b, 'q, 'k, 'v) env \<Rightarrow> conn \<Rightarrow> ('s, 'b, 'q, 'k) app_state \<Rightarrow> ('s, 'b, 'q, 'k) app_state" where
  \<comment> \<open>the fan-out task is gone: \<open>topic_rx\<close> is dropped\<close>
  "drop_fanout E c st =
     (case st_topics st (co_topic_key c) of
        Some b \<Rightarrow> put_topic (co_topic_key c) (bc_unsubscribe (env_bcast E) b (co_rx c)) st
      | None \<Rightarrow> st)"

text \<open>
  The start of \<open>handle_socket\<close> and of \<open>connection_loop\<close>, up to the spawning of the tasks, in
  three stages between which other tasks may run: the connection gets its queue, its
  receiver and its id; it enters the registry; the \<open>Ready\<close> event is queued. \<open>False\<close>: the event
  could not be encoded, and \<open>?\<close> returned from \<open>connection_loop\<close>; the receivers are dropped,
  \<open>unregister_client\<close> is not called.
\<close>

definition open_subscribe ::
    "('s, 'b, 'q, 'k, 'v) env \<Rightarrow> ticket \<Rightarrow> ('s, 'b, 'q, 'k) app_state
      \<Rightarrow> conn \<times> ('s, 'b, 'q, 'k) app_state" where
  "open_subscribe E t st =
     (let client_id = ai_client_id (tk_identity t);
          tenant_id = ai_tenant_id (tk_identity t);
          topic_key = tenant_topic tenant_id (normalize_topic (tk_topic t));
          st = count_metric connection_accepted st;
          (tx, st) = new_channel E st;
          (rx, st) = subscribe E topic_key st;
          (connection_id, st) = next_connection_id st
      in (\<lparr>co_topic_key = topic_key, co_tenant_id = tenant_id, co_client_id = client_id,
           co_connection_id = connection_id, co_tx = tx, co_rx = rx\<rparr>, st))"

definition open_register ::
    "conn \<Rightarrow> ('s, 'b, 'q, 'k) app_state \<Rightarrow> ('s, 'b, 'q, 'k) app_state" where
  "open_register c st =
     register_client (co_client_id c) (co_tenant_id c) (co_connection_id c) (co_tx c) st"

definition open_ready ::
    "('s, 'b, 'q, 'k, 'v) env \<Rightarrow> conn \<Rightarrow> ('s, 'b, 'q, 'k) app_state
      \<Rightarrow> bool \<times> ('s, 'b, 'q, 'k) app_state" where
  "open_ready E c st =
     (case encode_server_event (env_codec E)
             (Ready (extract_topic (co_topic_key c)) (co_client_id c)) of
        Some encoded \<Rightarrow> (True, snd (send_encoded E (co_tx c) encoded st))
      | None \<Rightarrow> (False, drop_fanout E c (drop_writer E c st)))"

definition open_connection ::
    "('s, 'b, 'q, 'k, 'v) env \<Rightarrow> ticket \<Rightarrow> ('s, 'b, 'q, 'k) app_state
      \<Rightarrow> (bool \<times> conn) \<times> ('s, 'b, 'q, 'k) app_state" where
  "open_connection E t st =
     (let (c, st) = open_subscribe E t st;
          st = open_register c st;
          (ok, st) = open_ready E c st
      in ((ok, c), st))"

section \<open>The reader\<close>

text \<open>What \<open>ws_receiver.next()\<close> yields, or the end of \<open>sleep(idle_timeout)\<close>.\<close>

datatype reader_input = Frame ws_message | StreamEnd | StreamError string | IdleElapsed

definition reject_rate_limited ::
    "('s, 'b, 'q, 'k, 'v) env \<Rightarrow> nat \<Rightarrow> ('s, 'b, 'q, 'k) app_state \<Rightarrow> ('s, 'b, 'q, 'k) app_state" where
  "reject_rate_limited E tx st =
     try_send_ignoring E tx (OutClose close_policy (lit ''rate limit exceeded''))
       (send_error E tx ''rate_limited'' ''message rate limit exceeded''
         (count_metric protocol_error st))"

text \<open>Clock readings: the connection's limiter (0), \<open>check_tenant_rate\<close> (1, 2).\<close>

definition read_text ::
    "('s, 'b, 'q, 'k, 'v) env \<Rightarrow> clock \<Rightarrow> conn \<Rightarrow> rust_string
      \<Rightarrow> rate_limiter \<times> ('s, 'b, 'q, 'k) app_state
      \<Rightarrow> task_state \<times> rate_limiter \<times> ('s, 'b, 'q, 'k) app_state" where
  "read_text E clk c raw = (\<lambda>(limiter, st0).
     let st = count_metric message_in st0;
         (allowed, limiter') = rate_limiter_allow (clk 0) limiter
     in if \<not> allowed then (Finished None, limiter', reject_rate_limited E (co_tx c) st)
        else if unat (cfg_max_text_bytes (st_config st)) < str_len raw
        then (Running, limiter',
              send_error E (co_tx c) ''message_too_large'' ''text message exceeds configured limit''
                (count_metric protocol_error st))
        else
          (let (tenant_ok, st) = check_tenant_rate (\<lambda>i. clk (i + 1)) (co_tenant_id c) st
           in if \<not> tenant_ok
              then (Running, limiter',
                    send_error E (co_tx c) ''tenant_rate_limited'' ''tenant message rate exceeded''
                      (count_metric tenant_rate_rejected st))
              else (Running, limiter',
                    handle_text E (co_tx c) (co_topic_key c) (co_tenant_id c) (co_client_id c)
                      raw st)))"

definition read_binary ::
    "('s, 'b, 'q, 'k, 'v) env \<Rightarrow> clock \<Rightarrow> conn \<Rightarrow> bytes
      \<Rightarrow> rate_limiter \<times> ('s, 'b, 'q, 'k) app_state
      \<Rightarrow> task_state \<times> rate_limiter \<times> ('s, 'b, 'q, 'k) app_state" where
  "read_binary E clk c raw = (\<lambda>(limiter, st0).
     let st = count_metric message_in st0;
         (allowed, limiter') = rate_limiter_allow (clk 0) limiter
     in if \<not> allowed then (Finished None, limiter', reject_rate_limited E (co_tx c) st)
        else
          (let (tenant_ok, st) = check_tenant_rate (\<lambda>i. clk (i + 1)) (co_tenant_id c) st
           in if \<not> tenant_ok
              then (Running, limiter',
                    send_error E (co_tx c) ''tenant_rate_limited'' ''tenant message rate exceeded''
                      (count_metric tenant_rate_rejected st))
              else (Running, limiter',
                    handle_binary E (co_tx c) (co_topic_key c) (co_tenant_id c) (co_client_id c)
                      raw st)))"

definition reader_step ::
    "('s, 'b, 'q, 'k, 'v) env \<Rightarrow> clock \<Rightarrow> conn \<Rightarrow> reader_input
      \<Rightarrow> rate_limiter \<times> ('s, 'b, 'q, 'k) app_state
      \<Rightarrow> task_state \<times> rate_limiter \<times> ('s, 'b, 'q, 'k) app_state" where
  "reader_step E clk c input = (\<lambda>(limiter, st).
     case input of
       Frame (WsText raw) \<Rightarrow> read_text E clk c raw (limiter, st)
     | Frame (WsBinary raw) \<Rightarrow> read_binary E clk c raw (limiter, st)
     | Frame (WsPing payload) \<Rightarrow>
         (Running, limiter, try_send_ignoring E (co_tx c) (OutPong payload) st)
     | Frame (WsPong _) \<Rightarrow> (Running, limiter, st)
     | Frame (WsClose _) \<Rightarrow> (Finished None, limiter, st)
     | StreamEnd \<Rightarrow> (Finished None, limiter, st)
     | StreamError err \<Rightarrow> (Finished (Some err), limiter, st)
     | IdleElapsed \<Rightarrow>
         (Finished None, limiter,
          try_send_ignoring E (co_tx c) (OutClose close_normal (lit ''idle timeout'')) st))"

section \<open>The writer\<close>

text \<open>
  The writer awaits twice in an iteration: in \<open>select!\<close>, for the heartbeat or a message of the
  queue, and in \<open>ws_sender.send\<close>. Each is a step of its own. In between the writer holds what
  it has taken; other tasks run, the queue has room for one more message, and an abort loses
  what is held. \<open>select!\<close> does not choose \<open>recv\<close> on an empty queue: \<open>recv\<close> waits, as
  \<open>connection_loop\<close> keeps a sender of the queue.
\<close>

datatype in_flight = Heartbeat | Outbound outbound_message

fun in_flight_frame :: "in_flight \<Rightarrow> ws_message" where
  "in_flight_frame Heartbeat = WsPing []"
| "in_flight_frame (Outbound message) = into_ws_message message"

definition writer_recv ::
    "('s, 'b, 'q, 'k, 'v) env \<Rightarrow> conn \<Rightarrow> ('s, 'b, 'q, 'k) app_state
      \<Rightarrow> (in_flight \<times> ('s, 'b, 'q, 'k) app_state) option" where
  "writer_recv E c st =
     Option.bind (st_chans st (co_tx c)) (\<lambda>q.
       map_option (\<lambda>(message, q'). (Outbound message, st\<lparr>st_chans := (st_chans st)(co_tx c \<mapsto> q')\<rparr>))
         (mpsc_recv (env_mpsc E) q))"

definition writer_sent ::
    "('s, 'b, 'q, 'k, 'v) env \<Rightarrow> conn \<Rightarrow> in_flight \<Rightarrow> bool \<Rightarrow> ('s, 'b, 'q, 'k) app_state
      \<Rightarrow> task_state \<times> ('s, 'b, 'q, 'k) app_state" where
  \<comment> \<open>\<open>send\<close> of what is held has returned; an error ends the task, which drops \<open>client_rx\<close>\<close>
  "writer_sent E c held ok st =
     (case held of
        Heartbeat \<Rightarrow>
          (if ok then (Running, st)
           else (Finished (Some ''failed to send websocket ping''), drop_writer E c st))
      | Outbound _ \<Rightarrow>
          (if ok then (Running, count_metric message_out st)
           else (Finished (Some ''failed to send websocket message''), drop_writer E c st)))"

text \<open>
  The input is what the awaited future yields; for \<open>send\<close>, whether it succeeded. The result
  has the frame whose \<open>send\<close> has succeeded and what the writer then holds. A frame whose
  \<open>send\<close> fails or is aborted may or may not have reached the client.
\<close>

datatype writer_input = HeartbeatTick | QueueReady | SendReturned bool

definition writer_step ::
    "('s, 'b, 'q, 'k, 'v) env \<Rightarrow> conn \<Rightarrow> writer_input
      \<Rightarrow> in_flight option \<times> ('s, 'b, 'q, 'k) app_state
      \<Rightarrow> (task_state \<times> ws_message option \<times> in_flight option \<times> ('s, 'b, 'q, 'k) app_state) option" where
  "writer_step E c input = (\<lambda>(holding, st).
     case holding of
       None \<Rightarrow>
         (case input of
            HeartbeatTick \<Rightarrow> Some (Running, None, Some Heartbeat, st)
          | QueueReady \<Rightarrow> map_option (\<lambda>(held, st'). (Running, None, Some held, st')) (writer_recv E c st)
          | SendReturned _ \<Rightarrow> None)
     | Some held \<Rightarrow>
         (case input of
            SendReturned ok \<Rightarrow>
              (let (r, st') = writer_sent E c held ok st
               in Some (r, if ok then Some (in_flight_frame held) else None, None, st'))
          | _ \<Rightarrow> None))"

section \<open>The fan-out\<close>

definition fanout_step ::
    "('s, 'b, 'q, 'k, 'v) env \<Rightarrow> conn \<Rightarrow> ('s, 'b, 'q, 'k) app_state
      \<Rightarrow> (task_state \<times> ('s, 'b, 'q, 'k) app_state) option" where
  \<comment> \<open>the state keeps a sender of every topic, so \<open>RecvError::Closed\<close> does not occur\<close>
  "fanout_step E c st =
     Option.bind (st_topics st (co_topic_key c)) (\<lambda>b.
       case bc_recv (env_bcast E) b (co_rx c) of
         BcEmpty \<Rightarrow> None
       | BcLagged skipped b' \<Rightarrow>
           Some (Running, count_metric message_dropped (put_topic (co_topic_key c) b' st))
       | BcMessage raw b' \<Rightarrow>
           (let (sent, st') = send_encoded E (co_tx c) raw (put_topic (co_topic_key c) b' st)
            in if sent then Some (Running, st')
               else Some (Finished (Some ''client send queue is full or closed''),
                          drop_fanout E c st')))"

section \<open>Teardown\<close>

text \<open>
  When one task has ended the two others are aborted; the abort of a task that has already
  ended does nothing.
\<close>

definition abort_writer ::
    "('s, 'b, 'q, 'k, 'v) env \<Rightarrow> conn \<Rightarrow> task_state \<Rightarrow> ('s, 'b, 'q, 'k) app_state
      \<Rightarrow> ('s, 'b, 'q, 'k) app_state" where
  "abort_writer E c writer st = (case writer of Running \<Rightarrow> drop_writer E c st | Finished _ \<Rightarrow> st)"

definition abort_fanout ::
    "('s, 'b, 'q, 'k, 'v) env \<Rightarrow> conn \<Rightarrow> task_state \<Rightarrow> ('s, 'b, 'q, 'k) app_state
      \<Rightarrow> ('s, 'b, 'q, 'k) app_state" where
  "abort_fanout E c fanout st = (case fanout of Running \<Rightarrow> drop_fanout E c st | Finished _ \<Rightarrow> st)"

definition abort_others ::
    "('s, 'b, 'q, 'k, 'v) env \<Rightarrow> connection_task \<Rightarrow> conn \<Rightarrow> task_state \<Rightarrow> task_state
      \<Rightarrow> ('s, 'b, 'q, 'k) app_state \<Rightarrow> ('s, 'b, 'q, 'k) app_state" where
  \<comment> \<open>the reader owns nothing of the shared state\<close>
  "abort_others E completed c writer fanout st =
     (case completed of
        ReaderTask \<Rightarrow> abort_writer E c writer (abort_fanout E c fanout st)
      | WriterTask \<Rightarrow> abort_fanout E c fanout st
      | FanoutTask \<Rightarrow> abort_writer E c writer st)"

section \<open>The tasks only move messages\<close>

lemma send_encoded_eq:
  assumes "send_encoded E tx m st = (ok, st')"
  obtains "ok" "chan_try_send E tx (OutBinary m) st = Inr st'"
  | e where "\<not> ok" "chan_try_send E tx (OutBinary m) st = Inl e"
      "st' = count_metric message_dropped st"
  using assms by (auto simp: send_encoded_def split: sum.splits try_send_error.splits)

text \<open>
  A connection may reach its own queue, the queues of its tenant's clients, its own topic
  and the topics of its tenant.
\<close>

definition conn_queues :: "conn \<Rightarrow> ('s, 'b, 'q, 'k) app_state \<Rightarrow> nat set" where
  "conn_queues c st = insert (co_tx c) (tenant_queues (co_tenant_id c) st)"

definition conn_keys :: "conn \<Rightarrow> rust_string set" where
  "conn_keys c = insert (co_topic_key c) (tenant_keys (co_tenant_id c))"

context message_steps
begin

lemma R_send_encoded:
  assumes "tx \<in> A"
  shows "R st (snd (send_encoded E tx m st))"
proof -
  obtain ok st' where send: "send_encoded E tx m st = (ok, st')" by (rule prod.exhaust)
  then have "R st st'" by (rule send_encoded_eq) (use assms R_send R_metrics in auto)
  with send show ?thesis by simp
qed

lemma R_send_error: "tx \<in> A \<Longrightarrow> R st (send_error E tx code message st)"
  by (simp add: send_error_def R_refl R_send_encoded split: option.split)

lemma R_try_send_ignoring: "tx \<in> A \<Longrightarrow> R st (try_send_ignoring E tx m st)"
  by (auto simp: try_send_ignoring_def intro: R_refl R_send split: sum.split)

lemmas R_then_error = R_trans [OF _ R_send_error]

lemma R_publish_event:
  assumes "tx \<in> A" "default_key \<in> K" "tenant_keys tenant \<subseteq> K"
  shows "R st (publish_event E tx default_key tenant client topic request_id payload st)"
proof -
  let ?key = "unwrap_or (map_option (\<lambda>t. tenant_topic tenant (normalize_topic t)) topic) default_key"
  have key: "?key \<in> K" using assms(2,3) by (cases topic) auto
  show ?thesis
  proof (cases "encode_server_event (env_codec E)
      (Message (extract_topic ?key) client request_id payload)")
    case None
    with assms(1) show ?thesis by (simp add: publish_event_def Let_def R_then_error R_metrics)
  next
    case (Some encoded)
    obtain n st1 where pub: "publish E ?key encoded st = (n, st1)" by (rule prod.exhaust)
    from R_publish [OF pub key] Some pub show ?thesis
      by (simp add: publish_event_def Let_def R_then_metric)
  qed
qed

lemma R_direct_event:
  assumes "tx \<in> A" "tenant_queues tenant st \<subseteq> A"
  shows "R st (direct_event E tx tenant client to request_id payload st)"
proof (cases "encode_server_event (env_codec E) (DirectMessage client to request_id payload)")
  case None
  with assms(1) show ?thesis by (simp add: direct_event_def R_then_error R_metrics)
next
  case (Some encoded)
  obtain ok st1 where send: "send_to_client E to tenant encoded st = (ok, st1)"
    by (rule prod.exhaust)
  then have "R st st1"
    by (rule R_send_to_client) (use assms(2) in \<open>auto simp: tenant_queues_def\<close>)
  with Some send assms(1) show ?thesis
    by (simp add: direct_event_def R_then_error R_then_metric)
qed

lemma R_handle_client_event:
  assumes "tx \<in> A" "tenant_queues tenant st \<subseteq> A" "default_key \<in> K" "tenant_keys tenant \<subseteq> K"
  shows "R st (handle_client_event E tx default_key tenant client event st)"
  using assms
  by (cases event)
     (simp_all add: handle_client_event_def R_publish_event R_direct_event ping_event_def
       R_send_encoded R_send_error split: option.split)

lemma R_handle_text:
  assumes "tx \<in> A" "tenant_queues tenant st \<subseteq> A" "default_key \<in> K" "tenant_keys tenant \<subseteq> K"
  shows "R st (handle_text E tx default_key tenant client raw st)"
  using assms
  by (simp add: handle_text_def R_handle_client_event R_then_error R_metrics split: option.split)

lemma R_handle_binary:
  assumes "tx \<in> A" "tenant_queues tenant st \<subseteq> A" "default_key \<in> K" "tenant_keys tenant \<subseteq> K"
  shows "R st (handle_binary E tx default_key tenant client raw st)"
  using assms
  by (simp add: handle_binary_def R_handle_client_event R_then_error R_metrics split: option.split)

lemma R_reject_rate_limited: "tx \<in> A \<Longrightarrow> R st (reject_rate_limited E tx st)"
  unfolding reject_rate_limited_def
  by (meson R_trans R_metrics R_send_error R_try_send_ignoring)

text \<open>
  After the frame is counted, the step is decided by the two rate limiters and, for text,
  by the length; in every case the connection stays within its reach.
\<close>

lemma R_read_text:
  assumes step: "read_text E clk c raw (limiter, st) = (s, limiter', st')"
    and "conn_queues c st \<subseteq> A" "conn_keys c \<subseteq> K"
  shows "R st st'"
proof -
  let ?st = "count_metric message_in st"
  obtain ok l where allow: "rate_limiter_allow (clk 0) limiter = (ok, l)" by (rule prod.exhaust)
  obtain tok st1 where rate: "check_tenant_rate (\<lambda>i. clk (i + 1)) (co_tenant_id c) ?st = (tok, st1)"
    by (rule prod.exhaust)
  have reach: "co_tx c \<in> A" "co_topic_key c \<in> K" "tenant_keys (co_tenant_id c) \<subseteq> K"
    "tenant_queues (co_tenant_id c) st1 \<subseteq> A"
    using assms(2,3) touches_control(6) [OF touches_check_tenant_rate [OF rate]]
    by (auto simp: conn_queues_def conn_keys_def tenant_queues_def)
  have "R ?st st'"
    using step allow rate R_rate [OF rate] reach
    by (auto simp: read_text_def Let_def R_reject_rate_limited R_then_error R_metrics
        intro: R_trans [OF _ R_handle_text] R_trans [OF R_trans [OF _ R_metrics(5)] R_send_error]
        split: if_splits)
  with R_metrics(1) show ?thesis by (rule R_trans)
qed

lemma R_read_binary:
  assumes step: "read_binary E clk c raw (limiter, st) = (s, limiter', st')"
    and "conn_queues c st \<subseteq> A" "conn_keys c \<subseteq> K"
  shows "R st st'"
proof -
  let ?st = "count_metric message_in st"
  obtain ok l where allow: "rate_limiter_allow (clk 0) limiter = (ok, l)" by (rule prod.exhaust)
  obtain tok st1 where rate: "check_tenant_rate (\<lambda>i. clk (i + 1)) (co_tenant_id c) ?st = (tok, st1)"
    by (rule prod.exhaust)
  have reach: "co_tx c \<in> A" "co_topic_key c \<in> K" "tenant_keys (co_tenant_id c) \<subseteq> K"
    "tenant_queues (co_tenant_id c) st1 \<subseteq> A"
    using assms(2,3) touches_control(6) [OF touches_check_tenant_rate [OF rate]]
    by (auto simp: conn_queues_def conn_keys_def tenant_queues_def)
  have "R ?st st'"
    using step allow rate R_rate [OF rate] reach
    by (auto simp: read_binary_def Let_def R_reject_rate_limited
        intro: R_trans [OF _ R_handle_binary] R_trans [OF R_trans [OF _ R_metrics(5)] R_send_error]
        split: if_splits)
  with R_metrics(1) show ?thesis by (rule R_trans)
qed

lemma R_reader_step:
  assumes "reader_step E clk c input (limiter, st) = (s, limiter', st')"
    and "conn_queues c st \<subseteq> A" "conn_keys c \<subseteq> K"
  shows "R st st'"
proof -
  have "co_tx c \<in> A" using assms(2) by (simp add: conn_queues_def)
  with assms show ?thesis
    by (auto simp: reader_step_def R_refl R_try_send_ignoring
        dest: R_read_text R_read_binary split: reader_input.splits ws_message.splits)
qed

end

section \<open>Opening, writer, fan-out and teardown\<close>

lemma open_subscribe_eq:
  assumes "open_subscribe E t st = (c, st')"
  obtains st1 st2 where
    "new_channel E (count_metric connection_accepted st) = (co_tx c, st1)"
    "subscribe E (co_topic_key c) st1 = (co_rx c, st2)"
    "co_connection_id c = st_next_connection_id st2"
    "st' = st2\<lparr>st_next_connection_id := co_connection_id c + 1\<rparr>"
    "co_client_id c = ai_client_id (tk_identity t)" "co_tenant_id c = ai_tenant_id (tk_identity t)"
    "co_topic_key c = tenant_topic (co_tenant_id c) (normalize_topic (tk_topic t))"
proof -
  let ?key = "tenant_topic (ai_tenant_id (tk_identity t)) (normalize_topic (tk_topic t))"
  obtain tx st1 where ch: "new_channel E (count_metric connection_accepted st) = (tx, st1)"
    by (rule prod.exhaust)
  obtain rx st2 where sub: "subscribe E ?key st1 = (rx, st2)" by (rule prod.exhaust)
  show thesis
    using assms
    by (intro that [of st1 st2]) (auto simp: open_subscribe_def Let_def ch sub next_connection_id_def)
qed

lemma open_connection_eq:
  assumes "open_connection E t st = ((ok, c), st')"
  obtains st1 where "open_subscribe E t st = (c, st1)"
    "open_ready E c (open_register c st1) = (ok, st')"
  using assms by (auto simp: open_connection_def Let_def split: prod.splits)

lemma open_ready_eq:
  assumes "open_ready E c st = (ok, st')"
  obtains m where ok
      "encode_server_event (env_codec E) (Ready (extract_topic (co_topic_key c)) (co_client_id c)) = Some m"
      "st' = snd (send_encoded E (co_tx c) m st)"
  | "\<not> ok" "st' = drop_fanout E c (drop_writer E c st)"
      "encode_server_event (env_codec E) (Ready (extract_topic (co_topic_key c)) (co_client_id c)) = None"
  using assms by (auto simp: open_ready_def split: option.splits)

lemma touches_drop_writer: "co_tx c \<in> A \<Longrightarrow> touches A K st (drop_writer E c st)"
  by (auto simp: drop_writer_def touches_def same_control_def split: option.split)

lemma touches_drop_fanout: "co_topic_key c \<in> K \<Longrightarrow> touches A K st (drop_fanout E c st)"
  by (simp add: drop_fanout_def touches_put_topic split: option.split)

text \<open>The same behind another step.\<close>

lemma touches_then_drop:
  "touches A K st st1 \<Longrightarrow> co_tx c \<in> A \<Longrightarrow> touches A K st (drop_writer E c st1)"
  "touches A K st st1 \<Longrightarrow> co_topic_key c \<in> K \<Longrightarrow> touches A K st (drop_fanout E c st1)"
  by (rule touches_trans, assumption, rule touches_drop_writer touches_drop_fanout, assumption)+

lemma touches_open_ready:
  assumes "open_ready E c st = (ok, st')" "co_tx c \<in> A" "co_topic_key c \<in> K"
  shows "touches A K st st'"
  using assms(1)
  by (rule open_ready_eq)
     (use assms(2,3) touching.R_send_encoded [of "co_tx c" A K st E] in
       \<open>auto intro: touches_then_drop touches_drop_writer\<close>)

lemma touches_abort_others:
  "co_tx c \<in> A \<Longrightarrow> co_topic_key c \<in> K \<Longrightarrow>
     touches A K st (abort_others E completed c writer fanout st)"
  by (simp add: abort_others_def abort_writer_def abort_fanout_def touches_drop_writer
      touches_drop_fanout touches_then_drop split: connection_task.split task_state.split)

lemma writer_step_eq:
  assumes "writer_step E c input (holding, st) = Some (r, frame, holding', st')"
  obtains (heartbeat) "holding = None" "r = Running" "frame = None" "holding' = Some Heartbeat" "st' = st"
  | (taken) q q' m where "holding = None" "st_chans st (co_tx c) = Some q"
      "mpsc_recv (env_mpsc E) q = Some (m, q')" "r = Running" "frame = None"
      "holding' = Some (Outbound m)" "st' = st\<lparr>st_chans := (st_chans st)(co_tx c \<mapsto> q')\<rparr>"
  | (pinged) "holding = Some Heartbeat" "r = Running" "frame = Some (WsPing [])" "holding' = None"
      "st' = st"
  | (sent) m where "holding = Some (Outbound m)" "r = Running" "frame = Some (into_ws_message m)"
      "holding' = None" "st' = count_metric message_out st"
  | (failed) held e where "holding = Some held" "r = Finished (Some e)" "frame = None"
      "holding' = None" "st' = drop_writer E c st"
proof (cases holding)
  case None
  show thesis
  proof (cases input)
    case HeartbeatTick
    show thesis by (rule heartbeat) (use assms None HeartbeatTick in \<open>simp_all add: writer_step_def\<close>)
  next
    case QueueReady
    with assms None obtain q m q' where "st_chans st (co_tx c) = Some q"
      "mpsc_recv (env_mpsc E) q = Some (m, q')"
      by (auto simp: writer_step_def writer_recv_def bind_eq_Some_conv)
    with assms None QueueReady taken show thesis by (simp add: writer_step_def writer_recv_def)
  qed (use assms None in \<open>simp add: writer_step_def\<close>)
next
  case (Some held)
  with assms obtain ok where ok: "input = SendReturned ok"
    by (cases input) (simp_all add: writer_step_def)
  show thesis
  proof (cases ok)
    case True
    with assms ok Some pinged sent show thesis
      by (cases held) (simp_all add: writer_step_def writer_sent_def)
  next
    case False
    with assms ok Some failed [of held] show thesis
      by (cases held) (auto simp: writer_step_def writer_sent_def)
  qed
qed

lemma fanout_step_eq:
  assumes "fanout_step E c st = Some (r, st')"
  obtains b b' n where "st_topics st (co_topic_key c) = Some b"
      "bc_recv (env_bcast E) b (co_rx c) = BcLagged n b'" "r = Running"
      "st' = count_metric message_dropped (put_topic (co_topic_key c) b' st)"
  | b b' m where "st_topics st (co_topic_key c) = Some b"
      "bc_recv (env_bcast E) b (co_rx c) = BcMessage m b'" "r = Running"
      "send_encoded E (co_tx c) m (put_topic (co_topic_key c) b' st) = (True, st')"
  | b b' m st1 where "st_topics st (co_topic_key c) = Some b"
      "bc_recv (env_bcast E) b (co_rx c) = BcMessage m b'"
      "r = Finished (Some ''client send queue is full or closed'')"
      "send_encoded E (co_tx c) m (put_topic (co_topic_key c) b' st) = (False, st1)"
      "st' = drop_fanout E c st1"
proof -
  from assms obtain b where b: "st_topics st (co_topic_key c) = Some b"
    by (auto simp: fanout_step_def bind_eq_Some_conv)
  show thesis
  proof (cases "bc_recv (env_bcast E) b (co_rx c)")
    case (BcMessage m b')
    obtain ok st1 where send:
      "send_encoded E (co_tx c) m (put_topic (co_topic_key c) b' st) = (ok, st1)"
      by (rule prod.exhaust)
    show thesis
    proof (cases ok)
      case True
      with assms b BcMessage send that(2) show thesis by (simp add: fanout_step_def)
    next
      case False
      with assms b BcMessage send that(3) show thesis by (simp add: fanout_step_def)
    qed
  qed (use assms b that(1) in \<open>simp_all add: fanout_step_def\<close>)
qed

lemma touches_put_queue:
  assumes "st_chans st a = Some q" "a \<in> A"
  shows "touches A K st (st\<lparr>st_chans := (st_chans st)(a \<mapsto> q')\<rparr>)"
  using assms by (auto simp: touches_def same_control_def)

lemma touches_writer_step:
  assumes "writer_step E c input (holding, st) = Some (r, frame, holding', st')" "co_tx c \<in> A"
  shows "touches A K st st'"
  using assms(1)
  by (cases rule: writer_step_eq)
     (use assms(2) in \<open>auto intro: touches_drop_writer touches_put_queue touching.R_metrics\<close>)

lemma touches_send_encoded:
  assumes "send_encoded E tx m st = (ok, st')" "tx \<in> A"
  shows "touches A K st st'"
  using touching.R_send_encoded [OF assms(2), of K st E m] assms(1) by simp

lemma touches_fanout_step:
  assumes "fanout_step E c st = Some (r, st')" "co_tx c \<in> A" "co_topic_key c \<in> K"
  shows "touches A K st st'"
  using assms(1)
proof (rule fanout_step_eq)
  fix b' n
  assume "st' = count_metric message_dropped (put_topic (co_topic_key c) b' st)"
  with assms(3) show ?thesis by (simp add: touches_put_topic touching.R_then_metric)
next
  fix b' m
  assume "send_encoded E (co_tx c) m (put_topic (co_topic_key c) b' st) = (True, st')"
  from touches_trans [OF touches_put_topic [OF assms(3)] touches_send_encoded [OF this assms(2)]]
  show ?thesis .
next
  fix b' m st1
  assume "send_encoded E (co_tx c) m (put_topic (co_topic_key c) b' st) = (False, st1)"
    and "st' = drop_fanout E c st1"
  with touches_trans [OF touches_put_topic [OF assms(3)] touches_send_encoded [OF this(1) assms(2)]]
  show ?thesis using assms(3) by (simp add: touches_then_drop)
qed

section \<open>Receivers and queues\<close>

context server_env
begin

lemma topic_rx_drop_writer [simp]: "topic_rx (drop_writer E c st) = topic_rx st"
  by (simp add: drop_writer_def split: option.split)

lemma topic_rx_drop_fanout [simp]:
  "topic_rx (drop_fanout E c st)
     = (topic_rx st)(co_topic_key c := topic_rx st (co_topic_key c) - {co_rx c})"
proof (cases "st_topics st (co_topic_key c)")
  case None
  then show ?thesis by (simp add: drop_fanout_def topic_receivers_def fun_eq_iff)
next
  case (Some b)
  with bc.unsubscribe [of b "co_rx c"] show ?thesis
    by (simp add: drop_fanout_def topic_rx_put_topic) (simp add: topic_receivers_def)
qed

lemma topic_rx_send_encoded [simp]: "topic_rx (snd (send_encoded E tx m st)) = topic_rx st"
  by (rule rx.R_send_encoded) simp

lemma topic_rx_writer_step:
  assumes "writer_step E c input (holding, st) = Some (r, frame, holding', st')"
  shows "topic_rx st' = topic_rx st"
  using assms by (cases rule: writer_step_eq) simp_all

text \<open>The fan-out keeps its receiver while it runs and drops it when it ends.\<close>

lemma topic_rx_fanout_step:
  assumes step: "fanout_step E c st = Some (r, st')" and mine: "co_rx c \<in> topic_rx st (co_topic_key c)"
  shows "topic_rx st' = (if r = Running then topic_rx st
           else (topic_rx st)(co_topic_key c := topic_rx st (co_topic_key c) - {co_rx c}))"
proof -
  have keep: "topic_rx (put_topic (co_topic_key c) b' st) = topic_rx st"
    if "st_topics st (co_topic_key c) = Some b" "receivers b' = receivers b" for b b'
    using that by (auto simp: topic_rx_put_topic) (simp add: topic_receivers_def fun_eq_iff)
  from mine have rx: "st_topics st (co_topic_key c) = Some b \<Longrightarrow> co_rx c \<in> receivers b" for b
    by (simp add: topic_receivers_def)
  from step show ?thesis
  proof (rule fanout_step_eq)
    fix b b' n assume b: "st_topics st (co_topic_key c) = Some b"
      and "bc_recv (env_bcast E) b (co_rx c) = BcLagged n b'" "r = Running"
      and "st' = count_metric message_dropped (put_topic (co_topic_key c) b' st)"
    with keep [OF b] bc.recv_lagged rx show ?thesis by simp
  next
    fix b b' m assume b: "st_topics st (co_topic_key c) = Some b"
      and recv: "bc_recv (env_bcast E) b (co_rx c) = BcMessage m b'" and "r = Running"
      and send: "send_encoded E (co_tx c) m (put_topic (co_topic_key c) b' st) = (True, st')"
    with keep [OF b] bc.recv_message [OF recv rx [OF b]] topic_rx_send_encoded [of _ m]
    show ?thesis by (metis sndI)
  next
    fix b b' m st1 assume b: "st_topics st (co_topic_key c) = Some b"
      and recv: "bc_recv (env_bcast E) b (co_rx c) = BcMessage m b'"
      and "r = Finished (Some ''client send queue is full or closed'')"
      and send: "send_encoded E (co_tx c) m (put_topic (co_topic_key c) b' st) = (False, st1)"
      and st': "st' = drop_fanout E c st1"
    moreover have "topic_rx st1 = topic_rx st"
      using keep [OF b] bc.recv_message [OF recv rx [OF b]] send topic_rx_send_encoded [of _ m]
      by (metis sndI)
    ultimately show ?thesis by simp
  qed
qed

lemma topic_rx_abort_others:
  "topic_rx (abort_others E completed c writer fanout st)
     = (if completed \<noteq> FanoutTask \<and> fanout = Running
        then (topic_rx st)(co_topic_key c := topic_rx st (co_topic_key c) - {co_rx c})
        else topic_rx st)"
  by (simp add: abort_others_def abort_writer_def abort_fanout_def
      split: connection_task.split task_state.split)

lemma topic_rx_open_subscribe:
  assumes "open_subscribe E t st = (c, st')"
  shows "co_rx c \<notin> topic_rx st (co_topic_key c)"
    and "topic_rx st' = (topic_rx st)
           (co_topic_key c := insert (co_rx c) (topic_rx st (co_topic_key c)))"
proof -
  from assms obtain st1 st2 where
    ch: "new_channel E (count_metric connection_accepted st) = (co_tx c, st1)" and
    sub: "subscribe E (co_topic_key c) st1 = (co_rx c, st2)" and
    st': "st' = st2\<lparr>st_next_connection_id := co_connection_id c + 1\<rparr>"
    by (rule open_subscribe_eq)
  have st1: "topic_rx st1 = topic_rx st"
    using ch by (auto simp: new_channel_def topic_receivers_def fun_eq_iff)
  have b: "topic_rx st' = topic_rx st2" by (simp add: st' topic_receivers_def fun_eq_iff)
  show "co_rx c \<notin> topic_rx st (co_topic_key c)" using subscribe_new(1) [OF sub] st1 by simp
  show "topic_rx st' = (topic_rx st)
      (co_topic_key c := insert (co_rx c) (topic_rx st (co_topic_key c)))"
    using subscribe_new(2) [OF sub] st1 b by simp
qed

lemma topic_rx_open_register: "topic_rx (open_register c st) = topic_rx st"
  by (simp add: open_register_def register_client_def topic_receivers_def fun_eq_iff)

lemma topic_rx_open_ready:
  assumes "open_ready E c st = (ok, st')"
  shows "topic_rx st' = (if ok then topic_rx st
           else (topic_rx st)(co_topic_key c := topic_rx st (co_topic_key c) - {co_rx c}))"
  using assms by (rule open_ready_eq) auto

text \<open>No queue ever holds more than its capacity.\<close>

abbreviation "within_bounds \<equiv> queues_ok queued qcap"

lemma within_bounds_drop_writer: "within_bounds st \<Longrightarrow> within_bounds (drop_writer E c st)"
  using mpsc.close_queue by (auto simp: drop_writer_def queues_ok_def split: option.split)

lemma within_bounds_drop_fanout: "within_bounds st \<Longrightarrow> within_bounds (drop_fanout E c st)"
  by (simp add: drop_fanout_def put_topic_def split: option.split)

lemma within_bounds_abort_others:
  "within_bounds st \<Longrightarrow> within_bounds (abort_others E completed c writer fanout st)"
  by (simp add: abort_others_def abort_writer_def abort_fanout_def within_bounds_drop_writer
      within_bounds_drop_fanout split: connection_task.split task_state.split)

lemma within_bounds_recv:
  assumes "st_chans st a = Some q" "mpsc_recv (env_mpsc E) q = Some (m, q')" "within_bounds st"
  shows "within_bounds (st\<lparr>st_chans := (st_chans st)(a \<mapsto> q')\<rparr>)"
  using assms(1,3) mpsc.recv_Some [OF assms(2)] by (fastforce simp: queues_ok_def)

lemma within_bounds_writer_step:
  assumes "writer_step E c input (holding, st) = Some (r, frame, holding', st')" "within_bounds st"
  shows "within_bounds st'"
  using assms(1)
  by (cases rule: writer_step_eq)
     (simp_all add: assms(2) within_bounds_drop_writer within_bounds_recv)

lemma within_bounds_send_encoded:
  "within_bounds st \<Longrightarrow> send_encoded E tx m st = (ok, st') \<Longrightarrow> within_bounds st'"
  using bounded.R_send_encoded [of tx st m] by simp

lemma within_bounds_put_topic: "within_bounds st \<Longrightarrow> within_bounds (put_topic key b st)"
  by (simp add: put_topic_def)

lemma within_bounds_fanout_step:
  assumes "fanout_step E c st = Some (r, st')" "within_bounds st"
  shows "within_bounds st'"
  using assms(1)
  by (rule fanout_step_eq)
     (auto simp: within_bounds_put_topic assms(2)
       dest!: within_bounds_send_encoded [OF within_bounds_put_topic [OF assms(2)]]
       intro: within_bounds_drop_fanout)

lemma within_bounds_open_subscribe:
  assumes "open_subscribe E t st = (c, st')" "within_bounds st"
  shows "within_bounds st'"
proof -
  from assms(1) obtain st1 st2 where
    ch: "new_channel E (count_metric connection_accepted st) = (co_tx c, st1)" and
    sub: "subscribe E (co_topic_key c) st1 = (co_rx c, st2)" and
    st': "st' = st2\<lparr>st_next_connection_id := co_connection_id c + 1\<rparr>"
    by (rule open_subscribe_eq)
  have "within_bounds st1" using new_channel_queues_ok [OF ch] assms(2) by simp
  then have "within_bounds st2" using sub by (auto elim!: subscribe_eq simp: within_bounds_put_topic)
  then show ?thesis by (simp add: st' queues_ok_def)
qed

lemma within_bounds_open_register: "within_bounds st \<Longrightarrow> within_bounds (open_register c st)"
  by (simp add: open_register_def register_client_def queues_ok_def)

lemma within_bounds_open_ready:
  assumes "open_ready E c st = (ok, st')" "within_bounds st"
  shows "within_bounds st'"
  using assms(1)
  by (rule open_ready_eq)
     (use assms(2) bounded.R_send_encoded in \<open>auto simp: within_bounds_drop_fanout within_bounds_drop_writer\<close>)

end

end
