(* ===== verification/Server.thy ===== *)
theory Server
  imports Connection
begin

text \<open>
  The running server: the shared state with the sessions, the websocket requests that are
  not over. \<open>step\<close> interleaves everything that runs concurrently: the stages of
  \<open>ws_handler\<close>, the upgrade or its failure, the steps of the three tasks of each
  connection, their abort, the two map operations of \<open>unregister_client\<close>, the end of
  \<open>handle_socket\<close>, and the calls of the HTTP interface.
\<close>

section \<open>Sessions\<close>

record live =
  lv_ticket :: ticket
  lv_conn :: conn
  lv_limiter :: rate_limiter
  lv_reader :: task_state
  lv_writer :: task_state
  lv_fanout :: task_state
  lv_holding :: "in_flight option"
  lv_wire :: "ws_message list"

text \<open>
  A session is in \<open>ws_handler\<close>, waits for its upgrade, opens its connection (it has its
  receiver and its id; it is in the registry), runs its tasks, is about to call
  \<open>unregister_client\<close>, or is in it or behind it: the flag of \<open>Leaving\<close> says that the entry is
  still to be removed. It is admitted when it has its ticket.
\<close>

datatype session =
  Handling ws_stage
| Upgrading ticket
| Subscribed ticket conn
| Registered ticket conn
| Live live
| Unregistering ticket conn
| Leaving ticket conn bool

fun session_ticket :: "session \<Rightarrow> ticket option" where
  "session_ticket (Handling g) = None"
| "session_ticket (Upgrading t) = Some t"
| "session_ticket (Subscribed t c) = Some t"
| "session_ticket (Registered t c) = Some t"
| "session_ticket (Live v) = Some (lv_ticket v)"
| "session_ticket (Unregistering t c) = Some t"
| "session_ticket (Leaving t c _) = Some t"

definition session_holding :: "session \<Rightarrow> holding" where
  "session_holding x =
     (case x of Handling g \<Rightarrow> stage_holding g | _ \<Rightarrow> ticket_holding (the (session_ticket x)))"

fun session_conn :: "session \<Rightarrow> conn option" where
  "session_conn (Handling g) = None"
| "session_conn (Upgrading t) = None"
| "session_conn (Subscribed t c) = Some c"
| "session_conn (Registered t c) = Some c"
| "session_conn (Live v) = Some (lv_conn v)"
| "session_conn (Unregistering t c) = Some c"
| "session_conn (Leaving t c _) = Some c"

fun registered_conn :: "session \<Rightarrow> conn option" where
  \<comment> \<open>the connection that may still have an entry in the registry\<close>
  "registered_conn (Subscribed t c) = None"
| "registered_conn (Leaving t c False) = None"
| "registered_conn x = session_conn x"

fun subscribed_conn :: "session \<Rightarrow> conn option" where
  \<comment> \<open>the connection that holds a receiver of its topic, from its fan-out task on in that task\<close>
  "subscribed_conn (Subscribed t c) = Some c"
| "subscribed_conn (Registered t c) = Some c"
| "subscribed_conn (Live v) = (if lv_fanout v = Running then Some (lv_conn v) else None)"
| "subscribed_conn _ = None"

definition is_open :: "session \<Rightarrow> bool" where
  "is_open x \<longleftrightarrow> session_conn x \<noteq> None"

definition session_tenant :: "session \<Rightarrow> rust_string option" where
  \<comment> \<open>the tenant an admitted session was admitted for\<close>
  "session_tenant x = map_option (\<lambda>t. ai_tenant_id (tk_identity t)) (session_ticket x)"

lemma session_tenant_simps [simp]:
  "session_tenant (Handling g) = None"
  "session_tenant (Upgrading t) = Some (ai_tenant_id (tk_identity t))"
  by (simp_all add: session_tenant_def)

lemma session_holding_simps [simp]:
  "session_holding (Handling g) = stage_holding g"
  "session_holding (Upgrading t) = ticket_holding t"
  "session_holding (Subscribed t c) = ticket_holding t"
  "session_holding (Registered t c) = ticket_holding t"
  "session_holding (Live v) = ticket_holding (lv_ticket v)"
  "session_holding (Unregistering t c) = ticket_holding t"
  "session_holding (Leaving t c b) = ticket_holding t"
  by (simp_all add: session_holding_def)

lemma session_ticket_holding:
  "session_ticket x = Some t \<Longrightarrow> session_holding x = ticket_holding t"
  by (cases x) auto

lemma no_slot_handling: "\<not> ho_slot (session_holding x) \<Longrightarrow> session_ticket x = None"
  by (cases x) auto

lemma session_ticket_None: "session_ticket x = None \<longleftrightarrow> (\<exists>g. x = Handling g)"
  by (cases x) auto

record ('s, 'b, 'q, 'k) world =
  w_app :: "('s, 'b, 'q, 'k) app_state"
  w_sessions :: "nat \<rightharpoonup> session"
  w_next :: nat

definition world_new :: "('s, 'b, 'q, 'k, 'v) env \<Rightarrow> config \<Rightarrow> ('s, 'b, 'q, 'k) world" where
  "world_new E cfg = \<lparr>w_app = app_state_new E cfg, w_sessions = Map.empty, w_next = 0\<rparr>"

definition sessions_where :: "(session \<Rightarrow> bool) \<Rightarrow> ('s, 'b, 'q, 'k) world \<Rightarrow> nat set" where
  "sessions_where P w = {s. \<exists>x. w_sessions w s = Some x \<and> P x}"

definition handlers :: "('s, 'b, 'q, 'k) world \<Rightarrow> nat" where
  \<comment> \<open>the handlers that are running\<close>
  "handlers w = card (sessions_where (\<lambda>x. session_ticket x = None) w)"

definition put_session ::
    "nat \<Rightarrow> session \<Rightarrow> ('s, 'b, 'q, 'k) app_state \<Rightarrow> ('s, 'b, 'q, 'k) world \<Rightarrow> ('s, 'b, 'q, 'k) world" where
  "put_session s x st w = w\<lparr>w_app := st, w_sessions := (w_sessions w)(s \<mapsto> x)\<rparr>"

definition end_session ::
    "nat \<Rightarrow> ('s, 'b, 'q, 'k) app_state \<Rightarrow> ('s, 'b, 'q, 'k) world \<Rightarrow> ('s, 'b, 'q, 'k) world" where
  "end_session s st w = w\<lparr>w_app := st, w_sessions := (w_sessions w)(s := None)\<rparr>"

definition start_session ::
    "session \<Rightarrow> ('s, 'b, 'q, 'k) app_state \<Rightarrow> ('s, 'b, 'q, 'k) world \<Rightarrow> ('s, 'b, 'q, 'k) world" where
  "start_session x st w = (put_session (w_next w) x st w)\<lparr>w_next := Suc (w_next w)\<rparr>"

definition live_new :: "ticket \<Rightarrow> conn \<Rightarrow> config \<Rightarrow> instant \<Rightarrow> live" where
  \<comment> \<open>the spawned tasks; the reader begins with \<open>RateLimiter::new\<close>\<close>
  "live_new t c cfg now =
     \<lparr>lv_ticket = t, lv_conn = c,
      lv_limiter = rate_limiter_new (cfg_max_messages_per_second cfg) (cfg_message_burst cfg) now,
      lv_reader = Running, lv_writer = Running, lv_fanout = Running,
      lv_holding = None, lv_wire = []\<rparr>"

fun task_of :: "connection_task \<Rightarrow> live \<Rightarrow> task_state" where
  "task_of ReaderTask v = lv_reader v"
| "task_of WriterTask v = lv_writer v"
| "task_of FanoutTask v = lv_fanout v"

definition handle_socket_end ::
    "('s, 'b, 'q, 'k, 'v) env \<Rightarrow> instant \<Rightarrow> ticket \<Rightarrow> ('s, 'b, 'q, 'k) app_state
      \<Rightarrow> ('s, 'b, 'q, 'k) app_state" where
  \<comment> \<open>the end of \<open>handle_socket\<close>: its parameters, the three permits, are dropped\<close>
  "handle_socket_end E now t st = drop_ticket E now t (count_metric connection_closed st)"

section \<open>Steps\<close>

text \<open>
  The label of a step is the tenant it acts for, when it has one. A handler occupies a worker
  thread while it runs, so there are never more handlers than workers.
\<close>

inductive step ::
    "('s, 'b, 'q, 'k, 'v) env \<Rightarrow> ('s, 'b, 'q, 'k) world \<Rightarrow> rust_string option
      \<Rightarrow> ('s, 'b, 'q, 'k) world \<Rightarrow> bool" for E where
  request: "handlers w < env_workers E
    \<Longrightarrow> step E w None (start_session (Handling (Arrived query peer headers)) (w_app w) w)"
| handled: "w_sessions w s = Some (Handling g) \<Longrightarrow>
    ws_stage_step E keys clk now_secs g (w_app w) = (Next g', st)
    \<Longrightarrow> step E w None (put_session s (Handling g') st w)"
| refused: "w_sessions w s = Some (Handling g) \<Longrightarrow>
    ws_stage_step E keys clk now_secs g (w_app w) = (Answer (Refuse status msg), st)
    \<Longrightarrow> step E w None (end_session s st w)"
| admitted: "w_sessions w s = Some (Handling g) \<Longrightarrow>
    ws_stage_step E keys clk now_secs g (w_app w) = (Answer (Upgrade t), st)
    \<Longrightarrow> step E w None (put_session s (Upgrading t) st w)"
| upgrade_failed: "w_sessions w s = Some (Upgrading t)
    \<Longrightarrow> step E w None (end_session s (drop_ticket E now t (w_app w)) w)"
| subscribed: "w_sessions w s = Some (Upgrading t) \<Longrightarrow> open_subscribe E t (w_app w) = (c, st)
    \<Longrightarrow> step E w (Some (ai_tenant_id (tk_identity t))) (put_session s (Subscribed t c) st w)"
| registered: "w_sessions w s = Some (Subscribed t c)
    \<Longrightarrow> step E w (Some (co_tenant_id c))
          (put_session s (Registered t c) (open_register c (w_app w)) w)"
| opened: "w_sessions w s = Some (Registered t c) \<Longrightarrow> open_ready E c (w_app w) = (True, st)
    \<Longrightarrow> step E w (Some (co_tenant_id c)) (put_session s (Live (live_new t c (st_config st) now)) st w)"
| open_failed: "w_sessions w s = Some (Registered t c) \<Longrightarrow> open_ready E c (w_app w) = (False, st)
    \<Longrightarrow> step E w (Some (co_tenant_id c)) (put_session s (Leaving t c False) st w)"
| reader: "w_sessions w s = Some (Live v) \<Longrightarrow> lv_reader v = Running \<Longrightarrow>
    reader_step E clk (lv_conn v) input (lv_limiter v, w_app w) = (r, l, st)
    \<Longrightarrow> step E w (Some (co_tenant_id (lv_conn v)))
          (put_session s (Live (v\<lparr>lv_reader := r, lv_limiter := l\<rparr>)) st w)"
| writer: "w_sessions w s = Some (Live v) \<Longrightarrow> lv_writer v = Running \<Longrightarrow>
    writer_step E (lv_conn v) out (lv_holding v, w_app w) = Some (r, frame, holding, st)
    \<Longrightarrow> step E w (Some (co_tenant_id (lv_conn v)))
          (put_session s
            (Live (v\<lparr>lv_writer := r, lv_holding := holding,
               lv_wire := lv_wire v @ (case frame of Some f \<Rightarrow> [f] | None \<Rightarrow> [])\<rparr>))
            st w)"
| fanout: "w_sessions w s = Some (Live v) \<Longrightarrow> lv_fanout v = Running \<Longrightarrow>
    fanout_step E (lv_conn v) (w_app w) = Some (r, st)
    \<Longrightarrow> step E w (Some (co_tenant_id (lv_conn v))) (put_session s (Live (v\<lparr>lv_fanout := r\<rparr>)) st w)"
| task_over: "w_sessions w s = Some (Live v) \<Longrightarrow> task_of completed v = Finished result
    \<Longrightarrow> step E w (Some (co_tenant_id (lv_conn v)))
          (put_session s (Unregistering (lv_ticket v) (lv_conn v))
            (abort_others E completed (lv_conn v) (lv_writer v) (lv_fanout v) (w_app w)) w)"
| unregister_get: "w_sessions w s = Some (Unregistering t c)
    \<Longrightarrow> step E w (Some (co_tenant_id c))
          (put_session s
            (Leaving t c
              (unregister_check (co_client_id c) (co_tenant_id c) (co_connection_id c) (w_app w)))
            (w_app w) w)"
| unregister_entry: "w_sessions w s = Some (Leaving t c True)
    \<Longrightarrow> step E w (Some (co_tenant_id c))
          (put_session s (Leaving t c False)
            (unregister_remove (co_client_id c) (co_tenant_id c) (w_app w)) w)"
| left: "w_sessions w s = Some (Leaving t c False)
    \<Longrightarrow> step E w None (end_session s (handle_socket_end E now t (w_app w)) w)"
| published: "api_publish E now_secs headers pbody (w_app w) = (response, st)
    \<Longrightarrow> step E w (call_tenant E now_secs headers (w_app w)) (w\<lparr>w_app := st\<rparr>)"
| sent_direct: "api_direct E now_secs headers dbody (w_app w) = (response, st)
    \<Longrightarrow> step E w (call_tenant E now_secs headers (w_app w)) (w\<lparr>w_app := st\<rparr>)"

inductive reachable ::
    "('s, 'b, 'q, 'k, 'v) env \<Rightarrow> config \<Rightarrow> ('s, 'b, 'q, 'k) world \<Rightarrow> bool" for E cfg where
  start: "reachable E cfg (world_new E cfg)"
| next_step: "reachable E cfg w \<Longrightarrow> step E w actor w' \<Longrightarrow> reachable E cfg w'"

inductive_cases step_cases: "step E w actor w'"

lemma world_updates [simp]:
  "w_app (put_session s x st w) = st"
  "w_sessions (put_session s x st w) = (w_sessions w)(s \<mapsto> x)"
  "w_next (put_session s x st w) = w_next w"
  "w_app (end_session s st w) = st"
  "w_sessions (end_session s st w) = (w_sessions w)(s := None)"
  "w_next (end_session s st w) = w_next w"
  "w_app (start_session x st w) = st"
  "w_sessions (start_session x st w) = (w_sessions w)(w_next w \<mapsto> x)"
  "w_next (start_session x st w) = Suc (w_next w)"
  by (simp_all add: put_session_def end_session_def start_session_def)

section \<open>The kinds of steps\<close>

text \<open>
  Each kind of step with what it does to the state and to the sessions. A step of a handler is
  one kind whatever its result; so are the end of an opening and a call of the interface.
\<close>

fun stage_session :: "stage_result \<Rightarrow> session option" where
  "stage_session (Next g) = Some (Handling g)"
| "stage_session (Answer (Upgrade t)) = Some (Upgrading t)"
| "stage_session (Answer (Refuse _ _)) = None"

lemma stage_session_conn:
  "stage_session r = Some x \<Longrightarrow> session_conn x = None"
  "stage_session r = Some x \<Longrightarrow> subscribed_conn x = None"
  by (cases r rule: stage_session.cases; auto)+

lemma step_kinds:
  assumes "step E w actor w'"
  obtains
    (request) query peer headers where "actor = None" "handlers w < env_workers E"
      "w_app w' = w_app w" "w_sessions w' = (w_sessions w)(w_next w \<mapsto> Handling (Arrived query peer headers))"
  | (staged) s g keys clk now_secs r where "actor = None" "w_sessions w s = Some (Handling g)"
      "ws_stage_step E keys clk now_secs g (w_app w) = (r, w_app w')"
      "w_sessions w' = (w_sessions w)(s := stage_session r)"
  | (dropped) s t now where "actor = None" "w_sessions w s = Some (Upgrading t)"
      "w_app w' = drop_ticket E now t (w_app w)" "w_sessions w' = (w_sessions w)(s := None)"
  | (subscribed) s t c where "actor = Some (ai_tenant_id (tk_identity t))"
      "w_sessions w s = Some (Upgrading t)" "open_subscribe E t (w_app w) = (c, w_app w')"
      "w_sessions w' = (w_sessions w)(s \<mapsto> Subscribed t c)"
  | (registered) s t c where "actor = Some (co_tenant_id c)" "w_sessions w s = Some (Subscribed t c)"
      "w_app w' = open_register c (w_app w)" "w_sessions w' = (w_sessions w)(s \<mapsto> Registered t c)"
  | (opened) s t c ok now where "actor = Some (co_tenant_id c)" "w_sessions w s = Some (Registered t c)"
      "open_ready E c (w_app w) = (ok, w_app w')"
      "w_sessions w' = (w_sessions w)(s \<mapsto>
         (if ok then Live (live_new t c (st_config (w_app w')) now) else Leaving t c False))"
  | (reader) s v clk input r l where "actor = Some (co_tenant_id (lv_conn v))"
      "w_sessions w s = Some (Live v)" "lv_reader v = Running"
      "reader_step E clk (lv_conn v) input (lv_limiter v, w_app w) = (r, l, w_app w')"
      "w_sessions w' = (w_sessions w)(s \<mapsto> Live (v\<lparr>lv_reader := r, lv_limiter := l\<rparr>))"
  | (writer) s v out r frame holding where "actor = Some (co_tenant_id (lv_conn v))"
      "w_sessions w s = Some (Live v)" "lv_writer v = Running"
      "writer_step E (lv_conn v) out (lv_holding v, w_app w) = Some (r, frame, holding, w_app w')"
      "w_sessions w' = (w_sessions w)(s \<mapsto> Live (v\<lparr>lv_writer := r, lv_holding := holding,
         lv_wire := lv_wire v @ (case frame of Some f \<Rightarrow> [f] | None \<Rightarrow> [])\<rparr>))"
  | (fanout) s v r where "actor = Some (co_tenant_id (lv_conn v))"
      "w_sessions w s = Some (Live v)" "lv_fanout v = Running"
      "fanout_step E (lv_conn v) (w_app w) = Some (r, w_app w')"
      "w_sessions w' = (w_sessions w)(s \<mapsto> Live (v\<lparr>lv_fanout := r\<rparr>))"
  | (task_over) s v completed result where "actor = Some (co_tenant_id (lv_conn v))"
      "w_sessions w s = Some (Live v)" "task_of completed v = Finished result"
      "w_app w' = abort_others E completed (lv_conn v) (lv_writer v) (lv_fanout v) (w_app w)"
      "w_sessions w' = (w_sessions w)(s \<mapsto> Unregistering (lv_ticket v) (lv_conn v))"
  | (unregister_get) s t c where "actor = Some (co_tenant_id c)"
      "w_sessions w s = Some (Unregistering t c)" "w_app w' = w_app w"
      "w_sessions w' = (w_sessions w)(s \<mapsto> Leaving t c
         (unregister_check (co_client_id c) (co_tenant_id c) (co_connection_id c) (w_app w)))"
  | (unregister_entry) s t c where "actor = Some (co_tenant_id c)"
      "w_sessions w s = Some (Leaving t c True)"
      "w_app w' = unregister_remove (co_client_id c) (co_tenant_id c) (w_app w)"
      "w_sessions w' = (w_sessions w)(s \<mapsto> Leaving t c False)"
  | (left) s t c now where "actor = None" "w_sessions w s = Some (Leaving t c False)"
      "w_app w' = handle_socket_end E now t (w_app w)" "w_sessions w' = (w_sessions w)(s := None)"
  | (called) "api_call E actor (w_app w) (w_app w')" "w_sessions w' = w_sessions w"
  using assms
proof (cases rule: step.cases)
  case (request query peer headers)
  with that(1) [of query peer headers] show thesis by simp
next
  case (handled s g keys clk now_secs g' st)
  with that(2) show thesis by simp
next
  case (refused s g keys clk now_secs status msg st)
  with that(2) show thesis by simp
next
  case (admitted s g keys clk now_secs t st)
  with that(2) show thesis by simp
next
  case (upgrade_failed s t now)
  with that(3) show thesis by simp
next
  case (subscribed s t c st)
  with that(4) show thesis by simp
next
  case (registered s t c)
  with that(5) show thesis by simp
next
  case (opened s t c st now)
  with that(6) [of c s t True now] show thesis by simp
next
  case (open_failed s t c st)
  with that(6) [of c s t False 0] show thesis by simp
next
  case (reader s v clk input r l st)
  with that(7) show thesis by simp
next
  case (writer s v out r frame holding st)
  with that(8) show thesis by simp
next
  case (fanout s v r st)
  with that(9) show thesis by simp
next
  case (task_over s v completed result)
  with that(10) show thesis by simp
next
  case (unregister_get s t c)
  with that(11) show thesis by simp
next
  case (unregister_entry s t c)
  with that(12) show thesis by simp
next
  case (left s t c now)
  with that(13) show thesis by simp
next
  case (published now_secs headers pbody response st)
  with that(14) api_call_intros(1) [OF published(3)] show thesis by simp
next
  case (sent_direct now_secs headers dbody response st)
  with that(14) api_call_intros(2) [OF sent_direct(3)] show thesis by simp
qed

section \<open>Sessions and handlers\<close>

text \<open>Finitely many sessions, numbered below the next number.\<close>

definition sessions_wf :: "('s, 'b, 'q, 'k) world \<Rightarrow> bool" where
  "sessions_wf w \<longleftrightarrow> finite (dom (w_sessions w)) \<and> (\<forall>s. w_next w \<le> s \<longrightarrow> w_sessions w s = None)"

lemma sessions_wf_step:
  assumes "step E w actor w'" "sessions_wf w"
  shows "sessions_wf w'"
  using assms(1) by (rule step_cases) (use assms(2) in \<open>auto simp: sessions_wf_def\<close>)

lemma sessions_where_finite: "sessions_wf w \<Longrightarrow> finite (sessions_where P w)"
  by (rule finite_subset [where B = "dom (w_sessions w)"]) (auto simp: sessions_where_def sessions_wf_def)

text \<open>There are never more handlers than workers.\<close>

lemma handlers_put:
  assumes "w_sessions w s = Some x" "session_ticket x = None \<or> session_ticket y \<noteq> None"
    and "sessions_wf w"
  shows "handlers (put_session s y st w) \<le> handlers w"
  unfolding handlers_def
  by (intro card_mono sessions_where_finite assms(3))
     (use assms(1,2) in \<open>auto simp: sessions_where_def split: if_splits\<close>)

lemma handlers_end: "sessions_wf w \<Longrightarrow> handlers (end_session s st w) \<le> handlers w"
  unfolding handlers_def
  by (intro card_mono sessions_where_finite) (auto simp: sessions_where_def split: if_splits)

lemma handlers_start:
  assumes "sessions_wf w"
  shows "handlers (start_session x st w) \<le> Suc (handlers w)"
proof -
  have "sessions_where (\<lambda>x. session_ticket x = None) (start_session x st w)
      \<subseteq> insert (w_next w) (sessions_where (\<lambda>x. session_ticket x = None) w)"
    by (auto simp: sessions_where_def split: if_splits)
  then have "handlers (start_session x st w)
      \<le> card (insert (w_next w) (sessions_where (\<lambda>x. session_ticket x = None) w))"
    unfolding handlers_def using sessions_where_finite [OF assms] by (intro card_mono) simp_all
  also have "\<dots> \<le> Suc (handlers w)" unfolding handlers_def by (rule card_insert_le_m1) simp_all
  finally show ?thesis .
qed

lemma handlers_app [simp]: "handlers (w\<lparr>w_app := st\<rparr>) = handlers w"
  by (simp add: handlers_def sessions_where_def)

lemma handlers_step:
  assumes "step E w actor w'" "sessions_wf w" "handlers w \<le> env_workers E"
  shows "handlers w' \<le> env_workers E"
proof -
  have put: "handlers (put_session s y st w) \<le> env_workers E"
    if "w_sessions w s = Some x" "session_ticket x = None \<or> session_ticket y \<noteq> None" for s x y st
    using handlers_put [OF that assms(2)] assms(3) by (rule le_trans)
  have end_s: "handlers (end_session s st w) \<le> env_workers E" for s st
    using handlers_end [OF assms(2)] assms(3) by (rule le_trans)
  from assms(1) show ?thesis
  proof (rule step_cases)
    fix query peer headers
    assume "handlers w < env_workers E"
      "w' = start_session (Handling (Arrived query peer headers)) (w_app w) w"
    with handlers_start [OF assms(2)] show ?thesis by (metis Suc_leI le_trans)
  qed (use assms(3) in \<open>auto intro: put end_s\<close>)
qed

lemma sessions_wf_new: "sessions_wf (world_new E cfg)"
  by (simp add: sessions_wf_def world_new_def)

section \<open>What the parts of a step leave alone\<close>

lemma open_subscribe_control:
  assumes "open_subscribe E t st = (c, st')"
  shows "st_config st' = st_config st" "st_connection_limit st' = st_connection_limit st"
    "st_tenant_limits st' = st_tenant_limits st" "st_ip_limiter st' = st_ip_limiter st"
    "st_auth st' = st_auth st" "st_clients st' = st_clients st"
    "st_tenant_rate_limits st' = st_tenant_rate_limits st"
    "st_next_chan st' = Suc (st_next_chan st)" "co_tx c = st_next_chan st"
    "co_connection_id c = st_next_connection_id st"
    "m_active_connections (st_metrics st') = m_active_connections (st_metrics st) + 1"
    "co_tenant_id c = ai_tenant_id (tk_identity t)" "co_topic_key c \<in> tenant_keys (co_tenant_id c)"
    "a \<noteq> co_tx c \<Longrightarrow> st_chans st' a = st_chans st a"
    "k \<noteq> co_topic_key c \<Longrightarrow> st_topics st' k = st_topics st k"
    "co_client_id c = ai_client_id (tk_identity t)"
proof -
  from assms obtain st1 st2 where
    ch: "new_channel E (count_metric connection_accepted st) = (co_tx c, st1)" and
    sub: "subscribe E (co_topic_key c) st1 = (co_rx c, st2)" and
    id: "co_connection_id c = st_next_connection_id st2" and
    st': "st' = st2\<lparr>st_next_connection_id := co_connection_id c + 1\<rparr>" and
    who: "co_tenant_id c = ai_tenant_id (tk_identity t)" "co_client_id c = ai_client_id (tk_identity t)"
      "co_topic_key c = tenant_topic (co_tenant_id c) (normalize_topic (tk_topic t))"
    by (rule open_subscribe_eq)
  from sub obtain b where st2: "st2 = put_topic (co_topic_key c) b st1" by (rule subscribe_eq)
  show "st_config st' = st_config st" "st_connection_limit st' = st_connection_limit st"
    "st_tenant_limits st' = st_tenant_limits st" "st_ip_limiter st' = st_ip_limiter st"
    "st_auth st' = st_auth st" "st_clients st' = st_clients st"
    "st_tenant_rate_limits st' = st_tenant_rate_limits st"
    "st_next_chan st' = Suc (st_next_chan st)" "co_tx c = st_next_chan st"
    "co_connection_id c = st_next_connection_id st"
    "m_active_connections (st_metrics st') = m_active_connections (st_metrics st) + 1"
    "a \<noteq> co_tx c \<Longrightarrow> st_chans st' a = st_chans st a"
    "k \<noteq> co_topic_key c \<Longrightarrow> st_topics st' k = st_topics st k"
    using id ch by (auto simp: st' st2 put_topic_def new_channel_def metrics_ops)
  show "co_tenant_id c = ai_tenant_id (tk_identity t)" "co_topic_key c \<in> tenant_keys (co_tenant_id c)"
    "co_client_id c = ai_client_id (tk_identity t)" using who by simp_all
qed

lemma open_register_frame [frame_simps]:
  "st_config (open_register c st) = st_config st"
  "st_connection_limit (open_register c st) = st_connection_limit st"
  "st_tenant_limits (open_register c st) = st_tenant_limits st"
  "st_ip_limiter (open_register c st) = st_ip_limiter st"
  "st_auth (open_register c st) = st_auth st"
  "st_tenant_rate_limits (open_register c st) = st_tenant_rate_limits st"
  "st_topics (open_register c st) = st_topics st"
  "st_chans (open_register c st) = st_chans st"
  "st_next_chan (open_register c st) = st_next_chan st"
  "st_metrics (open_register c st) = st_metrics st"
  by (simp_all add: open_register_def register_client_def)

lemma open_register_entry:
  "st_clients (open_register c st) = (st_clients st)((co_tenant_id c, co_client_id c) \<mapsto>
     \<lparr>ch_connection_id = co_connection_id c, ch_sender = co_tx c\<rparr>)"
  by (simp add: open_register_def register_client_def)

lemma open_connection_control:
  assumes "open_connection E t st = ((ok, c), st')"
  shows "co_connection_id c = st_next_connection_id st"
    "st_clients st' = (st_clients st)((co_tenant_id c, co_client_id c) \<mapsto>
       \<lparr>ch_connection_id = co_connection_id c, ch_sender = co_tx c\<rparr>)"
    "m_active_connections (st_metrics st') = m_active_connections (st_metrics st) + 1"
    "co_tenant_id c = ai_tenant_id (tk_identity t)" "co_client_id c = ai_client_id (tk_identity t)"
proof -
  from assms obtain st1 where sub: "open_subscribe E t st = (c, st1)"
    and "open_ready E c (open_register c st1) = (ok, st')" by (rule open_connection_eq)
  then have "touches UNIV UNIV (open_register c st1) st'" by (auto intro: touches_open_ready)
  note same = touches_control [OF this]
  show "co_connection_id c = st_next_connection_id st"
    "st_clients st' = (st_clients st)((co_tenant_id c, co_client_id c) \<mapsto>
       \<lparr>ch_connection_id = co_connection_id c, ch_sender = co_tx c\<rparr>)"
    "m_active_connections (st_metrics st') = m_active_connections (st_metrics st) + 1"
    "co_tenant_id c = ai_tenant_id (tk_identity t)" "co_client_id c = ai_client_id (tk_identity t)"
    unfolding same using open_subscribe_control [OF sub]
    by (simp_all add: open_register_entry open_register_frame)
qed

lemma drop_ticket_frame [frame_simps]:
  "st_config (drop_ticket E now t st) = st_config st"
  "st_clients (drop_ticket E now t st) = st_clients st"
  "st_topics (drop_ticket E now t st) = st_topics st"
  "st_chans (drop_ticket E now t st) = st_chans st"
  "st_next_chan (drop_ticket E now t st) = st_next_chan st"
  "st_metrics (drop_ticket E now t st) = st_metrics st"
  by (simp_all add: drop_ticket_def drop_slot_def frame_simps drop_tenant_def
      drop_tenant_permit_def split: option.split)

lemma handle_socket_end_frame [frame_simps]:
  "st_config (handle_socket_end E now t st) = st_config st"
  "st_clients (handle_socket_end E now t st) = st_clients st"
  "st_topics (handle_socket_end E now t st) = st_topics st"
  "st_chans (handle_socket_end E now t st) = st_chans st"
  "st_next_chan (handle_socket_end E now t st) = st_next_chan st"
  by (simp_all add: handle_socket_end_def drop_ticket_frame)

text \<open>The steps that only move messages and change a session in place.\<close>

lemma task_steps_touch:
  "reader_step E clk c input (l, st) = (r, l', st') \<Longrightarrow> touches UNIV UNIV st st'"
  "writer_step E c out (holding, st) = Some (r, frame, holding', st') \<Longrightarrow> touches UNIV UNIV st st'"
  "fanout_step E c st = Some (r, st') \<Longrightarrow> touches UNIV UNIV st st'"
  "touches UNIV UNIV st (abort_others E completed c writer fanout st)"
  "api_publish E now_secs headers pbody st = (response, st') \<Longrightarrow> touches UNIV UNIV st st'"
  "api_direct E now_secs headers dbody st = (response, st') \<Longrightarrow> touches UNIV UNIV st st'"
  "open_ready E c st = (ok, st') \<Longrightarrow> touches UNIV UNIV st st'"
  "api_call E actor st st' \<Longrightarrow> touches UNIV UNIV st st'"
  by (auto intro: touching.R_reader_step touches_writer_step touches_fanout_step
      touches_abort_others touching.R_api_publish touching.R_api_direct touches_open_ready
      touching.R_api_call)

text \<open>What every part of a step leaves alone, no step changes.\<close>

locale kept_field =
  fixes E :: "('s, 'b, 'q, 'k, 'v) env" and f :: "('s, 'b, 'q, 'k) app_state \<Rightarrow> 'a"
  assumes kept_stage: "ws_stage_step E keys clk now_secs g st = (r, st') \<Longrightarrow> f st' = f st"
    and kept_drop: "f (drop_ticket E now t st) = f st"
    and kept_subscribe: "open_subscribe E t st = (c, st') \<Longrightarrow> f st' = f st"
    and kept_register: "f (open_register c st) = f st"
    and kept_touches: "touches UNIV UNIV st st' \<Longrightarrow> f st' = f st"
    and kept_remove: "f (unregister_remove cl tn st) = f st"
    and kept_end: "f (handle_socket_end E now t st) = f st"
begin

lemma kept_step: "step E w actor w' \<Longrightarrow> f (w_app w') = f (w_app w)"
  by (cases rule: step_kinds)
     (auto simp: kept_drop kept_register kept_remove kept_end kept_touches [OF task_steps_touch(4)]
       intro: kept_stage kept_subscribe kept_touches task_steps_touch)

lemma kept_reachable: "reachable E cfg w \<Longrightarrow> f (w_app w) = f (app_state_new E cfg)"
  by (induction rule: reachable.induct) (simp_all add: world_new_def kept_step)

end

interpretation kept_config: kept_field E st_config for E
  by unfold_locales
     (simp_all add: ws_stage_frame frame_simps open_subscribe_control touches_control(1) unregister_remove_def)

end
