(* ===== verification/Registry.thy ===== *)
theory Registry
  imports Server
begin

text \<open>
  Whose queue is whose: the entries of the registry are connections of sessions, the queues
  of distinct sessions are distinct, and no entry leads to another tenant's session.
\<close>

section \<open>The registry\<close>

text \<open>
  An entry of the registry is the connection of a session that has not removed it yet; the
  queues of distinct sessions are distinct, and older than the next address.
\<close>

definition handle_of :: "conn \<Rightarrow> client_handle" where
  "handle_of c = \<lparr>ch_connection_id = co_connection_id c, ch_sender = co_tx c\<rparr>"

definition registry_ok :: "('s, 'b, 'q, 'k) app_state \<Rightarrow> (nat \<rightharpoonup> session) \<Rightarrow> bool" where
  "registry_ok st m \<longleftrightarrow>
     (\<forall>t cl h. st_clients st (t, cl) = Some h \<longrightarrow>
        (\<exists>s x c. m s = Some x \<and> registered_conn x = Some c \<and>
           co_tenant_id c = t \<and> co_client_id c = cl \<and> h = handle_of c))"

definition queues_distinct :: "('s, 'b, 'q, 'k) app_state \<Rightarrow> (nat \<rightharpoonup> session) \<Rightarrow> bool" where
  "queues_distinct st m \<longleftrightarrow>
     (\<forall>s x c. m s = Some x \<longrightarrow> session_conn x = Some c \<longrightarrow>
        co_tx c < st_next_chan st \<and> session_tenant x = Some (co_tenant_id c) \<and>
        co_topic_key c \<in> tenant_keys (co_tenant_id c) \<and>
        (\<forall>s' x' c'. m s' = Some x' \<longrightarrow> session_conn x' = Some c' \<longrightarrow> s' \<noteq> s \<longrightarrow> co_tx c' \<noteq> co_tx c))"

lemma registered_session_conn: "registered_conn x = Some c \<Longrightarrow> session_conn x = Some c"
  by (cases x rule: registered_conn.cases) auto

lemma registry_ok_change:
  assumes "registry_ok st m" "st_clients st' = st_clients st"
    and "\<And>s x c. m s = Some x \<Longrightarrow> registered_conn x = Some c \<Longrightarrow>
           \<exists>y. m' s = Some y \<and> registered_conn y = Some c"
  shows "registry_ok st' m'"
  using assms unfolding registry_ok_def by metis

lemma registry_ok_put:
  assumes "registry_ok st m" "m s = Some x" "registered_conn y = registered_conn x"
    and "st_clients st' = st_clients st"
  shows "registry_ok st' (m(s \<mapsto> y))"
  using assms(1,4) by (rule registry_ok_change) (use assms(2,3) in auto)

lemma registry_ok_remove_unregistered:
  assumes "registry_ok st m" "m s = Some x" "registered_conn x = None"
    and "st_clients st' = st_clients st"
  shows "registry_ok st' (m(s := None))"
  using assms(1,4) by (rule registry_ok_change) (use assms(2,3) in auto)

lemma registry_ok_checked:
  assumes reg: "registry_ok st m" and s: "m s = Some (Unregistering t c)"
  defines "b \<equiv> unregister_check (co_client_id c) (co_tenant_id c) (co_connection_id c) st"
  shows "registry_ok st (m(s \<mapsto> Leaving t c b))"
  unfolding registry_ok_def
proof (intro allI impI)
  fix u cl h assume h: "st_clients st (u, cl) = Some h"
  with reg obtain s' x c' where x: "m s' = Some x" "registered_conn x = Some c'"
    "co_tenant_id c' = u" "co_client_id c' = cl" "h = handle_of c'"
    unfolding registry_ok_def by blast
  show "\<exists>s' x c'. (m(s \<mapsto> Leaving t c b)) s' = Some x \<and> registered_conn x = Some c' \<and>
      co_tenant_id c' = u \<and> co_client_id c' = cl \<and> h = handle_of c'"
  proof (cases "s' = s")
    case True
    with x s have "c' = c" by auto
    with x h have b by (simp add: b_def unregister_check_def handle_of_def)
    with x s True show ?thesis by (intro exI [of _ s]) auto
  next
    case False
    with x show ?thesis by (intro exI [of _ s']) auto
  qed
qed

lemma registry_ok_removed:
  assumes reg: "registry_ok st m" and s: "m s = Some (Leaving t c True)"
  shows "registry_ok (unregister_remove (co_client_id c) (co_tenant_id c) st)
           (m(s \<mapsto> Leaving t c False))"
  unfolding registry_ok_def
proof (intro allI impI)
  fix u cl h
  assume "st_clients (unregister_remove (co_client_id c) (co_tenant_id c) st) (u, cl) = Some h"
  then have h: "st_clients st (u, cl) = Some h" and other: "(u, cl) \<noteq> (co_tenant_id c, co_client_id c)"
    by (auto simp: unregister_remove_def split: if_splits)
  with reg obtain s' x c' where x: "m s' = Some x" "registered_conn x = Some c'"
    "co_tenant_id c' = u" "co_client_id c' = cl" "h = handle_of c'"
    unfolding registry_ok_def by blast
  with other s have "s' \<noteq> s" by auto
  with x show "\<exists>s' x c'. (m(s \<mapsto> Leaving t c False)) s' = Some x \<and> registered_conn x = Some c' \<and>
      co_tenant_id c' = u \<and> co_client_id c' = cl \<and> h = handle_of c'"
    by (intro exI [of _ s']) auto
qed

lemma registry_ok_registered:
  assumes reg: "registry_ok st m" and s: "m s = Some (Subscribed t c)"
  shows "registry_ok (open_register c st) (m(s \<mapsto> Registered t c))"
  unfolding registry_ok_def
proof (intro allI impI)
  fix u cl h assume h: "st_clients (open_register c st) (u, cl) = Some h"
  show "\<exists>s' x c'. (m(s \<mapsto> Registered t c)) s' = Some x \<and> registered_conn x = Some c' \<and>
      co_tenant_id c' = u \<and> co_client_id c' = cl \<and> h = handle_of c'"
  proof (cases "(u, cl) = (co_tenant_id c, co_client_id c)")
    case True
    with h show ?thesis
      unfolding open_register_entry by (intro exI [of _ s]) (auto simp: handle_of_def)
  next
    case False
    with h have "st_clients st (u, cl) = Some h" unfolding open_register_entry by auto
    with reg obtain s' x c' where x: "m s' = Some x" "registered_conn x = Some c'"
      "co_tenant_id c' = u" "co_client_id c' = cl" "h = handle_of c'"
      unfolding registry_ok_def by blast
    with s have "s' \<noteq> s" by auto
    with x show ?thesis by (intro exI [of _ s']) auto
  qed
qed

text \<open>
  The registry stays sound as long as the \<open>Ready\<close> event can be encoded: the early return of
  \<open>connection_loop\<close> would leave the entry behind.
\<close>

definition encodes_ready :: "'v codec \<Rightarrow> bool" where
  "encodes_ready cd \<longleftrightarrow> (\<forall>topic client_id. encode_server_event cd (Ready topic client_id) \<noteq> None)"

lemma open_ready_ok:
  "encodes_ready (env_codec E) \<Longrightarrow> open_ready E c st = (ok, st') \<Longrightarrow> ok"
  by (rule open_ready_eq, assumption) (auto simp: encodes_ready_def simp del: not_None_eq)

lemma registry_step:
  assumes step: "step E w actor w'" and ready: "encodes_ready (env_codec E)"
    and wf: "sessions_wf w" and reg: "registry_ok (w_app w) (w_sessions w)"
  shows "registry_ok (w_app w') (w_sessions w')"
proof -
  have fresh: "w_sessions w (w_next w) = None" using wf by (simp add: sessions_wf_def)
  have swap: "registry_ok st ((w_sessions w)(s \<mapsto> y))"
    if "w_sessions w s = Some x" "touches UNIV UNIV (w_app w) st" "registered_conn y = registered_conn x"
    for s x y st using registry_ok_put [OF reg that(1,3) touches_control(6) [OF that(2)]] .
  from step show ?thesis
  proof (cases rule: step_kinds)
    case (request query peer headers)
    show ?thesis by (rule registry_ok_change [OF reg]) (use fresh request in auto)
  next
    case (staged s g keys clk now_secs r)
    note same = ws_stage_frame(2) [OF staged(3)]
    from registry_ok_put [OF reg staged(2) _ same] registry_ok_remove_unregistered [OF reg staged(2) _ same]
    show ?thesis by (cases r rule: stage_session.cases) (simp_all add: staged(4))
  next
    case (dropped s t now)
    with registry_ok_remove_unregistered [OF reg dropped(2) _ drop_ticket_frame(2)] show ?thesis by simp
  next
    case (subscribed s t c)
    with registry_ok_put [OF reg subscribed(2) _ open_subscribe_control(6) [OF subscribed(3)]]
    show ?thesis by simp
  next
    case (opened s t c ok now)
    with open_ready_ok [OF ready opened(3)] swap [OF opened(2) task_steps_touch(7) [OF opened(3)]]
    show ?thesis by (simp add: live_new_def)
  next
    case (left s t c now)
    with registry_ok_remove_unregistered [OF reg left(2) _ handle_socket_end_frame(2)] show ?thesis by simp
  next
    case called
    with registry_ok_change [OF reg touches_control(6) [OF task_steps_touch(8) [OF called(1)]]]
    show ?thesis by simp
  qed (auto simp: task_steps_touch registry_ok_checked [OF reg] registry_ok_removed [OF reg] registry_ok_registered [OF reg]
      intro: swap task_steps_touch)
qed

section \<open>Queues of their own\<close>

lemma queues_distinct_change:
  assumes "queues_distinct st m" "st_next_chan st' = st_next_chan st"
    and "\<And>s y c. m' s = Some y \<Longrightarrow> session_conn y = Some c \<Longrightarrow>
           \<exists>x. m s = Some x \<and> session_conn x = Some c \<and> session_tenant x = session_tenant y"
  shows "queues_distinct st' m'"
  unfolding queues_distinct_def
proof (intro allI impI conjI)
  fix s y c assume y: "m' s = Some y" "session_conn y = Some c"
  from assms(3) [OF this] obtain x where x: "m s = Some x" "session_conn x = Some c"
    "session_tenant x = session_tenant y" by blast
  with assms(1,2) show "co_tx c < st_next_chan st'" "session_tenant y = Some (co_tenant_id c)"
    "co_topic_key c \<in> tenant_keys (co_tenant_id c)"
    unfolding queues_distinct_def by metis+
  fix s' y' c' assume "m' s' = Some y'" "session_conn y' = Some c'" "s' \<noteq> s"
  with assms(1) x assms(3) show "co_tx c' \<noteq> co_tx c"
    unfolding queues_distinct_def by meson
qed

lemma queues_distinct_put:
  assumes "queues_distinct st m" "m s = Some x" "st_next_chan st' = st_next_chan st"
    and "session_conn y = session_conn x" "session_ticket y = session_ticket x"
  shows "queues_distinct st' (m(s \<mapsto> y))"
  using assms(1,3)
proof (rule queues_distinct_change)
  fix s' y' c assume "(m(s \<mapsto> y)) s' = Some y'" "session_conn y' = Some c"
  then show "\<exists>x. m s' = Some x \<and> session_conn x = Some c \<and> session_tenant x = session_tenant y'"
    using assms(2,4,5) by (cases "s' = s") (auto simp: session_tenant_def)
qed

lemma queues_distinct_opened:
  assumes dist: "queues_distinct st m" and op: "open_subscribe E t st = (c, st')"
    and y: "session_conn y = Some c" "session_ticket y = Some t"
  shows "queues_distinct st' (m(s \<mapsto> y))"
proof -
  note tx = open_subscribe_control(8,9) [OF op]
  have old: "co_tx c' < st_next_chan st" if "m s' = Some x'" "session_conn x' = Some c'" for s' x' c'
    using dist that unfolding queues_distinct_def by blast
  have c: "session_tenant y = Some (co_tenant_id c)" "co_topic_key c \<in> tenant_keys (co_tenant_id c)"
    using open_subscribe_control(12,13) [OF op] by (simp_all add: session_tenant_def y(2))
  show ?thesis
    unfolding queues_distinct_def
  proof (intro allI impI conjI)
    fix s1 x1 c1 assume x1: "(m(s \<mapsto> y)) s1 = Some x1" "session_conn x1 = Some c1"
    have cases1: "s1 = s \<and> x1 = y \<and> c1 = c \<or> s1 \<noteq> s \<and> m s1 = Some x1"
      using x1 y(1) by (auto split: if_splits)
    then show "co_tx c1 < st_next_chan st'" using x1(2) old tx by fastforce
    show "session_tenant x1 = Some (co_tenant_id c1)" "co_topic_key c1 \<in> tenant_keys (co_tenant_id c1)"
      using cases1 x1(2) c dist unfolding queues_distinct_def by metis+
    fix s2 x2 c2 assume x2: "(m(s \<mapsto> y)) s2 = Some x2" "session_conn x2 = Some c2" and ne: "s2 \<noteq> s1"
    have "s2 = s \<and> c2 = c \<or> s2 \<noteq> s \<and> m s2 = Some x2" using x2 y(1) by (auto split: if_splits)
    with cases1 x1(2) x2(2) ne old tx dist show "co_tx c2 \<noteq> co_tx c1"
      unfolding queues_distinct_def by (metis less_irrefl)
  qed
qed

lemma queues_distinctD:
  assumes "queues_distinct st m" "m s = Some x" "session_conn x = Some c"
  shows "co_tx c < st_next_chan st" "session_tenant x = Some (co_tenant_id c)"
    "co_topic_key c \<in> tenant_keys (co_tenant_id c)"
  using assms unfolding queues_distinct_def by blast+

lemma queues_distinct_step:
  assumes step: "step E w actor w'" and wf: "sessions_wf w"
    and dist: "queues_distinct (w_app w) (w_sessions w)"
  shows "queues_distinct (w_app w') (w_sessions w')"
proof -
  have fresh: "w_sessions w (w_next w) = None" using wf by (simp add: sessions_wf_def)
  have over: "queues_distinct (w_app w') (w_sessions w')"
    if "st_next_chan (w_app w') = st_next_chan (w_app w)" "w_sessions w' = (w_sessions w)(s := y)"
      "\<And>z. y = Some z \<Longrightarrow> session_conn z = None" for s y
    by (rule queues_distinct_change [OF dist that(1)]) (use that(2,3) in \<open>auto split: if_splits\<close>)
  have swap: "queues_distinct st ((w_sessions w)(s \<mapsto> y))"
    if "w_sessions w s = Some x" "touches UNIV UNIV (w_app w) st"
      "session_conn y = session_conn x" "session_ticket y = session_ticket x" for s x y st
    using queues_distinct_put [OF dist that(1) touches_control(8) [OF that(2)] that(3,4)] .
  from step show ?thesis
  proof (cases rule: step_kinds)
    case (request query peer headers)
    then show ?thesis by (intro over) auto
  next
    case (staged s g keys clk now_secs r)
    with ws_stage_frame(5) [OF staged(3)] show ?thesis
      by (intro over) (auto dest: stage_session_conn)
  next
    case (dropped s t now)
    then show ?thesis by (intro over) (auto simp: frame_simps)
  next
    case (subscribed s t c)
    with queues_distinct_opened [OF dist subscribed(3)] show ?thesis by simp
  next
    case (registered s t c)
    with queues_distinct_put [OF dist registered(2), of _ "Registered t c"] open_register_frame(9) [of c "w_app w"]
    show ?thesis by simp
  next
    case (unregister_entry s t c)
    with queues_distinct_put [OF dist unregister_entry(2), of "w_app w'" "Leaving t c False"] show ?thesis
      by (simp add: unregister_remove_def)
  next
    case (left s t c now)
    then show ?thesis by (intro over) (auto simp: frame_simps)
  next
    case called
    with queues_distinct_change [OF dist touches_control(8) [OF task_steps_touch(8) [OF called(1)]]]
    show ?thesis by simp
  qed (auto simp: task_steps_touch live_new_def intro: swap task_steps_touch)
qed

section \<open>The tenant of an entry\<close>

text \<open>
  An entry under a tenant's name never leads to the queue of a session of another tenant, also
  where the entry has outlived its own session.
\<close>

definition entries_own :: "('s, 'b, 'q, 'k) app_state \<Rightarrow> (nat \<rightharpoonup> session) \<Rightarrow> bool" where
  "entries_own st m \<longleftrightarrow>
     (\<forall>t cl h. st_clients st (t, cl) = Some h \<longrightarrow>
        ch_sender h < st_next_chan st \<and>
        (\<forall>s x c. m s = Some x \<longrightarrow> session_conn x = Some c \<longrightarrow> co_tx c = ch_sender h \<longrightarrow>
           co_tenant_id c = t))"

lemma entries_own_change:
  assumes "entries_own st m" "st_next_chan st' = st_next_chan st"
    and "\<And>k h. st_clients st' k = Some h \<Longrightarrow> st_clients st k = Some h"
    and "\<And>s y c. m' s = Some y \<Longrightarrow> session_conn y = Some c \<Longrightarrow>
           \<exists>s x. m s = Some x \<and> session_conn x = Some c"
  shows "entries_own st' m'"
  unfolding entries_own_def
proof (intro allI impI conjI)
  fix t cl h assume "st_clients st' (t, cl) = Some h"
  then have h: "st_clients st (t, cl) = Some h" by (rule assms(3))
  with assms(1,2) show "ch_sender h < st_next_chan st'" unfolding entries_own_def by metis
  fix s y c assume "m' s = Some y" "session_conn y = Some c" and tx: "co_tx c = ch_sender h"
  then obtain s' x where "m s' = Some x" "session_conn x = Some c" using assms(4) by blast
  with assms(1) h tx show "co_tenant_id c = t" unfolding entries_own_def by blast
qed

lemma entries_own_put:
  assumes "entries_own st m" "m s = Some x" "st_next_chan st' = st_next_chan st"
    and "\<And>k h. st_clients st' k = Some h \<Longrightarrow> st_clients st k = Some h"
    and "session_conn y = session_conn x"
  shows "entries_own st' (m(s \<mapsto> y))"
  using assms(1,3,4)
  by (rule entries_own_change) (use assms(2,5) in \<open>auto split: if_splits\<close>)

lemma entries_own_over:
  assumes "entries_own st m" "st_next_chan st' = st_next_chan st" "st_clients st' = st_clients st"
    and "\<And>z. y = Some z \<Longrightarrow> session_conn z = None"
  shows "entries_own st' (m(s := y))"
  using assms(1,2)
  by (rule entries_own_change) (use assms(3,4) in \<open>auto split: if_splits\<close>)

lemma entries_own_subscribed:
  assumes own: "entries_own st m" and op: "open_subscribe E t st = (c, st')"
    and y: "session_conn y = Some c"
  shows "entries_own st' (m(s \<mapsto> y))"
  unfolding entries_own_def
proof (intro allI impI conjI)
  note ctl = open_subscribe_control [OF op]
  fix u cl h assume "st_clients st' (u, cl) = Some h"
  with own ctl(6) have old: "ch_sender h < st_next_chan st" and mine: "m s' = Some x \<Longrightarrow>
      session_conn x = Some c' \<Longrightarrow> co_tx c' = ch_sender h \<Longrightarrow> co_tenant_id c' = u" for s' x c'
    unfolding entries_own_def by metis+
  from old ctl(8) show "ch_sender h < st_next_chan st'" by simp
  fix s' x c' assume "(m(s \<mapsto> y)) s' = Some x" "session_conn x = Some c'" "co_tx c' = ch_sender h"
  with old ctl(9) y mine show "co_tenant_id c' = u" by (auto split: if_splits)
qed

lemma entries_own_registered:
  assumes own: "entries_own st m" and dist: "queues_distinct st m"
    and s: "m s = Some x" "session_conn x = Some c" "session_conn y = Some c"
  shows "entries_own (open_register c st) (m(s \<mapsto> y))"
  unfolding entries_own_def
proof (intro allI impI conjI)
  fix u cl h assume "st_clients (open_register c st) (u, cl) = Some h"
  then consider "u = co_tenant_id c" "ch_sender h = co_tx c" | "st_clients st (u, cl) = Some h"
    unfolding open_register_entry by (auto split: if_splits)
  note entry = this
  from entry show "ch_sender h < st_next_chan (open_register c st)"
    by cases (use own queues_distinctD(1) [OF dist s(1,2)] in \<open>auto simp: entries_own_def open_register_frame\<close>)
  fix s' x' c' assume "(m(s \<mapsto> y)) s' = Some x'" "session_conn x' = Some c'"
    and tx: "co_tx c' = ch_sender h"
  then obtain x'' where x'': "m s' = Some x''" "session_conn x'' = Some c'"
    using s by (auto split: if_splits)
  from entry show "co_tenant_id c' = u"
  proof cases
    case 1
    with tx x'' s(1,2) dist have "s' = s" unfolding queues_distinct_def by metis
    with x'' s 1 show ?thesis by simp
  next
    case 2
    with own x'' tx show ?thesis unfolding entries_own_def by blast
  qed
qed

lemma entries_own_step:
  assumes step: "step E w actor w'" and wf: "sessions_wf w"
    and dist: "queues_distinct (w_app w) (w_sessions w)"
    and own: "entries_own (w_app w) (w_sessions w)"
  shows "entries_own (w_app w') (w_sessions w')"
proof -
  have swap: "entries_own st ((w_sessions w)(s \<mapsto> y))"
    if "w_sessions w s = Some x" "touches UNIV UNIV (w_app w) st" "session_conn y = session_conn x"
    for s x y st
    using entries_own_put [OF own that(1) touches_control(8) [OF that(2)] _ that(3)]
      touches_control(6) [OF that(2)] by simp
  from step show ?thesis
  proof (cases rule: step_kinds)
    case (request query peer headers)
    then show ?thesis by (auto intro: entries_own_over [OF own])
  next
    case (staged s g keys clk now_secs r)
    with ws_stage_frame(2,5) [OF staged(3)] show ?thesis
      by (auto intro: entries_own_over [OF own] dest: stage_session_conn)
  next
    case (dropped s t now)
    then show ?thesis by (auto intro: entries_own_over [OF own] simp: frame_simps)
  next
    case (subscribed s t c)
    with entries_own_subscribed [OF own subscribed(3)] show ?thesis by simp
  next
    case (registered s t c)
    with entries_own_registered [OF own dist registered(2), of c "Registered t c"] show ?thesis by simp
  next
    case (unregister_entry s t c)
    have "st_clients (w_app w) k = Some h" if "st_clients (w_app w') k = Some h" for k h
      using that by (simp add: unregister_entry(3) unregister_remove_def split: if_splits)
    with entries_own_put [OF own unregister_entry(2), of "w_app w'" "Leaving t c False"] show ?thesis
      by (simp add: unregister_entry(3,4) unregister_remove_def)
  next
    case (left s t c now)
    then show ?thesis by (auto intro: entries_own_over [OF own] simp: frame_simps)
  next
    case called
    with entries_own_change [OF own touches_control(8) [OF task_steps_touch(8) [OF called(1)]]]
      touches_control(6) [OF task_steps_touch(8) [OF called(1)]]
    show ?thesis by auto
  qed (auto simp: task_steps_touch live_new_def intro: swap task_steps_touch)
qed

end
