(* ===== verification/Isolation.thy ===== *)
theory Isolation
  imports Registry
begin

text \<open>A step of one tenant leaves the queues, topics and registry entries of the others alone.\<close>

section \<open>Tenants do not reach each other\<close>

text \<open>
  The queues of the sessions of a tenant, and all that a tenant's steps can reach: these, the
  queues its registry entries lead to, and its topics.
\<close>

definition session_queues :: "('s, 'b, 'q, 'k) world \<Rightarrow> rust_string \<Rightarrow> nat set" where
  "session_queues w t =
     {co_tx c | s x c. w_sessions w s = Some x \<and> session_conn x = Some c \<and> co_tenant_id c = t}"

definition reached_queues :: "('s, 'b, 'q, 'k) world \<Rightarrow> rust_string \<Rightarrow> nat set" where
  "reached_queues w t = session_queues w t \<union> tenant_queues t (w_app w)"

definition unchanged_for ::
    "rust_string \<Rightarrow> ('s, 'b, 'q, 'k) world \<Rightarrow> ('s, 'b, 'q, 'k) world \<Rightarrow> bool" where
  \<comment> \<open>the queues of the tenant's sessions, its topics and its registry entries are the same\<close>
  "unchanged_for u w w' \<longleftrightarrow>
     (\<forall>a \<in> session_queues w u. st_chans (w_app w') a = st_chans (w_app w) a) \<and>
     (\<forall>k \<in> tenant_keys u. st_topics (w_app w') k = st_topics (w_app w) k) \<and>
     (\<forall>cl. st_clients (w_app w') (u, cl) = st_clients (w_app w) (u, cl))"

lemma reached_queues_disjoint:
  assumes "queues_distinct (w_app w) (w_sessions w)" "entries_own (w_app w) (w_sessions w)"
    and "t \<noteq> u" and a: "a \<in> session_queues w u"
  shows "a \<notin> reached_queues w t"
proof
  from a obtain s x c where c: "w_sessions w s = Some x" "session_conn x = Some c"
    "co_tenant_id c = u" "co_tx c = a" by (auto simp: session_queues_def)
  assume "a \<in> reached_queues w t"
  then consider s' x' c' where "w_sessions w s' = Some x'" "session_conn x' = Some c'"
      "co_tenant_id c' = t" "co_tx c' = a"
    | cl h where "st_clients (w_app w) (t, cl) = Some h" "ch_sender h = a"
    by (auto simp: reached_queues_def session_queues_def tenant_queues_def)
  then show False
  proof cases
    case 1
    with c assms(1,3) show False unfolding queues_distinct_def by (metis option.inject)
  next
    case 2
    with c assms(2,3) show False unfolding entries_own_def by metis
  qed
qed

lemma unchanged_for_touches:
  assumes t: "touches (reached_queues w t) (tenant_keys t) (w_app w) (w_app w')" and "t \<noteq> u"
    and "char_colon \<notin> set t" "char_colon \<notin> set u" and dist: "queues_distinct (w_app w) (w_sessions w)"
    and own: "entries_own (w_app w) (w_sessions w)"
  shows "unchanged_for u w w'"
proof -
  have "k \<notin> tenant_keys t" if "k \<in> tenant_keys u" for k
    using tenant_keys_disjoint [OF assms(3,4,2)] that by blast
  then show ?thesis
    using t touches_control(6) [OF t] reached_queues_disjoint [OF dist own \<open>t \<noteq> u\<close>]
    by (auto simp: unchanged_for_def touches_def)
qed

lemma unchanged_for_refl [simp]: "unchanged_for u w w"
  by (simp add: unchanged_for_def)

lemma unchanged_for_subscribed:
  assumes op: "open_subscribe E t (w_app w) = (c, w_app w')"
    and u: "ai_tenant_id (tk_identity t) \<noteq> u"
    and colons: "char_colon \<notin> set (ai_tenant_id (tk_identity t))" "char_colon \<notin> set u"
    and dist: "queues_distinct (w_app w) (w_sessions w)"
  shows "unchanged_for u w w'"
proof -
  note ctl = open_subscribe_control [OF op]
  have "a \<noteq> co_tx c" if "a \<in> session_queues w u" for a
    using that queues_distinctD(1) [OF dist] ctl(9) by (fastforce simp: session_queues_def)
  moreover have "k \<noteq> co_topic_key c" if "k \<in> tenant_keys u" for k
    using tenant_keys_disjoint [OF colons u] that ctl(12,13) by auto
  ultimately show ?thesis using ctl(6,14,15) by (auto simp: unchanged_for_def)
qed

text \<open>A step of one tenant changes nothing for another, if their names are colon-free.\<close>

lemma session_reach:
  assumes dist: "queues_distinct (w_app w) (w_sessions w)"
    and s: "w_sessions w s = Some x" "session_conn x = Some c"
  shows "co_tx c \<in> reached_queues w (co_tenant_id c)"
    "co_topic_key c \<in> tenant_keys (co_tenant_id c)"
    "conn_queues c (w_app w) \<subseteq> reached_queues w (co_tenant_id c)"
    "conn_keys c \<subseteq> tenant_keys (co_tenant_id c)"
proof -
  show tx: "co_tx c \<in> reached_queues w (co_tenant_id c)"
    using s by (auto simp: reached_queues_def session_queues_def)
  show key: "co_topic_key c \<in> tenant_keys (co_tenant_id c)" using queues_distinctD(3) [OF dist s] .
  show "conn_queues c (w_app w) \<subseteq> reached_queues w (co_tenant_id c)"
    using tx by (auto simp: conn_queues_def reached_queues_def)
  show "conn_keys c \<subseteq> tenant_keys (co_tenant_id c)" using key by (auto simp: conn_keys_def)
qed

lemma step_isolation:
  assumes step: "step E w actor w'" and dist: "queues_distinct (w_app w) (w_sessions w)"
    and own: "entries_own (w_app w) (w_sessions w)"
    and actor: "\<And>t. actor = Some t \<Longrightarrow> t \<noteq> u \<and> char_colon \<notin> set t" and u: "char_colon \<notin> set u"
  shows "unchanged_for u w w'"
proof -
  note mine = session_reach [OF dist]
  have by_touch: "unchanged_for u w w'"
    if "actor = Some t" "touches (reached_queues w t) (tenant_keys t) (w_app w) (w_app w')" for t
    using unchanged_for_touches [OF that(2) _ _ u dist own] actor [OF that(1)] by blast
  have call: "unchanged_for u w w'" if "api_call E actor (w_app w) (w_app w')"
  proof (cases actor)
    case None
    with that have t: "touches {} {} (w_app w) (w_app w')" by (intro touching.R_api_call) auto
    with touches_control(6) [OF t] show ?thesis by (simp add: unchanged_for_def touches_def)
  next
    case (Some t)
    from by_touch [OF this touching.R_api_call [OF that]] Some
    show ?thesis by (auto simp: reached_queues_def)
  qed
  from step show ?thesis
  proof (cases rule: step_kinds)
    case (subscribed s t c)
    with unchanged_for_subscribed [OF subscribed(3) _ _ u dist] actor show ?thesis by auto
  next
    case (registered s t c)
    with actor show ?thesis by (auto simp: unchanged_for_def open_register_frame open_register_entry)
  next
    case (opened s t c ok now)
    note mine = mine [OF opened(2), of c, simplified]
    from by_touch [OF opened(1) touches_open_ready [OF opened(3) mine(1,2)]] show ?thesis .
  next
    case (reader s v clk input r l)
    note mine = mine [OF reader(2), of "lv_conn v", simplified]
    from by_touch [OF reader(1) touching.R_reader_step [OF reader(4) mine(3,4)]] show ?thesis .
  next
    case (writer s v out r frame holding)
    note mine = mine [OF writer(2), of "lv_conn v", simplified]
    from by_touch [OF writer(1) touches_writer_step [OF writer(4) mine(1)]] show ?thesis .
  next
    case (fanout s v r)
    note mine = mine [OF fanout(2), of "lv_conn v", simplified]
    from by_touch [OF fanout(1) touches_fanout_step [OF fanout(4) mine(1,2)]] show ?thesis .
  next
    case (task_over s v completed result)
    note mine = mine [OF task_over(2), of "lv_conn v", simplified]
    show ?thesis
      by (rule by_touch [OF task_over(1)]) (simp add: task_over(4) touches_abort_others mine(1,2))
  next
    case (unregister_entry s t c)
    with actor show ?thesis by (auto simp: unchanged_for_def unregister_remove_def)
  next
    case called
    from call [OF called(1)] show ?thesis .
  qed (auto simp: unchanged_for_def ws_stage_frame frame_simps)
qed

end
