(* ===== verification/Books.thy ===== *)
theory Books
  imports Server "HOL-Library.Multiset"
begin

text \<open>
  The books of the server: in every step the three limits agree with the permits the handlers
  and sessions hold, and the gauge of the metrics with the open connections.
\<close>

section \<open>The sessions as a multiset\<close>

definition ran_mset :: "('a \<rightharpoonup> 'b) \<Rightarrow> 'b multiset" where
  "ran_mset m = image_mset (\<lambda>k. the (m k)) (mset_set (dom m))"

lemma ran_mset_empty [simp]: "ran_mset Map.empty = {#}"
  by (simp add: ran_mset_def)

lemma ran_mset_insert:
  assumes "finite (dom m)" "m k = None"
  shows "ran_mset (m(k \<mapsto> x)) = add_mset x (ran_mset m)"
proof -
  have "k \<notin> dom m" using assms(2) by auto
  moreover from this have "image_mset (\<lambda>j. the ((m(k \<mapsto> x)) j)) (mset_set (dom m))
      = image_mset (\<lambda>j. the (m j)) (mset_set (dom m))"
    using assms(1) by (intro image_mset_cong) auto
  ultimately show ?thesis using assms(1) by (simp add: ran_mset_def)
qed

lemma ran_mset_remove:
  assumes "finite (dom m)" "m k = Some x"
  shows "ran_mset m = add_mset x (ran_mset (m(k := None)))"
proof -
  have "ran_mset ((m(k := None))(k \<mapsto> x)) = add_mset x (ran_mset (m(k := None)))"
    using assms(1) by (intro ran_mset_insert) auto
  with assms(2) show ?thesis by (simp add: fun_upd_idem)
qed

lemma ran_mset_update:
  assumes "finite (dom m)"
  shows "ran_mset (m(k \<mapsto> y)) = add_mset y (ran_mset (m(k := None)))"
proof -
  have "ran_mset ((m(k := None))(k \<mapsto> y)) = add_mset y (ran_mset (m(k := None)))"
    using assms by (intro ran_mset_insert) auto
  then show ?thesis by simp
qed

lemma size_filter_ran_mset:
  "finite (dom m) \<Longrightarrow> size (filter_mset P (ran_mset m)) = card {k. \<exists>x. m k = Some x \<and> P x}"
proof -
  assume fin: "finite (dom m)"
  have "{k \<in> dom m. P (the (m k))} = {k. \<exists>x. m k = Some x \<and> P x}" by force
  with fin show ?thesis by (simp add: ran_mset_def filter_mset_image_mset filter_mset_mset_set)
qed

section \<open>Permits and connection counters\<close>

text \<open>
  The books: the limits agree with what the sessions hold, and the gauge
  \<open>ws_active_connections\<close> is the number of open ones.
\<close>

definition books :: "('s \<Rightarrow> nat) \<Rightarrow> ('s, 'b, 'q, 'k) app_state \<Rightarrow> session multiset \<Rightarrow> bool" where
  "books avail st N \<longleftrightarrow>
     accounts avail st (image_mset session_holding N) \<and>
     m_active_connections (st_metrics st) = of_nat (size (filter_mset is_open N))"

definition books_ok :: "('s \<Rightarrow> nat) \<Rightarrow> ('s, 'b, 'q, 'k) world \<Rightarrow> bool" where
  "books_ok avail w \<longleftrightarrow> books avail (w_app w) (ran_mset (w_sessions w))"

lemma books_swap:
  assumes "touches A K st st'" "session_holding y = session_holding x" "is_open y = is_open x"
    and "books avail st (add_mset x N)"
  shows "books avail st' (add_mset y N)"
  using assms accounts_touches [OF assms(1)] touches_control(10) [OF assms(1)]
  by (auto simp: books_def)

lemma books_same: "touches A K st st' \<Longrightarrow> books avail st' N = books avail st N"
  using accounts_touches touches_control(10) by (fastforce simp: books_def)

context server_env
begin

text \<open>The sessions are as many as there are slots, and the handlers.\<close>

lemma few_sessions:
  assumes "books_ok avail w" "sessions_wf w"
  shows "size (ran_mset (w_sessions w)) \<le> unat (cfg_max_connections (st_config (w_app w))) + handlers w"
proof -
  let ?N = "ran_mset (w_sessions w)"
  have "size ?N = size (filter_mset (\<lambda>x. ho_slot (session_holding x)) ?N)
      + size (filter_mset (\<lambda>x. \<not> ho_slot (session_holding x)) ?N)"
    by (metis multiset_partition size_union)
  moreover have "size (filter_mset (\<lambda>x. ho_slot (session_holding x)) ?N)
      \<le> unat (cfg_max_connections (st_config (w_app w)))"
    using assms(1) by (auto simp: books_ok_def books_def accounts_def slot_account_def slots_used_def
        held_slots_def filter_mset_image_mset)
  moreover have "size (filter_mset (\<lambda>x. \<not> ho_slot (session_holding x)) ?N) \<le> handlers w"
    unfolding handlers_def size_filter_ran_mset [OF conjunct1 [OF assms(2) [unfolded sessions_wf_def]]]
    by (intro card_mono sessions_where_finite assms(2))
       (auto simp: sessions_where_def dest: no_slot_handling)
  ultimately show ?thesis by simp
qed

text \<open>Every step keeps the books.\<close>

lemma books_step:
  assumes step: "step E w actor w'" and wf: "sessions_wf w" and ok: "books_ok avail w"
    and room: "unat (cfg_max_connections (st_config (w_app w))) + handlers w < 2 ^ 32 - 1"
  shows "books_ok avail w'"
proof -
  from wf have fin: "finite (dom (w_sessions w))" by (simp add: sessions_wf_def)
  have old: "books avail (w_app w) (ran_mset (w_sessions w))" using ok by (simp add: books_ok_def)
  let ?rest = "\<lambda>s. ran_mset ((w_sessions w)(s := None))"
  have take: "books avail (w_app w) (add_mset x (?rest s))" if "w_sessions w s = Some x" for s x
    using old ran_mset_remove [OF fin that] by simp
  have put: "books_ok avail w'" if "books avail (w_app w') (add_mset x (?rest s))"
      "w_sessions w' = (w_sessions w)(s \<mapsto> x)" for s x
    using that by (simp add: books_ok_def ran_mset_update [OF fin])
  have swap: "books_ok avail w'"
    if "w_sessions w s = Some x" "w_sessions w' = (w_sessions w)(s \<mapsto> y)" "touches UNIV UNIV (w_app w) (w_app w')"
      "session_holding y = session_holding x" "is_open y = is_open x" for s x y
    using put [OF books_swap [OF that(3-5) take [OF that(1)]] that(2)] .
  have stage: "accounts avail st (result_holding r + image_mset session_holding (?rest s))"
      "m_active_connections (st_metrics st) = of_nat (size (filter_mset is_open (?rest s)))"
    if s: "w_sessions w s = Some (Handling g)"
      and run: "ws_stage_step E keys clk now_secs g (w_app w) = (r, st)" for s g keys clk now_secs r st
  proof -
    have "size (?rest s) < 2 ^ 32 - 1"
      using few_sessions [OF ok wf] room ran_mset_remove [OF fin s] by simp
    then show "accounts avail st (result_holding r + image_mset session_holding (?rest s))"
      using take [OF s] by (intro ws_stage_accounts [OF run]) (simp_all add: books_def)
    show "m_active_connections (st_metrics st) = of_nat (size (filter_mset is_open (?rest s)))"
      using take [OF s] ws_stage_frame(7) [OF run] by (simp add: books_def is_open_def)
  qed
  have frame: "accounts avail (open_register c (w_app w)) M = accounts avail (w_app w) M"
      "accounts avail (unregister_remove cl u (w_app w)) M = accounts avail (w_app w) M"
      "accounts avail (count_metric connection_closed (w_app w)) M = accounts avail (w_app w) M"
    for c cl u M by (rule accounts_frame; simp add: open_register_frame unregister_remove_def)+
  from step show ?thesis
  proof (cases rule: step_kinds)
    case (request query peer headers)
    have "w_sessions w (w_next w) = None" using wf by (simp add: sessions_wf_def)
    with old request show ?thesis
      by (simp add: books_ok_def books_def accounts_def ran_mset_insert [OF fin] is_open_def)
  next
    case (staged s g keys clk now_secs r)
    with stage [OF staged(2,3)] show ?thesis
      by (cases r rule: stage_session.cases) (auto simp: is_open_def books_def books_ok_def ran_mset_update [OF fin])
  next
    case (dropped s t now)
    with take [OF dropped(2)] show ?thesis
      by (simp add: books_ok_def books_def drop_ticket_accounts frame_simps is_open_def)
  next
    case (subscribed s t c)
    note op = open_subscribe_control [OF subscribed(3)]
    from take [OF subscribed(2)] accounts_frame [OF op(2,1,3,4)] op(11) subscribed(4) show ?thesis
      by (intro put) (simp_all add: books_def is_open_def add.commute)
  next
    case (registered s t c)
    with take [OF registered(2)] show ?thesis
      by (intro put) (simp_all add: books_def is_open_def open_register_frame frame)
  next
    case (unregister_entry s t c)
    with take [OF unregister_entry(2)] show ?thesis
      by (intro put) (simp_all add: books_def is_open_def frame, simp add: unregister_remove_def)
  next
    case (left s t c now)
    with take [OF left(2)] show ?thesis
      by (simp add: books_ok_def books_def handle_socket_end_def drop_ticket_accounts
          frame frame_simps is_open_def metrics_ops)
  next
    case (task_over s v completed result)
    from swap [OF task_over(2,5)] show ?thesis by (simp add: task_over(4) task_steps_touch is_open_def)
  next
    case called
    with ok books_same [OF task_steps_touch(8) [OF called(1)]] show ?thesis by (simp add: books_ok_def)
  qed (auto simp: is_open_def live_new_def intro: swap task_steps_touch)
qed

end

end
