(* ===== verification/Subscriptions.thy ===== *)
theory Subscriptions
  imports Server
begin

text \<open>The receivers of the topics are those of the sessions whose connection listens to them.\<close>

section \<open>Receivers are subscribed sessions\<close>

definition subscribed_at :: "(nat \<rightharpoonup> session) \<Rightarrow> nat \<Rightarrow> rust_string \<Rightarrow> nat \<Rightarrow> bool" where
  \<comment> \<open>session \<open>s\<close> holds receiver \<open>r\<close> of the topic \<open>key\<close>\<close>
  "subscribed_at m s key r \<longleftrightarrow>
     (\<exists>x c. m s = Some x \<and> subscribed_conn x = Some c \<and> co_topic_key c = key \<and> co_rx c = r)"

definition receivers_exact :: "(rust_string \<Rightarrow> nat set) \<Rightarrow> (nat \<rightharpoonup> session) \<Rightarrow> bool" where
  "receivers_exact rx m \<longleftrightarrow>
     (\<forall>key r. r \<in> rx key \<longleftrightarrow> (\<exists>s. subscribed_at m s key r)) \<and>
     (\<forall>s s' key r. subscribed_at m s key r \<longrightarrow> subscribed_at m s' key r \<longrightarrow> s' = s)"

lemma subscribed_at_upd [simp]:
  "subscribed_at (m(s \<mapsto> y)) s' key r \<longleftrightarrow>
     (if s' = s then \<exists>c. subscribed_conn y = Some c \<and> co_topic_key c = key \<and> co_rx c = r
      else subscribed_at m s' key r)"
  "subscribed_at (m(s := None)) s' key r \<longleftrightarrow> s' \<noteq> s \<and> subscribed_at m s' key r"
  by (auto simp: subscribed_at_def)

lemma receivers_exact_put:
  assumes "receivers_exact rx m" "m s = Some x" "subscribed_conn y = subscribed_conn x"
  shows "receivers_exact rx (m(s \<mapsto> y))"
proof -
  have "subscribed_at (m(s \<mapsto> y)) = subscribed_at m"
    using assms(2,3) by (auto simp: fun_eq_iff) (auto simp: subscribed_at_def)
  with assms(1) show ?thesis by (simp add: receivers_exact_def)
qed

lemma receivers_exact_unsubscribed:
  assumes "receivers_exact rx m" "\<And>x. m s = Some x \<Longrightarrow> subscribed_conn x = None"
    and "\<And>y. z = Some y \<Longrightarrow> subscribed_conn y = None"
  shows "receivers_exact rx (m(s := z))"
proof -
  have "\<not> subscribed_at m s key r" for key r using assms(2) by (auto simp: subscribed_at_def)
  then have "subscribed_at (m(s := z)) = subscribed_at m"
    using assms(3) by (cases z) (auto simp: fun_eq_iff)
  with assms(1) show ?thesis by (simp add: receivers_exact_def)
qed

lemma receivers_exact_subscribe:
  assumes ex: "receivers_exact rx m" and s: "m s = Some x" "subscribed_conn x = None"
    and y: "subscribed_conn y = Some c" and new: "co_rx c \<notin> rx (co_topic_key c)"
  shows "receivers_exact (rx(co_topic_key c := insert (co_rx c) (rx (co_topic_key c)))) (m(s \<mapsto> y))"
proof -
  have no: "\<not> subscribed_at m s key r" for key r using s by (auto simp: subscribed_at_def)
  have fresh: "\<not> subscribed_at m s' (co_topic_key c) (co_rx c)" for s'
    using ex new by (auto simp: receivers_exact_def)
  show ?thesis
    unfolding receivers_exact_def
  proof (intro conjI allI impI)
    fix key r
    show "r \<in> (rx(co_topic_key c := insert (co_rx c) (rx (co_topic_key c)))) key \<longleftrightarrow>
        (\<exists>s'. subscribed_at (m(s \<mapsto> y)) s' key r)"
      using ex y no by (auto simp: receivers_exact_def split: if_splits) (metis no)+
  next
    fix s1 s2 key r assume "subscribed_at (m(s \<mapsto> y)) s1 key r" "subscribed_at (m(s \<mapsto> y)) s2 key r"
    with ex y fresh show "s2 = s1" by (auto simp: receivers_exact_def split: if_splits)
  qed
qed

lemma receivers_exact_drop:
  assumes ex: "receivers_exact rx m" and s: "m s = Some x" "subscribed_conn x = Some c"
    and y: "subscribed_conn y = None"
  shows "receivers_exact (rx(co_topic_key c := rx (co_topic_key c) - {co_rx c})) (m(s \<mapsto> y))"
proof -
  have me: "subscribed_at m s key r \<longleftrightarrow> key = co_topic_key c \<and> r = co_rx c" for key r
    using s by (auto simp: subscribed_at_def)
  have only: "subscribed_at m s' (co_topic_key c) (co_rx c) \<Longrightarrow> s' = s" for s'
    using ex me unfolding receivers_exact_def by metis
  show ?thesis
    unfolding receivers_exact_def
  proof (intro conjI allI impI)
    fix key r
    have "r \<in> rx key \<longleftrightarrow> (\<exists>s. subscribed_at m s key r)" using ex by (simp add: receivers_exact_def)
    with y me only show "r \<in> (rx(co_topic_key c := rx (co_topic_key c) - {co_rx c})) key \<longleftrightarrow>
        (\<exists>s'. subscribed_at (m(s \<mapsto> y)) s' key r)"
      by (auto split: if_splits) metis+
  next
    fix s1 s2 key r assume "subscribed_at (m(s \<mapsto> y)) s1 key r" "subscribed_at (m(s \<mapsto> y)) s2 key r"
    with ex y show "s2 = s1" by (auto simp: receivers_exact_def split: if_splits)
  qed
qed

text \<open>The subscribed sessions of a topic, and how many they are.\<close>

definition subscribers :: "(nat \<rightharpoonup> session) \<Rightarrow> rust_string \<Rightarrow> nat set" where
  "subscribers m key = {s. \<exists>x c. m s = Some x \<and> subscribed_conn x = Some c \<and> co_topic_key c = key}"

lemma receivers_exact_card:
  assumes "receivers_exact rx m"
  shows "card (rx key) = card (subscribers m key)"
proof -
  let ?f = "\<lambda>s. co_rx (the (subscribed_conn (the (m s))))"
  have "rx key = ?f ` subscribers m key"
    using assms by (auto simp: receivers_exact_def subscribed_at_def subscribers_def image_def) force+
  moreover have "inj_on ?f (subscribers m key)"
  proof (rule inj_onI)
    fix s s' assume "s \<in> subscribers m key" "s' \<in> subscribers m key" "?f s = ?f s'"
    then have "subscribed_at m s key (?f s)" "subscribed_at m s' key (?f s)"
      by (auto simp: subscribers_def subscribed_at_def)
    with assms show "s = s'" unfolding receivers_exact_def by blast
  qed
  ultimately show ?thesis by (simp add: card_image)
qed

lemma topic_receivers_end [simp]:
  "topic_receivers rv (drop_ticket E now t st) = topic_receivers rv st"
  "topic_receivers rv (handle_socket_end E now t st) = topic_receivers rv st"
  "topic_receivers rv (unregister_remove cl t' st) = topic_receivers rv st"
  by (rule topic_receivers_cong; simp add: frame_simps unregister_remove_def)+

context server_env
begin

text \<open>The fan-out gives its receiver up when it ends; the end of another task ends it.\<close>

lemma receivers_fanout:
  assumes ex: "receivers_exact (topic_rx st) m" and s: "m s = Some (Live v)" and run: "lv_fanout v = Running"
    and op: "fanout_step E (lv_conn v) st = Some (r, st')"
  shows "receivers_exact (topic_rx st') (m(s \<mapsto> Live (v\<lparr>lv_fanout := r\<rparr>)))"
proof -
  have sub: "subscribed_conn (Live v) = Some (lv_conn v)" using run by simp
  with s have "subscribed_at m s (co_topic_key (lv_conn v)) (co_rx (lv_conn v))"
    unfolding subscribed_at_def by blast
  with ex have "co_rx (lv_conn v) \<in> topic_rx st (co_topic_key (lv_conn v))"
    unfolding receivers_exact_def by blast
  note rx = topic_rx_fanout_step [OF op this]
  show ?thesis
  proof (cases "r = Running")
    case True
    with receivers_exact_put [OF ex s] rx run show ?thesis by simp
  next
    case False
    with receivers_exact_drop [OF ex s sub, of "Live (v\<lparr>lv_fanout := r\<rparr>)"] rx show ?thesis by simp
  qed
qed

lemma receivers_task_over:
  assumes ex: "receivers_exact (topic_rx st) m" and s: "m s = Some (Live v)"
    and over: "task_of completed v = Finished result"
  shows "receivers_exact (topic_rx (abort_others E completed (lv_conn v) (lv_writer v) (lv_fanout v) st))
           (m(s \<mapsto> Unregistering (lv_ticket v) (lv_conn v)))"
proof (cases "lv_fanout v")
  case Running
  with over have "completed \<noteq> FanoutTask" by auto
  with Running receivers_exact_drop [OF ex s, of "lv_conn v" "Unregistering (lv_ticket v) (lv_conn v)"]
  show ?thesis by (simp add: topic_rx_abort_others)
next
  case Finished
  with receivers_exact_unsubscribed [OF ex, of s "Some (Unregistering (lv_ticket v) (lv_conn v))"] s
  show ?thesis by (simp add: topic_rx_abort_others)
qed

lemma receivers_opened:
  assumes ex: "receivers_exact (topic_rx st) m" and s: "m s = Some (Registered t c)"
    and op: "open_ready E c st = (ok, st')"
  shows "receivers_exact (topic_rx st')
           (m(s \<mapsto> (if ok then Live (live_new t c cfg now) else Leaving t c False)))"
  using receivers_exact_put [OF ex s, of "Live (live_new t c cfg now)"]
    receivers_exact_drop [OF ex s, of c "Leaving t c False"] topic_rx_open_ready [OF op]
  by (cases ok) (simp_all add: live_new_def)

lemma receivers_step:
  assumes step: "step E w actor w'" and wf: "sessions_wf w"
    and ex: "receivers_exact (topic_rx (w_app w)) (w_sessions w)"
  shows "receivers_exact (topic_rx (w_app w')) (w_sessions w')"
proof -
  note out = receivers_exact_unsubscribed [OF ex]
  from step show ?thesis
  proof (cases rule: step_kinds)
    case (request query peer headers)
    with wf show ?thesis by (auto simp: sessions_wf_def intro: out)
  next
    case (staged s g keys clk now_secs r)
    with topic_receivers_cong [OF ws_stage_frame(3) [OF staged(3)], of receivers] show ?thesis
      by (auto intro!: out dest: stage_session_conn)
  next
    case (subscribed s t c)
    note rx = topic_rx_open_subscribe [OF subscribed(3)]
    from receivers_exact_subscribe [OF ex subscribed(2) _ _ rx(1), of "Subscribed t c"] show ?thesis
      by (simp add: subscribed(4) rx(2))
  next
    case (registered s t c)
    with receivers_exact_put [OF ex registered(2)] show ?thesis by (simp add: topic_rx_open_register)
  next
    case (opened s t c ok now)
    with receivers_opened [OF ex opened(2,3)] show ?thesis by simp
  next
    case (reader s v clk input r l)
    have "topic_rx (w_app w') = topic_rx (w_app w)" using reader(4) by (rule rx.R_reader_step) auto
    with receivers_exact_put [OF ex reader(2)] show ?thesis by (simp add: reader(5))
  next
    case (writer s v out r frame holding)
    with receivers_exact_put [OF ex writer(2)] topic_rx_writer_step [OF writer(4)] show ?thesis by simp
  next
    case (fanout s v r)
    with receivers_fanout [OF ex fanout(2-4)] show ?thesis by simp
  next
    case (task_over s v completed result)
    with receivers_task_over [OF ex task_over(2,3)] show ?thesis by simp
  next
    case called
    have "topic_rx (w_app w') = topic_rx (w_app w)" using called(1) by (rule rx.R_api_call) simp
    with ex show ?thesis by (simp add: called(2))
  qed (auto intro: out)
qed

end

end
