(* ===== verification/Reachable.thy ===== *)
theory Reachable
  imports Books Registry Subscriptions
begin

text \<open>What holds in every reachable state: the invariants of the parts, from the initial state on.\<close>

section \<open>Queues keep their bounds\<close>

context server_env
begin

lemma within_bounds_step:
  assumes step: "step E w actor w'" and ok: "within_bounds (w_app w)"
  shows "within_bounds (w_app w')"
proof -
  have same: "within_bounds st"
    if "st_chans st = st_chans (w_app w)" "st_config st = st_config (w_app w)" for st
    using ok queues_ok_cong [OF that] by simp
  have call: "within_bounds st" if "api_call E actor (w_app w) st" for st
    using bounded.R_api_call [OF that] ok by simp
  have reads: "within_bounds st"
    if "reader_step E clk c input (l, w_app w) = (r, l', st)" for clk c input l r l' st
    using bounded.R_reader_step [OF that] ok by simp
  from step show ?thesis
    by (cases rule: step_kinds)
       (auto intro: same call reads within_bounds_writer_step [OF _ ok] ok
         within_bounds_fanout_step [OF _ ok] within_bounds_abort_others [OF ok]
         within_bounds_open_subscribe [OF _ ok] within_bounds_open_register [OF ok]
         within_bounds_open_ready [OF _ ok]
         simp: ws_stage_frame frame_simps unregister_remove_def)
qed

end

section \<open>What holds in every reachable state\<close>

lemma ip_limiter_from_config_states:
  "ip_limiter_from_config cfg = Some l \<Longrightarrow> il_states l = Map.empty"
  by (auto simp: ip_limiter_from_config_def Let_def split: if_splits)

lemma reachable_wf: "reachable E cfg w \<Longrightarrow> sessions_wf w"
  by (induction rule: reachable.induct) (auto intro: sessions_wf_new sessions_wf_step)

lemma reachable_config: "reachable E cfg w \<Longrightarrow> st_config (w_app w) = cfg"
  by (simp add: kept_config.kept_reachable app_state_new_def)

lemma reachable_handlers: "reachable E cfg w \<Longrightarrow> handlers w \<le> env_workers E"
proof (induction rule: reachable.induct)
  case start
  show ?case by (simp add: handlers_def sessions_where_def world_new_def)
next
  case (next_step w actor w')
  then show ?case using handlers_step reachable_wf [OF next_step(1)] by blast
qed

context server_env
begin

lemma accounts_new: "accounts avail (app_state_new E cfg) {#}"
proof -
  have "ip_account (app_state_new E cfg) (\<lambda>_. 0)"
    using ip_limiter_from_config_states [of cfg]
    by (auto simp: ip_account_def app_state_new_def ip_in_use_def fun_eq_iff split: option.split)
  then show ?thesis
    by (auto simp: accounts_def slot_account_def slots_ok_def slots_used_def tenant_account_def
        tenant_limits_ok_def tenant_used_def app_state_new_def sem.avail_new fun_eq_iff
        split: option.split)
qed

lemma reachable_books:
  assumes "reachable E cfg w" "unat (cfg_max_connections cfg) + env_workers E < 2 ^ 32 - 1"
  shows "books_ok avail w"
  using assms(1)
proof (induction rule: reachable.induct)
  case start
  show ?case
    using accounts_new by (simp add: books_ok_def books_def world_new_def)
       (simp add: app_state_new_def metrics_default_def)
next
  case (next_step w actor w')
  with assms(2) show ?case
    using books_step [OF next_step(2) reachable_wf [OF next_step(1)]]
      reachable_config [OF next_step(1)] reachable_handlers [OF next_step(1)] by simp
qed

lemma reachable_registry:
  assumes "reachable E cfg w" "encodes_ready (env_codec E)"
  shows "registry_ok (w_app w) (w_sessions w)"
  using assms(1)
proof (induction rule: reachable.induct)
  case start
  show ?case by (simp add: registry_ok_def world_new_def app_state_new_def)
next
  case (next_step w actor w')
  then show ?case using registry_step assms(2) reachable_wf [OF next_step(1)] by blast
qed

lemma reachable_queues_distinct:
  "reachable E cfg w \<Longrightarrow> queues_distinct (w_app w) (w_sessions w)"
proof (induction rule: reachable.induct)
  case start
  show ?case by (simp add: queues_distinct_def world_new_def)
next
  case (next_step w actor w')
  then show ?case using queues_distinct_step reachable_wf [OF next_step(1)] by blast
qed

lemma reachable_entries_own:
  "reachable E cfg w \<Longrightarrow> entries_own (w_app w) (w_sessions w)"
proof (induction rule: reachable.induct)
  case start
  show ?case by (simp add: entries_own_def world_new_def app_state_new_def)
next
  case (next_step w actor w')
  then show ?case
    using entries_own_step reachable_wf [OF next_step(1)] reachable_queues_distinct [OF next_step(1)]
    by blast
qed

lemma reachable_receivers:
  "reachable E cfg w \<Longrightarrow> receivers_exact (topic_rx (w_app w)) (w_sessions w)"
proof (induction rule: reachable.induct)
  case start
  show ?case
    by (simp add: receivers_exact_def subscribed_at_def world_new_def app_state_new_def
        topic_receivers_def)
next
  case (next_step w actor w')
  then show ?case using receivers_step reachable_wf [OF next_step(1)] by blast
qed

lemma reachable_within_bounds: "reachable E cfg w \<Longrightarrow> within_bounds (w_app w)"
proof (induction rule: reachable.induct)
  case start
  show ?case by (simp add: queues_ok_def world_new_def app_state_new_def)
next
  case (next_step w actor w')
  then show ?case using within_bounds_step by blast
qed

end

section \<open>Permits of the tickets\<close>

text \<open>With a limit configured, every session has the permit of its tenant, or of an address.\<close>

lemma ws_stage_tenant_cap:
  assumes "ws_stage_step E keys clk now_secs g st = (r, st')"
  shows "tenant_cap st' = tenant_cap st"
proof -
  have slot: "tenant_cap st2 = tenant_cap st1" if "acquire_slot E st1 = (ok, st2)" for st1 st2 ok
    using that by (rule acquire_slot_eq) (auto intro: tenant_frame)
  have ip: "tenant_cap st2 = tenant_cap st1" if "admit_ip keys clk i st1 = (r, st2)" for st1 st2 i r
    using that by (rule admit_ip_eq) (auto intro: tenant_frame)
  have drop: "tenant_cap (drop_ip now p st1) = tenant_cap st1" for now p st1
    by (rule tenant_frame) (simp_all add: frame_simps)
  have metric: "tenant_cap (count_metric f st1) = tenant_cap st1" for f st1
    by (rule tenant_frame) simp_all
  have dslot: "tenant_cap (drop_slot E st1) = tenant_cap st1" for st1
    by (rule tenant_frame) (simp_all add: drop_slot_def)
  from assms show ?thesis
    by (cases rule: ws_stage_cases)
       (auto simp: drop metric dslot dest!: ip slot acquire_tenant_permit_frame(2))
qed

lemma ws_stage_tenant_permit:
  assumes "ws_stage_step E keys clk now_secs g st = (Answer (Upgrade t), st')"
    and "tenant_cap st \<noteq> None"
  shows "tk_tenant_permit t = Some (ai_tenant_id (tk_identity t))"
  using assms(1)
proof (cases rule: ws_stage_cases)
  case (upgrade query p identity a)
  from upgrade(3) show ?thesis
    by (rule acquire_tenant_permit_eq) (use upgrade(4,5) assms(2) in auto)
qed simp_all

lemma tenant_cap_steps:
  "open_subscribe E t st = (c, st') \<Longrightarrow> tenant_cap st' = tenant_cap st"
  "tenant_cap (open_register c st) = tenant_cap st"
  "touches A K st st' \<Longrightarrow> tenant_cap st' = tenant_cap st"
  "tenant_cap (drop_ticket E now t st) = tenant_cap st"
  "tenant_cap (handle_socket_end E now t st) = tenant_cap st"
  "tenant_cap (unregister_remove cl u st) = tenant_cap st"
proof -
  show "open_subscribe E t st = (c, st') \<Longrightarrow> tenant_cap st' = tenant_cap st"
    by (rule tenant_frame) (simp_all add: open_subscribe_control)
  show "tenant_cap (open_register c st) = tenant_cap st"
    by (rule tenant_frame) (simp_all add: open_register_frame)
  show "touches A K st st' \<Longrightarrow> tenant_cap st' = tenant_cap st"
    by (rule tenant_frame) (simp_all add: touches_control)
  show drop: "tenant_cap (drop_ticket E now t st) = tenant_cap st" for st
  proof -
    have "tenant_cap (drop_ticket E now t st) = tenant_cap (drop_tenant E (tk_tenant_permit t) st)"
      by (rule tenant_frame) (simp_all add: drop_ticket_def drop_slot_def frame_simps)
    also have "\<dots> = tenant_cap st"
      by (simp add: drop_tenant_def drop_tenant_permit_frame split: option.split)
    finally show ?thesis .
  qed
  have "tenant_cap (count_metric connection_closed st) = tenant_cap st"
    by (rule tenant_frame) simp_all
  with drop show "tenant_cap (handle_socket_end E now t st) = tenant_cap st"
    by (simp add: handle_socket_end_def)
  show "tenant_cap (unregister_remove cl u st) = tenant_cap st"
    by (rule tenant_frame) (simp_all add: unregister_remove_def)
qed

interpretation kept_tenant_cap: kept_field E tenant_cap for E
  by unfold_locales (simp_all add: ws_stage_tenant_cap tenant_cap_steps)

lemma reachable_tenant_cap:
  "reachable E cfg w \<Longrightarrow> tenant_cap (w_app w) = map_option unat (cfg_tenant_max_connections cfg)"
  by (erule trans [OF kept_tenant_cap.kept_reachable])
     (simp add: app_state_new_def tenant_cap_def split: option.split)

text \<open>No step after the admission changes the ticket of a session.\<close>

lemma step_tickets:
  assumes "step E w actor w'" "w_sessions w' s = Some y" "session_ticket y = Some t"
  obtains x where "w_sessions w s = Some x" "session_ticket x = Some t"
  | keys clk now_secs g where "y = Upgrading t" "w_sessions w s = Some (Handling g)"
      "ws_stage_step E keys clk now_secs g (w_app w) = (Answer (Upgrade t), w_app w')"
  using assms(1)
proof (cases rule: step_kinds)
  case (staged s' g keys clk now_secs r)
  with assms(2,3) show thesis using that
    by (cases r rule: stage_session.cases) (auto split: if_splits)
qed (use assms(2,3) that(1) in \<open>auto simp: live_new_def split: if_splits\<close>)

lemma reachable_tenant_permit:
  assumes "reachable E cfg w" "cfg_tenant_max_connections cfg \<noteq> None" "w_sessions w s = Some x"
    and "session_ticket x = Some t"
  shows "tk_tenant_permit t = Some (ai_tenant_id (tk_identity t))"
  using assms(1,3,4)
proof (induction arbitrary: s x rule: reachable.induct)
  case start
  then show ?case by (simp add: world_new_def)
next
  case (next_step w actor w')
  from next_step(2,4,5) show ?case
  proof (rule step_tickets)
    fix y assume "w_sessions w s = Some y" "session_ticket y = Some t"
    then show ?case by (rule next_step.IH)
  next
    fix keys clk now_secs g
    assume h: "ws_stage_step E keys clk now_secs g (w_app w) = (Answer (Upgrade t), w_app w')"
    have "tenant_cap (w_app w) \<noteq> None" using reachable_tenant_cap [OF next_step(1)] assms(2) by simp
    from ws_stage_tenant_permit [OF h this] show ?case .
  qed
qed

section \<open>The books in numbers\<close>

definition holds_slot :: "session \<Rightarrow> bool" where
  "holds_slot x \<longleftrightarrow> ho_slot (session_holding x)"

definition holds_tenant_permit :: "rust_string \<Rightarrow> session \<Rightarrow> bool" where
  "holds_tenant_permit t x \<longleftrightarrow> ho_tenant (session_holding x) = Some t"

definition holds_ip_permit :: "ip_addr \<Rightarrow> session \<Rightarrow> bool" where
  "holds_ip_permit ip x \<longleftrightarrow>
     Option.bind (ho_ip (session_holding x)) ip_permit_ip = Some ip"

lemma size_filter_sessions:
  "sessions_wf w \<Longrightarrow> size (filter_mset P (ran_mset (w_sessions w))) = card (sessions_where P w)"
  unfolding sessions_where_def sessions_wf_def by (rule size_filter_ran_mset) simp

lemma card_sessions_mono:
  "sessions_wf w \<Longrightarrow> (\<And>x. P x \<Longrightarrow> Q x) \<Longrightarrow>
     card (sessions_where P w) \<le> card (sessions_where Q w)"
  by (intro card_mono sessions_where_finite) (auto simp: sessions_where_def)

lemma open_holds_slot: "is_open x \<Longrightarrow> holds_slot x"
  by (cases x) (auto simp: is_open_def holds_slot_def)

lemma books_counts:
  assumes "books_ok avail w" "sessions_wf w"
  shows "avail (st_connection_limit (w_app w)) + card (sessions_where holds_slot w)
           = unat (cfg_max_connections (st_config (w_app w)))"
    and "tenant_used avail (w_app w) t
           = card (sessions_where (holds_tenant_permit t) w)"
    and "st_ip_limiter (w_app w) = Some l \<Longrightarrow>
           ip_in_use l ip = card (sessions_where (holds_ip_permit ip) w)"
    and "st_ip_limiter (w_app w) = Some l \<Longrightarrow> il_max_concurrent l = Some cap \<Longrightarrow>
           card (sessions_where (holds_ip_permit ip) w) \<le> unat cap"
    and "m_active_connections (st_metrics (w_app w)) = of_nat (card (sessions_where is_open w))"
proof -
  let ?M = "image_mset session_holding (ran_mset (w_sessions w))"
  have acc: "accounts avail (w_app w) ?M"
    and active: "m_active_connections (st_metrics (w_app w))
      = of_nat (size (filter_mset is_open (ran_mset (w_sessions w))))"
    using assms(1) by (simp_all add: books_ok_def books_def)
  have ten: "held_tenant ?M t
      = card (sessions_where (holds_tenant_permit t) w)" for t
    using size_filter_sessions [OF assms(2)]
    by (simp add: held_tenant_def filter_mset_image_mset holds_tenant_permit_def [abs_def])
  have slots: "held_slots ?M = card (sessions_where holds_slot w)"
    using size_filter_sessions [OF assms(2)]
    by (simp add: held_slots_def filter_mset_image_mset holds_slot_def [abs_def])
  have ip: "held_ip ?M ip = card (sessions_where (holds_ip_permit ip) w)" for ip
    using size_filter_sessions [OF assms(2)]
    by (simp add: held_ip_def filter_mset_image_mset holds_ip_permit_def [abs_def])
  show "avail (st_connection_limit (w_app w)) + card (sessions_where holds_slot w)
      = unat (cfg_max_connections (st_config (w_app w)))"
    using acc by (auto simp: accounts_def slot_account_def slots_ok_def slots_used_def slots)
  show "tenant_used avail (w_app w) t
      = card (sessions_where (holds_tenant_permit t) w)"
    using acc by (simp add: accounts_def tenant_account_def ten)
  show "st_ip_limiter (w_app w) = Some l \<Longrightarrow>
      ip_in_use l ip = card (sessions_where (holds_ip_permit ip) w)"
    using acc by (simp add: accounts_def ip_account_def ip)
  show "card (sessions_where (holds_ip_permit ip) w) \<le> unat cap"
    if "st_ip_limiter (w_app w) = Some l" "il_max_concurrent l = Some cap"
    using acc that by (simp add: accounts_def ip_account_def ip)
  show "m_active_connections (st_metrics (w_app w)) = of_nat (card (sessions_where is_open w))"
    using active size_filter_sessions [OF assms(2)] by simp
qed

text \<open>With a cap, the sessions of a tenant are the ones that hold its permits.\<close>

lemma reachable_tenant_sessions:
  assumes "reachable E cfg w" "cfg_tenant_max_connections cfg \<noteq> None"
  shows "sessions_where (\<lambda>x. session_tenant x = Some t) w = sessions_where (holds_tenant_permit t) w"
proof -
  have "session_tenant x = Some t \<longleftrightarrow> holds_tenant_permit t x" if x: "w_sessions w s = Some x" for s x
  proof (cases "session_ticket x")
    case None
    then obtain g where "x = Handling g" using session_ticket_None by blast
    then show ?thesis by (cases g) (auto simp: holds_tenant_permit_def)
  next
    case (Some k)
    with reachable_tenant_permit [OF assms x Some] show ?thesis
      by (simp add: session_tenant_def holds_tenant_permit_def session_ticket_holding)
  qed
  then show ?thesis by (auto simp: sessions_where_def)
qed

lemma tenant_used_le: "tenant_cap st = Some n \<Longrightarrow> tenant_used avail st t \<le> n"
  by (auto simp: tenant_used_def split: option.split)

text \<open>The cap of the per-IP limiter is the configured one.\<close>

definition ip_cap :: "('s, 'b, 'q, 'k) app_state \<Rightarrow> u32 option" where
  "ip_cap st = Option.bind (st_ip_limiter st) il_max_concurrent"

lemma ip_cap_frame: "st_ip_limiter st' = st_ip_limiter st \<Longrightarrow> ip_cap st' = ip_cap st"
  by (simp add: ip_cap_def)

lemma ip_cap_drop_ip [simp]: "ip_cap (drop_ip now p st) = ip_cap st"
  by (simp add: drop_ip_def ip_cap_def drop_ip_permit_def ip_release_frame split: option.split)

lemma ip_cap_updates [simp]:
  "ip_cap (count_metric f st) = ip_cap st"
  "ip_cap (drop_slot E st) = ip_cap st"
  "ip_cap (st\<lparr>st_connection_limit := s\<rparr>) = ip_cap st"
  "ip_cap (st\<lparr>st_tenant_limits := l\<rparr>) = ip_cap st"
  "ip_cap (unregister_remove cl u st) = ip_cap st"
  by (rule ip_cap_frame; simp add: drop_slot_def unregister_remove_def)+

lemma ip_cap_drop_ticket [simp]:
  "ip_cap (drop_ticket E now t st) = ip_cap st"
  "ip_cap (handle_socket_end E now t st) = ip_cap st"
proof -
  show drop: "ip_cap (drop_ticket E now t st) = ip_cap st" for st
  proof -
    obtain l where "drop_tenant E (tk_tenant_permit t) st = st\<lparr>st_tenant_limits := l\<rparr>"
      by (rule drop_tenant_frame)
    then show ?thesis by (simp add: drop_ticket_def)
  qed
  show "ip_cap (handle_socket_end E now t st) = ip_cap st"
    by (simp add: handle_socket_end_def drop)
qed

lemma ws_stage_ip_cap:
  assumes "ws_stage_step E keys clk now_secs g st = (r, st')"
  shows "ip_cap st' = ip_cap st"
proof -
  have slot: "ip_cap st2 = ip_cap st1" if "acquire_slot E st1 = (ok, st2)" for st1 st2 ok
    using that by (rule acquire_slot_frame) simp
  have ip: "ip_cap st2 = ip_cap st1" if "admit_ip keys clk i st1 = (r, st2)" for st1 st2 i r
    using that by (rule admit_ip_eq) (auto simp: ip_cap_def dest: try_acquire_frame(1))
  have ten: "ip_cap st2 = ip_cap st1" if "acquire_tenant_permit E t st1 = (r, st2)" for st1 st2 t r
    using that by (rule acquire_tenant_permit_only) simp
  from assms show ?thesis by (cases rule: ws_stage_cases) (auto dest!: ip slot ten)
qed

interpretation kept_ip_cap: kept_field E ip_cap for E
  by unfold_locales
     (auto simp: open_register_frame intro: ws_stage_ip_cap ip_cap_frame open_subscribe_control(4) touches_control(4))

lemma reachable_ip_cap:
  "reachable E cfg w \<Longrightarrow> ip_cap (w_app w) = map_option ucast (cfg_ip_max_concurrent cfg)"
  by (erule trans [OF kept_ip_cap.kept_reachable])
     (auto simp: app_state_new_def ip_cap_def ip_limiter_from_config_def Let_def)

text \<open>The gauge of the open connections is exact.\<close>

lemma reachable_active:
  assumes "server_env E avail queued qcap qclosed receivers pending bcap"
    and "reachable E cfg w" and "unat (cfg_max_connections cfg) + env_workers E < 2 ^ 32 - 1"
  shows "unat (m_active_connections (st_metrics (w_app w))) = card (sessions_where is_open w)"
proof -
  note wf = reachable_wf [OF assms(2)]
  note counts = books_counts [OF server_env.reachable_books [OF assms] wf]
  have "card (sessions_where is_open w) \<le> card (sessions_where holds_slot w)"
    by (rule card_sessions_mono [OF wf open_holds_slot])
  also have "\<dots> \<le> unat (cfg_max_connections cfg)"
    using counts(1) reachable_config [OF assms(2)] by simp
  finally have "card (sessions_where is_open w) < 2 ^ LENGTH(64)" using assms(3) by simp
  with counts(5) show ?thesis by (simp add: unsigned_of_nat take_bit_nat_eq_self)
qed

end
