(* ===== verification/Progress.thy ===== *)
theory Progress
  imports Reachable
begin

text \<open>
  Runs of the server: a request that passes \<open>ws_handler\<close> without interruption, and how every
  session can come to its end from any phase.
\<close>

section \<open>Runs\<close>

inductive steps ::
    "('s, 'b, 'q, 'k, 'v) env \<Rightarrow> ('s, 'b, 'q, 'k) world \<Rightarrow> ('s, 'b, 'q, 'k) world \<Rightarrow> bool" for E where
  no_step: "steps E w w"
| one_more: "step E w actor w1 \<Longrightarrow> steps E w1 w' \<Longrightarrow> steps E w w'"

lemma steps_trans: "steps E w w1 \<Longrightarrow> steps E w1 w' \<Longrightarrow> steps E w w'"
  by (induction rule: steps.induct) (auto intro: one_more)

lemma reachable_steps: "steps E w w' \<Longrightarrow> reachable E cfg w \<Longrightarrow> reachable E cfg w'"
  by (induction rule: steps.induct) (auto intro: reachable.next_step)

section \<open>A handler that nothing interrupts\<close>

lemma world_put_again:
  "put_session s y st' (put_session s x st w) = put_session s y st' w"
  "end_session s st' (put_session s x st w) = end_session s st' w"
  by (simp_all add: put_session_def end_session_def)

lemma run_stages_steps:
  assumes "w_sessions w s = Some (Handling g)"
    and "run_stages E keys clk now_secs n g (w_app w) = (Answer r, st)"
  shows "steps E w (case r of Upgrade t \<Rightarrow> put_session s (Upgrading t) st w
                    | Refuse _ _ \<Rightarrow> end_session s st w)"
  using assms
proof (induction n arbitrary: g w)
  case (Suc n)
  obtain r1 st1 where run: "ws_stage_step E keys clk now_secs g (w_app w) = (r1, st1)"
    by (rule prod.exhaust)
  show ?case
  proof (cases r1)
    case (Next g')
    let ?w1 = "put_session s (Handling g') st1 w"
    from Suc.prems(2) run Next have "run_stages E keys clk now_secs n g' (w_app ?w1) = (Answer r, st)"
      by simp
    from Suc.IH [OF _ this] have "steps E ?w1 (case r of Upgrade t \<Rightarrow> put_session s (Upgrading t) st ?w1
                    | Refuse _ _ \<Rightarrow> end_session s st ?w1)" by simp
    with one_more [OF step.handled [OF Suc.prems(1)]] run Next show ?thesis
      by (simp add: world_put_again cong: ws_response.case_cong)
  next
    case (Answer r')
    with Suc.prems(2) run have run: "ws_stage_step E keys clk now_secs g (w_app w) = (Answer r, st)"
      by simp
    show ?thesis
    proof (cases r)
      case (Refuse status m)
      with run one_more [OF step.refused [OF Suc.prems(1)] no_step] show ?thesis by simp
    next
      case (Upgrade t)
      with run one_more [OF step.admitted [OF Suc.prems(1)] no_step] show ?thesis by simp
    qed
  qed
qed simp

text \<open>
  With a worker free, a request can pass \<open>ws_handler\<close> without interruption: it is then a
  session with the ticket, or gone.
\<close>

lemma ws_handler_steps:
  assumes "ws_handler E keys clk now_secs query peer headers (w_app w) = (r, st)"
    and free: "handlers w < env_workers E"
  shows "steps E w
           (case r of Upgrade t \<Rightarrow> start_session (Upgrading t) st w
            | Refuse _ _ \<Rightarrow> end_session (w_next w) st (w\<lparr>w_next := Suc (w_next w)\<rparr>))"
proof -
  let ?w1 = "start_session (Handling (Arrived query peer headers)) (w_app w) w"
  have "run_stages E keys clk now_secs 3 (Arrived query peer headers) (w_app ?w1) = (Answer r, st)"
    using assms(1) by (simp add: run_stages_handler)
  from run_stages_steps [OF _ this] have "steps E ?w1
      (case r of Upgrade t \<Rightarrow> put_session (w_next w) (Upgrading t) st ?w1
       | Refuse _ _ \<Rightarrow> end_session (w_next w) st ?w1)" by simp
  also have "(case r of Upgrade t \<Rightarrow> put_session (w_next w) (Upgrading t) st ?w1
       | Refuse _ _ \<Rightarrow> end_session (w_next w) st ?w1)
     = (case r of Upgrade t \<Rightarrow> start_session (Upgrading t) st w
        | Refuse _ _ \<Rightarrow> end_session (w_next w) st (w\<lparr>w_next := Suc (w_next w)\<rparr>))"
    by (simp add: start_session_def put_session_def end_session_def split: ws_response.split)
  finally show ?thesis using one_more [OF step.request [OF free]] by blast
qed

section \<open>An opening that nothing interrupts\<close>

lemma open_ready_steps:
  assumes "w_sessions w s = Some (Registered t c)" "open_ready E c (w_app w) = (ok, st)"
  shows "step E w (Some (co_tenant_id c))
           (put_session s (if ok then Live (live_new t c (st_config st) now) else Leaving t c False) st w)"
  using assms step.opened [OF assms(1), of E st now] step.open_failed [OF assms(1), of E st]
  by (cases ok) auto

lemma open_connection_steps:
  assumes "w_sessions w s = Some (Upgrading t)" "open_connection E t (w_app w) = ((ok, c), st)"
  shows "steps E w
           (put_session s (if ok then Live (live_new t c (st_config st) now) else Leaving t c False) st w)"
proof -
  from assms(2) obtain st1 where sub: "open_subscribe E t (w_app w) = (c, st1)"
    and ready: "open_ready E c (open_register c st1) = (ok, st)" by (rule open_connection_eq)
  let ?w1 = "put_session s (Subscribed t c) st1 w"
  let ?w2 = "put_session s (Registered t c) (open_register c st1) ?w1"
  let ?x = "if ok then Live (live_new t c (st_config st) now) else Leaving t c False"
  have "step E w (Some (ai_tenant_id (tk_identity t))) ?w1" by (rule step.subscribed [OF assms(1) sub])
  moreover have "step E ?w1 (Some (co_tenant_id c)) ?w2"
    using step.registered [of ?w1 s t c E] by simp
  moreover have "step E ?w2 (Some (co_tenant_id c)) (put_session s ?x st ?w2)"
    by (rule open_ready_steps) (simp_all add: ready)
  ultimately have "steps E w (put_session s ?x st ?w2)" by (meson steps.intros)
  then show ?thesis by (simp only: world_put_again)
qed

section \<open>Every session can end\<close>

text \<open>From each phase the session can move on to the next one, and out, with no new session in between.\<close>

lemma session_can_leave:
  assumes "w_sessions w s = Some (Leaving t c b)"
  shows "\<exists>w'. steps E w w' \<and> w_sessions w' = (w_sessions w)(s := None) \<and> w_next w' = w_next w"
proof -
  have out: "\<exists>w'. steps E w w' \<and> w_sessions w' = (w_sessions w)(s := None) \<and> w_next w' = w_next w"
    if "w_sessions w s = Some (Leaving t c False)" for w
    using one_more [OF step.left [OF that, of E 0] no_step]
    by (intro exI [of _ "end_session s (handle_socket_end E 0 t (w_app w)) w"]) simp
  show ?thesis
  proof (cases b)
    case True
    with assms have s: "w_sessions w s = Some (Leaving t c True)" by simp
    let ?w1 = "put_session s (Leaving t c False)
                 (unregister_remove (co_client_id c) (co_tenant_id c) (w_app w)) w"
    obtain w' where "steps E ?w1 w'" "w_sessions w' = (w_sessions ?w1)(s := None)" "w_next w' = w_next ?w1"
      using out [of ?w1] by auto
    with one_more [OF step.unregister_entry [OF s, of E]] show ?thesis by auto
  next
    case False
    with assms out show ?thesis by simp
  qed
qed

lemma session_can_unregister:
  assumes s: "w_sessions w s = Some (Unregistering t c)"
  shows "\<exists>w'. steps E w w' \<and> w_sessions w' = (w_sessions w)(s := None) \<and> w_next w' = w_next w"
proof -
  let ?b = "unregister_check (co_client_id c) (co_tenant_id c) (co_connection_id c) (w_app w)"
  let ?w1 = "put_session s (Leaving t c ?b) (w_app w) w"
  have "w_sessions ?w1 s = Some (Leaving t c ?b)" by simp
  from session_can_leave [OF this] obtain w' where "steps E ?w1 w'" "w_sessions w' = (w_sessions ?w1)(s := None)" "w_next w' = w_next ?w1"
    by blast
  with one_more [OF step.unregister_get [OF s, of E]] show ?thesis by auto
qed

lemma session_can_finish:
  assumes s: "w_sessions w s = Some (Live v)" and r: "lv_reader v = Finished result"
  shows "\<exists>w'. steps E w w' \<and> w_sessions w' = (w_sessions w)(s := None) \<and> w_next w' = w_next w"
proof -
  let ?w1 = "put_session s (Unregistering (lv_ticket v) (lv_conn v))
               (abort_others E ReaderTask (lv_conn v) (lv_writer v) (lv_fanout v) (w_app w)) w"
  have "w_sessions ?w1 s = Some (Unregistering (lv_ticket v) (lv_conn v))" by simp
  from session_can_unregister [OF this] obtain w' where "steps E ?w1 w'"
    "w_sessions w' = (w_sessions ?w1)(s := None)" "w_next w' = w_next ?w1" by blast
  moreover have "task_of ReaderTask v = Finished result" using r by simp
  ultimately show ?thesis using one_more [OF step.task_over [OF s, of ReaderTask _ E]] by auto
qed

lemma session_can_drop:
  assumes "w_sessions w s = Some (Upgrading t)"
  shows "\<exists>w'. steps E w w' \<and> w_sessions w' = (w_sessions w)(s := None) \<and> w_next w' = w_next w"
  using one_more [OF step.upgrade_failed [OF assms, of E 0] no_step]
  by (intro exI [of _ "end_session s (drop_ticket E 0 t (w_app w)) w"]) simp

lemma session_can_answer:
  assumes "w_sessions w s = Some (Handling g)"
  shows "\<exists>w'. steps E w w' \<and> w_sessions w' = (w_sessions w)(s := None) \<and> w_next w' = w_next w"
  using assms
proof (induction "stages_left g" arbitrary: g w rule: less_induct)
  case less
  obtain r st where run: "ws_stage_step E [] (\<lambda>_. 0) 0 g (w_app w) = (r, st)" by (rule prod.exhaust)
  show ?case
  proof (cases r)
    case (Next g')
    with run have run: "ws_stage_step E [] (\<lambda>_. 0) 0 g (w_app w) = (Next g', st)" by simp
    let ?w1 = "put_session s (Handling g') st w"
    obtain w' where "steps E ?w1 w'" "w_sessions w' = (w_sessions ?w1)(s := None)" "w_next w' = w_next ?w1"
      using less.hyps [OF ws_stage_advances [OF run], of ?w1] by auto
    with one_more [OF step.handled [OF less.prems run]] show ?thesis by auto
  next
    case (Answer response)
    show ?thesis
    proof (cases response)
      case (Refuse status m)
      with run Answer have "ws_stage_step E [] (\<lambda>_. 0) 0 g (w_app w) = (Answer (Refuse status m), st)"
        by simp
      from one_more [OF step.refused [OF less.prems this] no_step] show ?thesis
        by (intro exI [of _ "end_session s st w"]) simp
    next
      case (Upgrade t)
      with run Answer have run: "ws_stage_step E [] (\<lambda>_. 0) 0 g (w_app w) = (Answer (Upgrade t), st)"
        by simp
      let ?w1 = "put_session s (Upgrading t) st w"
      obtain w' where "steps E ?w1 w'" "w_sessions w' = (w_sessions ?w1)(s := None)" "w_next w' = w_next ?w1"
        using session_can_drop [of ?w1 s t E] by auto
      with one_more [OF step.admitted [OF less.prems run]] show ?thesis by auto
    qed
  qed
qed

lemma session_can_stop:
  assumes v: "w_sessions w s = Some (Live v)"
  shows "\<exists>w'. steps E w w' \<and> w_sessions w' = (w_sessions w)(s := None) \<and> w_next w' = w_next w"
proof (cases "lv_reader v")
  case Running
  let ?v = "v\<lparr>lv_reader := Finished None, lv_limiter := lv_limiter v\<rparr>"
  let ?w1 = "put_session s (Live ?v) (w_app w) w"
  have "w_sessions ?w1 s = Some (Live ?v)" "lv_reader ?v = Finished None" by simp_all
  from session_can_finish [OF this] obtain w' where "steps E ?w1 w'"
    "w_sessions w' = (w_sessions ?w1)(s := None)" "w_next w' = w_next ?w1" by blast
  moreover have "reader_step E (\<lambda>_. 0) (lv_conn v) StreamEnd (lv_limiter v, w_app w)
      = (Finished None, lv_limiter v, w_app w)" by (simp add: reader_step_def)
  ultimately show ?thesis using one_more [OF step.reader [OF v Running]] by fastforce
qed (rule session_can_finish [OF v])

lemma session_can_open:
  assumes "w_sessions w s = Some (Registered t c)"
  shows "\<exists>w'. steps E w w' \<and> w_sessions w' = (w_sessions w)(s := None) \<and> w_next w' = w_next w"
proof -
  obtain ok st where ready: "open_ready E c (w_app w) = (ok, st)" by (rule prod.exhaust)
  let ?x = "if ok then Live (live_new t c (st_config st) 0) else Leaving t c False"
  let ?w1 = "put_session s ?x st w"
  have "w_sessions ?w1 s = Some ?x" by simp
  then obtain w' where "steps E ?w1 w'" "w_sessions w' = (w_sessions ?w1)(s := None)" "w_next w' = w_next ?w1"
    using session_can_stop [of ?w1 s _ E] session_can_leave [of ?w1 s t c False E] by (cases ok) force+
  with one_more [OF open_ready_steps [OF assms ready]] show ?thesis by auto
qed

lemma session_can_register:
  assumes "w_sessions w s = Some (Subscribed t c)"
  shows "\<exists>w'. steps E w w' \<and> w_sessions w' = (w_sessions w)(s := None) \<and> w_next w' = w_next w"
proof -
  let ?w1 = "put_session s (Registered t c) (open_register c (w_app w)) w"
  obtain w' where "steps E ?w1 w'" "w_sessions w' = (w_sessions ?w1)(s := None)" "w_next w' = w_next ?w1"
    using session_can_open [of ?w1 s t c E] by auto
  with one_more [OF step.registered [OF assms, of E]] show ?thesis by auto
qed

lemma session_can_end:
  assumes s: "w_sessions w s = Some x"
  shows "\<exists>w'. steps E w w' \<and> w_sessions w' = (w_sessions w)(s := None) \<and> w_next w' = w_next w"
proof (cases x)
  case (Handling g)
  with s show ?thesis by (simp add: session_can_answer)
next
  case (Upgrading t)
  with s show ?thesis by (simp add: session_can_drop)
next
  case (Subscribed t c)
  with s show ?thesis by (simp add: session_can_register)
next
  case (Registered t c)
  with s show ?thesis by (simp add: session_can_open)
next
  case (Live v)
  with s show ?thesis by (simp add: session_can_stop)
next
  case (Unregistering t c)
  with s show ?thesis by (simp add: session_can_unregister)
next
  case (Leaving t c b)
  with s show ?thesis by (simp add: session_can_leave)
qed

lemma all_sessions_can_end:
  "sessions_wf w \<Longrightarrow> \<exists>w'. steps E w w' \<and> w_sessions w' = Map.empty \<and> w_next w' = w_next w"
proof (induction "card (dom (w_sessions w))" arbitrary: w)
  case 0
  then show ?case by (auto simp: sessions_wf_def intro: no_step)
next
  case (Suc n)
  then have "dom (w_sessions w) \<noteq> {}" by auto
  then obtain s x where s: "w_sessions w s = Some x" by blast
  obtain w1 where w1: "steps E w w1" "w_sessions w1 = (w_sessions w)(s := None)" "w_next w1 = w_next w"
    using session_can_end [OF s] by blast
  have fin: "finite (dom (w_sessions w))" using Suc.prems by (simp add: sessions_wf_def)
  have "sessions_wf w1" using w1(1) Suc.prems
    by (induction rule: steps.induct) (auto intro: sessions_wf_step)
  moreover have "n = card (dom (w_sessions w1))"
    using Suc.hyps(2) fin s by (simp add: w1(2) card_Diff_singleton domI)
  ultimately obtain w' where "steps E w1 w'" "w_sessions w' = Map.empty" "w_next w' = w_next w1" using Suc.hyps(1) by blast
  with w1 show ?case using steps_trans by metis
qed

end
