(* ===== verification/Delivery.thy ===== *)
theory Delivery
  imports Reachable
begin

text \<open>
  Order of delivery. What a client gets is the sequence of the data frames its writer has
  put on the wire, followed by the one the writer holds and by what is queued for it; every
  step of the server either leaves this sequence alone or adds to its end, as long as the
  writer runs.
\<close>

section \<open>Queues grow at the end\<close>

definition extends_queues ::
    "('q \<Rightarrow> outbound_message list) \<Rightarrow> ('s, 'b, 'q, 'k) app_state \<Rightarrow> ('s, 'b, 'q, 'k) app_state
      \<Rightarrow> bool" where
  "extends_queues queued st st' \<longleftrightarrow>
     (\<forall>a. \<exists>ms. queue_of queued st' a = queue_of queued st a @ ms)"

lemma extends_queues_same:
  "st_chans st' = st_chans st \<Longrightarrow> extends_queues queued st st'"
  by (simp add: extends_queues_def queue_of_def)

lemma extends_queues_trans:
  assumes "extends_queues queued st st1" "extends_queues queued st1 st2"
  shows "extends_queues queued st st2"
  unfolding extends_queues_def
proof
  fix a
  from assms obtain ms ms' where "queue_of queued st1 a = queue_of queued st a @ ms"
    "queue_of queued st2 a = queue_of queued st1 a @ ms'" unfolding extends_queues_def by blast
  then show "\<exists>ms. queue_of queued st2 a = queue_of queued st a @ ms" by simp
qed

sublocale server_env \<subseteq> fifo: message_steps E "extends_queues queued" UNIV UNIV
proof unfold_locales
  fix st st' :: "('s, 'b, 'q, 'k) app_state" and a m
  assume "chan_try_send E a m st = Inr st'"
  from chan_send_queue [OF this] show "extends_queues queued st st'"
    by (simp add: extends_queues_def)
next
  fix st st' :: "('s, 'b, 'q, 'k) app_state" and key m n
  assume "publish E key m st = (n, st')"
  then show "extends_queues queued st st'"
    by (rule publish_only) (simp add: extends_queues_same)
next
  fix st st' :: "('s, 'b, 'q, 'k) app_state" and clk t ok
  assume "check_tenant_rate clk t st = (ok, st')"
  then show "extends_queues queued st st'"
    by (rule check_tenant_rate_only) (simp add: extends_queues_same)
qed (auto simp: extends_queues_same intro: extends_queues_trans)

section \<open>The stream of a client\<close>

lemma queue_of_count [simp]: "queue_of queued (count_metric f st) = queue_of queued st"
  by (simp add: queue_of_def fun_eq_iff)

definition data_frames :: "ws_message list \<Rightarrow> ws_message list" where
  \<comment> \<open>what was on the wire, without the heartbeats\<close>
  "data_frames fs = filter (\<lambda>f. f \<noteq> WsPing []) fs"

definition held_frames :: "live \<Rightarrow> ws_message list" where
  \<comment> \<open>what the writer has taken and not yet sent\<close>
  "held_frames v = (case lv_holding v of Some held \<Rightarrow> [in_flight_frame held] | None \<Rightarrow> [])"

definition client_stream ::
    "('q \<Rightarrow> outbound_message list) \<Rightarrow> ('s, 'b, 'q, 'k) app_state \<Rightarrow> live \<Rightarrow> ws_message list" where
  "client_stream queued st v =
     data_frames (lv_wire v @ held_frames v) @ map into_ws_message (queue_of queued st (co_tx (lv_conn v)))"

definition stream_extended ::
    "('q \<Rightarrow> outbound_message list) \<Rightarrow> ('s, 'b, 'q, 'k) app_state \<Rightarrow> live
      \<Rightarrow> ('s, 'b, 'q, 'k) app_state \<Rightarrow> live \<Rightarrow> bool" where
  "stream_extended queued st v st' v' \<longleftrightarrow>
     (\<exists>fs. client_stream queued st' v' = client_stream queued st v @ fs)"

lemma into_ws_message_not_ping: "into_ws_message m \<noteq> WsPing p"
  by (cases m) (simp_all add: into_ws_message_def)

lemma stream_extended_queue:
  assumes "\<exists>ms. queue_of queued st' (co_tx (lv_conn v)) = queue_of queued st (co_tx (lv_conn v)) @ ms"
    and "lv_wire v' = lv_wire v" "lv_holding v' = lv_holding v" "lv_conn v' = lv_conn v"
  shows "stream_extended queued st v st' v'"
  using assms by (auto simp: stream_extended_def client_stream_def held_frames_def)

lemma queue_of_other:
  "st_chans st' a = st_chans st a \<Longrightarrow> \<exists>ms. queue_of queued st' a = queue_of queued st a @ ms"
  by (simp add: queue_of_def)

context server_env
begin

lemma writer_step_stream:
  assumes step: "writer_step E (lv_conn v) out (lv_holding v, st) = Some (Running, frame, holding, st')"
    and v': "lv_wire v' = lv_wire v @ (case frame of Some f \<Rightarrow> [f] | None \<Rightarrow> [])"
      "lv_holding v' = holding" "lv_conn v' = lv_conn v"
  shows "client_stream queued st' v' = client_stream queued st v"
  using step
proof (cases rule: writer_step_eq)
  case (taken q q' m)
  with mpsc.recv_Some [OF taken(3)] v' show ?thesis
    by (simp add: client_stream_def held_frames_def queue_of_def data_frames_def into_ws_message_not_ping)
qed (use v' in \<open>simp_all add: client_stream_def held_frames_def data_frames_def\<close>)

lemma fanout_extends:
  assumes "fanout_step E c st = Some (r, st')"
  shows "extends_queues queued st st'"
proof -
  have topics: "extends_queues queued st1 (put_topic key b st1)"
      "extends_queues queued st1 (drop_fanout E c st1)" for key b st1
    by (auto intro!: extends_queues_same simp: put_topic_def drop_fanout_def split: option.split)
  have send: "extends_queues queued st (snd (send_encoded E tx m (put_topic key b st)))" for tx m key b
    by (rule extends_queues_trans [OF topics(1) fifo.R_send_encoded]) simp
  from assms show ?thesis
  proof (rule fanout_step_eq)
    fix b' m assume "send_encoded E (co_tx c) m (put_topic (co_topic_key c) b' st) = (True, st')"
    with send show ?thesis by (metis sndI)
  next
    fix b' m st1 assume "send_encoded E (co_tx c) m (put_topic (co_topic_key c) b' st) = (False, st1)"
      and "st' = drop_fanout E c st1"
    with send extends_queues_trans topics(2) show ?thesis by (metis sndI)
  qed (simp add: topics fifo.R_then_metric)
qed

text \<open>
  A step leaves the queue of a session alone when it is at the address of another one; the
  readers, the fan-outs and the calls put messages at the end of queues.
\<close>

lemma stream_step:
  assumes step: "step E w actor w'" and wf: "sessions_wf w"
    and dist: "queues_distinct (w_app w) (w_sessions w)"
    and s: "w_sessions w s = Some (Live v)" "w_sessions w' s = Some (Live v')"
    and run: "lv_writer v' = Running"
  shows "stream_extended queued (w_app w) v (w_app w') v'"
proof -
  let ?a = "co_tx (lv_conn v)"
  have same: "stream_extended queued (w_app w) v st v" if "st_chans st ?a = st_chans (w_app w) ?a" for st
    by (rule stream_extended_queue) (use that queue_of_other in auto)
  have other: "stream_extended queued (w_app w) v (w_app w') v'"
    if "w_sessions w' = (w_sessions w)(s' := z)" "s' \<noteq> s" "st_chans (w_app w') ?a = st_chans (w_app w) ?a"
    for s' z using same [OF that(3)] that(1,2) s by simp
  have at_other: "st_chans (w_app w') ?a = st_chans (w_app w) ?a"
    if "w_sessions w s' = Some x" "session_conn x = Some c" "s' \<noteq> s"
      "co_tx c \<in> {co_tx c} \<Longrightarrow> co_topic_key c \<in> UNIV \<Longrightarrow> touches {co_tx c} UNIV (w_app w) (w_app w')" for s' x c
  proof -
    have "co_tx c \<noteq> ?a"
      using dist s(1) that(1-3) unfolding queues_distinct_def by (metis session_conn.simps(5))
    with that(4) show ?thesis by (simp add: touches_def)
  qed
  have sends: "stream_extended queued (w_app w) v (w_app w') v'"
    if "extends_queues queued (w_app w) (w_app w')" "lv_wire v' = lv_wire v" "lv_holding v' = lv_holding v"
      "lv_conn v' = lv_conn v"
    by (rule stream_extended_queue) (use that in \<open>auto simp: extends_queues_def\<close>)
  from step show ?thesis
  proof (cases rule: step_kinds)
    case (request query peer headers)
    with s wf show ?thesis by (intro other [OF request(4)]) (auto simp: sessions_wf_def)
  next
    case (staged s' g keys clk now_secs r)
    with s ws_stage_frame(4) [OF staged(3)] show ?thesis by (intro other [OF staged(4)]) auto
  next
    case (subscribed s' t c)
    with s queues_distinctD(1) [OF dist s(1)] open_subscribe_control(9,14) [OF subscribed(3)]
    show ?thesis by (intro other [OF subscribed(4)]) auto
  next
    case (opened s' t c ok now)
    then have "s' \<noteq> s" using s by auto
    with at_other [OF opened(2) _ _ touches_open_ready [OF opened(3)]] show ?thesis
      by (intro other [OF opened(4)]) simp_all
  next
    case (reader s' u clk input r l)
    have "extends_queues queued (w_app w) (w_app w')" using reader(4) by (rule fifo.R_reader_step) auto
    with s reader(2,5) sends show ?thesis by (auto split: if_splits)
  next
    case (writer s' u out r frame holding)
    show ?thesis
    proof (cases "s' = s")
      case True
      with s writer(2,5) have "v' = v\<lparr>lv_writer := r, lv_holding := holding,
          lv_wire := lv_wire v @ (case frame of None \<Rightarrow> [] | Some f \<Rightarrow> [f])\<rparr>" "u = v" by auto
      with run writer(4) writer_step_stream [of v out "w_app w" frame holding "w_app w'" v'] show ?thesis
        by (simp add: stream_extended_def)
    next
      case False
      with at_other [OF writer(2) _ False touches_writer_step [OF writer(4)]] show ?thesis
        by (intro other [OF writer(5)]) auto
    qed
  next
    case (fanout s' u r)
    from fanout_extends [OF fanout(4)] s fanout(2,5) sends show ?thesis by (auto split: if_splits)
  next
    case (task_over s' u completed result)
    then have "s' \<noteq> s" using s by auto
    with at_other [OF task_over(2)] task_over(4) show ?thesis
      by (intro other [OF task_over(5)]) (auto simp: touches_abort_others)
  next
    case called
    have "extends_queues queued (w_app w) (w_app w')" using called(1) by (rule fifo.R_api_call) auto
    with s called(2) sends show ?thesis by simp
  qed (use s in \<open>auto intro!: same simp: frame_simps unregister_remove_def split: if_splits\<close>)
qed

end

section \<open>What the tasks deliver\<close>

context server_env
begin

lemma send_room:
  assumes "st_chans st a = Some q" "\<not> qclosed q" "length (queued q) < qcap q"
  obtains st' q' where "chan_try_send E a m st = Inr st'" "st_chans st' a = Some q'"
    "queued q' = queued q @ [m]" "qcap q' = qcap q" "\<not> qclosed q'"
proof -
  from assms chan_send_accepts_iff [of a m st] obtain st' where send: "chan_try_send E a m st = Inr st'"
    by blast
  then obtain q' where q': "mpsc_try_send (env_mpsc E) q m = Inr q'"
      "st' = st\<lparr>st_chans := (st_chans st)(a \<mapsto> q')\<rparr>"
    by (rule chan_try_send_eq) (use assms(1) in auto)
  from mpsc.try_send_ok [OF q'(1)] q'(2) that [OF send, of q'] show thesis by simp
qed

lemma send_encoded_queue:
  assumes "send_encoded E tx m st = (ok, st')"
  shows "queue_of queued st' tx = (if ok then queue_of queued st tx @ [OutBinary m] else queue_of queued st tx)"
    and "st_topics st' = st_topics st"
    and "\<not> ok \<Longrightarrow> m_dropped_messages (st_metrics st') = m_dropped_messages (st_metrics st) + 1"
  using assms
  by (rule send_encoded_eq;
      auto simp: chan_send_queue queue_of_def metrics_ops elim: chan_try_send_eq; fail)+

text \<open>One step of the fan-out, in terms of the pending messages of its receiver.\<close>

lemma fanout_step_delivers:
  assumes step: "fanout_step E c st = Some (r, st')" and mine: "co_rx c \<in> topic_rx st (co_topic_key c)"
  shows "(r = Running \<and> queue_of queued st' (co_tx c) = queue_of queued st (co_tx c)
            \<and> topic_msgs st' (co_topic_key c) (co_rx c) = topic_msgs st (co_topic_key c) (co_rx c)
            \<and> m_dropped_messages (st_metrics st') = m_dropped_messages (st_metrics st) + 1)
       \<or> (\<exists>m. topic_msgs st (co_topic_key c) (co_rx c)
                = m # topic_msgs st' (co_topic_key c) (co_rx c)
            \<and> r = Running
            \<and> queue_of queued st' (co_tx c) = queue_of queued st (co_tx c) @ [OutBinary m])
       \<or> (r \<noteq> Running \<and> queue_of queued st' (co_tx c) = queue_of queued st (co_tx c)
            \<and> co_rx c \<notin> topic_rx st' (co_topic_key c)
            \<and> m_dropped_messages (st_metrics st') = m_dropped_messages (st_metrics st) + 1)"
  using step
proof (rule fanout_step_eq)
  fix b b' n assume b: "st_topics st (co_topic_key c) = Some b"
    and recv: "bc_recv (env_bcast E) b (co_rx c) = BcLagged n b'" and r: "r = Running"
    and st': "st' = count_metric message_dropped (put_topic (co_topic_key c) b' st)"
  from mine b have rx: "co_rx c \<in> receivers b" by (simp add: topic_receivers_def)
  from bc.recv_lagged [OF recv rx] rx show ?thesis
    by (simp add: r st' topic_pending_def queue_of_def put_topic_def b metrics_ops)
next
  fix b b' m assume b: "st_topics st (co_topic_key c) = Some b"
    and recv: "bc_recv (env_bcast E) b (co_rx c) = BcMessage m b'" and r: "r = Running"
    and send: "send_encoded E (co_tx c) m (put_topic (co_topic_key c) b' st) = (True, st')"
  from mine b have rx: "co_rx c \<in> receivers b" by (simp add: topic_receivers_def)
  from bc.recv_message [OF recv rx] send_encoded_queue(1,2) [OF send] r b show ?thesis
    by (simp add: topic_pending_def queue_of_def put_topic_def)
next
  fix b b' m st1 assume b: "st_topics st (co_topic_key c) = Some b"
    and "r = Finished (Some ''client send queue is full or closed'')"
    and send: "send_encoded E (co_tx c) m (put_topic (co_topic_key c) b' st) = (False, st1)"
    and st': "st' = drop_fanout E c st1"
  have "queue_of queued st' (co_tx c) = queue_of queued st1 (co_tx c)"
    "st_metrics st' = st_metrics st1"
    by (simp_all add: st' drop_fanout_def put_topic_def queue_of_def split: option.split)
  with send_encoded_queue [OF send] \<open>r = _\<close> st' show ?thesis
    by (simp add: queue_of_def put_topic_def)
qed

text \<open>The end of the reader aborts the writer, and with it goes what is still queued.\<close>

lemma abort_discards_queue:
  "queue_of queued (abort_others E ReaderTask c Running fanout st) (co_tx c) = []"
proof -
  have "queue_of queued (drop_writer E c st1) (co_tx c) = []" for st1
    using mpsc.close_queue by (simp add: drop_writer_def queue_of_def split: option.split)
  then show ?thesis by (simp add: abort_others_def abort_writer_def)
qed

end

text \<open>
  A frame has an effect beyond the connection's own queue only when it passes both rate
  limiters and, for a text frame, the length limit.
\<close>

lemma text_gate:
  assumes step: "read_text E clk c raw (l, st) = (r, l', st')"
    and refused: "\<not> fst (rate_limiter_allow (clk 0) l) \<or>
        unat (cfg_max_text_bytes (st_config st)) < str_len raw \<or>
        \<not> fst (check_tenant_rate (\<lambda>i. clk (i + 1)) (co_tenant_id c) (count_metric message_in st))"
  shows "touches {co_tx c} {} st st'"
proof -
  let ?st = "count_metric message_in st"
  obtain ok l1 where allow: "rate_limiter_allow (clk 0) l = (ok, l1)" by (rule prod.exhaust)
  obtain tok st1 where rate: "check_tenant_rate (\<lambda>i. clk (i + 1)) (co_tenant_id c) ?st = (tok, st1)"
    by (rule prod.exhaust)
  have "touches {co_tx c} {} ?st st'"
    using step allow rate refused touches_check_tenant_rate [OF rate, of "{co_tx c}" "{}"]
    by (auto simp: read_text_def Let_def touching.R_reject_rate_limited touching.R_then_error
        touching.R_metrics
        intro: touching.R_trans [OF touching.R_trans [OF _ touching.R_metrics(5)] touching.R_send_error]
        split: if_splits)
  with touching.R_metrics(1) show ?thesis by (rule touches_trans)
qed

lemma binary_gate:
  assumes step: "read_binary E clk c raw (l, st) = (r, l', st')"
    and refused: "\<not> fst (rate_limiter_allow (clk 0) l) \<or>
        \<not> fst (check_tenant_rate (\<lambda>i. clk (i + 1)) (co_tenant_id c) (count_metric message_in st))"
  shows "touches {co_tx c} {} st st'"
proof -
  let ?st = "count_metric message_in st"
  obtain ok l1 where allow: "rate_limiter_allow (clk 0) l = (ok, l1)" by (rule prod.exhaust)
  obtain tok st1 where rate: "check_tenant_rate (\<lambda>i. clk (i + 1)) (co_tenant_id c) ?st = (tok, st1)"
    by (rule prod.exhaust)
  have "touches {co_tx c} {} ?st st'"
    using step allow rate refused touches_check_tenant_rate [OF rate, of "{co_tx c}" "{}"]
    by (auto simp: read_binary_def Let_def touching.R_reject_rate_limited touching.R_then_error
        touching.R_metrics
        intro: touching.R_trans [OF touching.R_trans [OF _ touching.R_metrics(5)] touching.R_send_error]
        split: if_splits)
  with touching.R_metrics(1) show ?thesis by (rule touches_trans)
qed

end
