(* ===== verification/Frame_Handling.thy ===== *)
theory Frame_Handling
  imports Delivery
begin

text \<open>
  What the frames of a client and the calls of the HTTP interface do: the gate of the rate
  limiters, the outcomes of the handlers when the queues have room, and the outcomes of
  opening a connection and of leaving the registry.
\<close>

section \<open>The gate in front of the handlers\<close>

definition frame_passes ::
    "clock \<Rightarrow> conn \<Rightarrow> ws_message \<Rightarrow> rate_limiter \<Rightarrow> ('s, 'b, 'q, 'k) app_state \<Rightarrow> bool" where
  "frame_passes clk c f l st \<longleftrightarrow>
     fst (rate_limiter_allow (clk 0) l) \<and>
     (case f of WsText raw \<Rightarrow> str_len raw \<le> unat (cfg_max_text_bytes (st_config st)) | _ \<Rightarrow> True) \<and>
     fst (check_tenant_rate (\<lambda>i. clk (i + 1)) (co_tenant_id c) st)"

lemma check_tenant_rate_count [simp]:
  "fst (check_tenant_rate clk t (count_metric f st)) = fst (check_tenant_rate clk t st)"
  by (simp add: check_tenant_rate_def Let_def split: option.split prod.split)

lemma frame_gate:
  assumes step: "reader_step E clk c (Frame f) (l, st) = (r, l', st')"
    and refused: "\<not> frame_passes clk c f l st"
  shows "touches {co_tx c} {} st st'"
proof (cases f)
  case (WsText raw)
  with step have "read_text E clk c raw (l, st) = (r, l', st')" by (simp add: reader_step_def)
  then show ?thesis
    by (rule text_gate) (use refused WsText in \<open>auto simp: frame_passes_def\<close>)
next
  case (WsBinary raw)
  with step have "read_binary E clk c raw (l, st) = (r, l', st')" by (simp add: reader_step_def)
  then show ?thesis
    by (rule binary_gate) (use refused WsBinary in \<open>auto simp: frame_passes_def\<close>)
qed (use step in \<open>auto simp: reader_step_def intro: touching.R_try_send_ignoring\<close>)

text \<open>
  Which frames are charged to the tenant: those that pass the connection's own limiter and, a
  text frame, the length limit. The answers to a refused frame charge nothing more.
\<close>

definition frame_charged ::
    "clock \<Rightarrow> ws_message \<Rightarrow> rate_limiter \<Rightarrow> ('s, 'b, 'q, 'k) app_state \<Rightarrow> bool" where
  "frame_charged clk f l st \<longleftrightarrow>
     fst (rate_limiter_allow (clk 0) l) \<and>
     (case f of
        WsText raw \<Rightarrow> str_len raw \<le> unat (cfg_max_text_bytes (st_config st))
      | WsBinary _ \<Rightarrow> True
      | _ \<Rightarrow> False)"

lemma check_tenant_rate_count_rates [simp]:
  "st_tenant_rate_limits (snd (check_tenant_rate clk t (count_metric f st)))
     = st_tenant_rate_limits (snd (check_tenant_rate clk t st))"
  by (simp add: check_tenant_rate_def Let_def split: option.split prod.split)

lemma send_rates [simp]:
  "st_tenant_rate_limits (snd (send_encoded E tx m st)) = st_tenant_rate_limits st"
  "st_tenant_rate_limits (try_send_ignoring E tx out st) = st_tenant_rate_limits st"
  "st_tenant_rate_limits (send_error E tx code message st) = st_tenant_rate_limits st"
proof -
  show send: "st_tenant_rate_limits (snd (send_encoded E tx m st)) = st_tenant_rate_limits st" for m
    by (auto simp: send_encoded_def elim: chan_try_send_eq split: sum.split try_send_error.split)
  show "st_tenant_rate_limits (try_send_ignoring E tx out st) = st_tenant_rate_limits st"
    by (auto simp: try_send_ignoring_def elim: chan_try_send_eq split: sum.split)
  show "st_tenant_rate_limits (send_error E tx code message st) = st_tenant_rate_limits st"
    by (simp add: send_error_def send split: option.split)
qed

lemma refused_frame_rates:
  assumes step: "reader_step E clk c (Frame f) (l, st) = (r, l', st')"
    and refused: "\<not> frame_passes clk c f l st"
  shows "st_tenant_rate_limits st'
           = (if frame_charged clk f l st
              then st_tenant_rate_limits (snd (check_tenant_rate (\<lambda>i. clk (i + 1)) (co_tenant_id c) st))
              else st_tenant_rate_limits st)"
proof -
  let ?check = "check_tenant_rate (\<lambda>i. clk (i + 1)) (co_tenant_id c)"
  obtain ok st1 where rate: "?check (count_metric message_in st) = (ok, st1)" by (rule prod.exhaust)
  then have "ok = fst (?check st)" "st_tenant_rate_limits st1 = st_tenant_rate_limits (snd (?check st))"
    using check_tenant_rate_count check_tenant_rate_count_rates by (metis fst_conv snd_conv)+
  with step refused rate show ?thesis
    by (cases f)
       (auto simp: reader_step_def read_text_def read_binary_def reject_rate_limited_def Let_def
         frame_passes_def frame_charged_def split: prod.splits if_splits)
qed

lemma check_tenant_rate_bystander:
  "u \<noteq> t \<Longrightarrow> map_option (\<lambda>m. m u) (st_tenant_rate_limits (snd (check_tenant_rate clk t st)))
              = map_option (\<lambda>m. m u) (st_tenant_rate_limits st)"
  by (simp add: check_tenant_rate_def Let_def split: option.split prod.split)

lemma refused_frame_effect:
  fixes st st' :: "('s, 'b, 'q, 'k) app_state"
  assumes step: "reader_step E clk c (Frame f) (l, st) = (r, l', st')"
    and refused: "\<not> frame_passes clk c f l st"
  shows "st' = st\<lparr>st_metrics := st_metrics st', st_chans := st_chans st',
                 st_tenant_rate_limits := st_tenant_rate_limits st'\<rparr>"
    and "a \<noteq> co_tx c \<Longrightarrow> st_chans st' a = st_chans st a"
    and "u \<noteq> co_tenant_id c \<Longrightarrow> map_option (\<lambda>m. m u) (st_tenant_rate_limits st')
           = map_option (\<lambda>m. m u) (st_tenant_rate_limits st)"
proof -
  note touch = frame_gate [OF assms, unfolded touches_def same_control_def]
  then have "st_topics st' = st_topics st" by auto
  with touch show "st' = st\<lparr>st_metrics := st_metrics st', st_chans := st_chans st',
                 st_tenant_rate_limits := st_tenant_rate_limits st'\<rparr>" by simp
  from touch show "a \<noteq> co_tx c \<Longrightarrow> st_chans st' a = st_chans st a" by simp
  show "u \<noteq> co_tenant_id c \<Longrightarrow> map_option (\<lambda>m. m u) (st_tenant_rate_limits st')
           = map_option (\<lambda>m. m u) (st_tenant_rate_limits st)"
    by (simp add: refused_frame_rates [OF assms] check_tenant_rate_bystander)
qed

section \<open>Queues with room\<close>

definition has_room ::
    "('q \<Rightarrow> outbound_message list) \<Rightarrow> ('q \<Rightarrow> nat) \<Rightarrow> ('q \<Rightarrow> bool) \<Rightarrow> ('s, 'b, 'q, 'k) app_state
      \<Rightarrow> nat \<Rightarrow> nat \<Rightarrow> bool" where
  \<comment> \<open>the queue at \<open>a\<close> is open and takes \<open>n\<close> more messages\<close>
  "has_room queued qcap qclosed st a n \<longleftrightarrow>
     (\<exists>q. st_chans st a = Some q \<and> \<not> qclosed q \<and> length (queued q) + n \<le> qcap q)"

lemma has_room_count [simp]:
  "has_room queued qcap qclosed (count_metric f st) a n = has_room queued qcap qclosed st a n"
  by (simp add: has_room_def)

context server_env
begin

abbreviation "room \<equiv> has_room queued qcap qclosed"
abbreviation "queues \<equiv> queue_of queued"

lemma send_with_room:
  assumes "room st a (Suc n)"
  obtains st' where "chan_try_send E a m st = Inr st'" "room st' a n"
    "queues st' = (queues st)(a := queues st a @ [m])" "st_metrics st' = st_metrics st"
proof -
  from assms obtain q where q: "st_chans st a = Some q" "\<not> qclosed q"
      "length (queued q) + Suc n \<le> qcap q" by (auto simp: has_room_def)
  then have "length (queued q) < qcap q" by simp
  from q(1,2) this obtain st' q' where st': "chan_try_send E a m st = Inr st'" "st_chans st' a = Some q'"
      "queued q' = queued q @ [m]" "qcap q' = qcap q" "\<not> qclosed q'" by (rule send_room)
  from this(1) have "st_metrics st' = st_metrics st" by (rule chan_try_send_eq) simp
  with that [OF st'(1)] st' q(3) chan_send_queue [OF st'(1)] show thesis
    by (simp add: has_room_def)
qed

lemma send_encoded_room:
  assumes "room st a (Suc n)"
  shows "fst (send_encoded E a m st)"
    and "queues (snd (send_encoded E a m st)) = (queues st)(a := queues st a @ [OutBinary m])"
    and "room (snd (send_encoded E a m st)) a n"
    and "st_metrics (snd (send_encoded E a m st)) = st_metrics st"
  by (rule send_with_room [OF assms, of "OutBinary m"]; simp add: send_encoded_def)+

lemma try_send_room:
  assumes "room st a (Suc n)"
  shows "queues (try_send_ignoring E a m st) = (queues st)(a := queues st a @ [m])"
    and "st_metrics (try_send_ignoring E a m st) = st_metrics st"
  by (rule send_with_room [OF assms, of m]; simp add: try_send_ignoring_def)+

lemma send_error_room:
  assumes "room st a (Suc n)"
    and "encode_server_event (env_codec E) (Error (lit code) (lit message)) = Some e"
  shows "queues (send_error E a code message st) = (queues st)(a := queues st a @ [OutBinary e])"
    and "room (send_error E a code message st) a n"
    and "st_metrics (send_error E a code message st) = st_metrics st"
  using send_encoded_room [OF assms(1)] by (simp_all add: send_error_def assms(2))

text \<open>Without room the message is dropped and counted, and nothing else happens.\<close>

lemma send_error_no_room:
  assumes "\<not> room st a 1"
    and "encode_server_event (env_codec E) (Error (lit code) (lit message)) = Some e"
  shows "send_error E a code message st = count_metric message_dropped st"
proof -
  have "\<not> (\<exists>q. st_chans st a = Some q \<and> \<not> qclosed q \<and> length (queued q) < qcap q)"
    using assms(1) by (auto simp: has_room_def)
  with chan_send_accepts_iff [of a "OutBinary e" st] show ?thesis
    by (auto simp: send_error_def assms(2) send_encoded_def split: sum.split try_send_error.split)
qed

text \<open>Both ways the reader says goodbye: the limiter's refusal and the idle timeout.\<close>

lemma reader_over_limit:
  assumes step: "reader_step E clk c (Frame f) (l, st) = (r, l', st')"
    and frame: "f = WsText txt \<or> f = WsBinary raw"
    and over: "\<not> fst (rate_limiter_allow (clk 0) l)" and room: "room st (co_tx c) 2"
    and enc: "encode_server_event (env_codec E)
                (Error (lit ''rate_limited'') (lit ''message rate limit exceeded'')) = Some e"
  shows "r = Finished None"
    and "queues st' (co_tx c)
           = queues st (co_tx c) @ [OutBinary e, OutClose close_policy (lit ''rate limit exceeded'')]"
    and "st_metrics st' = protocol_error (message_in (st_metrics st))"
proof -
  let ?st = "count_metric protocol_error (count_metric message_in st)"
  have both: "r = Finished None" "st' = reject_rate_limited E (co_tx c) (count_metric message_in st)"
    using step frame over
    by (auto simp: reader_step_def read_text_def read_binary_def Let_def split: prod.splits)
  note st' = both(2)
  show "r = Finished None" by (rule both(1))
  have "room ?st (co_tx c) (Suc (Suc 0))" using room by (simp add: numeral_2_eq_2)
  note err = send_error_room [OF this enc]
  note close = try_send_room [OF err(2), of "OutClose close_policy (lit ''rate limit exceeded'')"]
  show "queues st' (co_tx c)
           = queues st (co_tx c) @ [OutBinary e, OutClose close_policy (lit ''rate limit exceeded'')]"
    using err(1) close(1) by (simp add: st' reject_rate_limited_def)
  show "st_metrics st' = protocol_error (message_in (st_metrics st))"
    using err(3) close(2) by (simp add: st' reject_rate_limited_def)
qed

lemma reader_idle:
  assumes "reader_step E clk c IdleElapsed (l, st) = (r, l', st')" "room st (co_tx c) 1"
  shows "r = Finished None"
    and "queues st' = (queues st)(co_tx c := queues st (co_tx c) @ [OutClose close_normal (lit ''idle timeout'')])"
    and "st_metrics st' = st_metrics st"
  using assms try_send_room [of st "co_tx c" 0] by (auto simp: reader_step_def)

end

section \<open>Direct messages\<close>

text \<open>The queue a direct message to a client of the tenant goes to, when it can be delivered.\<close>

definition direct_target ::
    "('q \<Rightarrow> outbound_message list) \<Rightarrow> ('q \<Rightarrow> nat) \<Rightarrow> ('q \<Rightarrow> bool) \<Rightarrow> ('s, 'b, 'q, 'k) app_state
      \<Rightarrow> rust_string \<Rightarrow> rust_string \<Rightarrow> nat option" where
  "direct_target queued qcap qclosed st tenant client =
     (case st_clients st (tenant, client) of
        None \<Rightarrow> None
      | Some h \<Rightarrow>
          (case st_chans st (ch_sender h) of
             None \<Rightarrow> None
           | Some q \<Rightarrow> if \<not> qclosed q \<and> length (queued q) < qcap q then Some (ch_sender h) else None))"

context server_env
begin

abbreviation "target \<equiv> direct_target queued qcap qclosed"

lemma send_to_client_target:
  assumes "send_to_client E client tenant m st = (ok, st')"
  shows "ok \<longleftrightarrow> target st tenant client \<noteq> None"
    and "st_metrics st' = st_metrics st"
    and "queues st' = (case target st tenant client of
           None \<Rightarrow> queues st | Some a \<Rightarrow> (queues st)(a := queues st a @ [OutBinary m]))"
    and "\<not> ok \<Longrightarrow> st' = st"
proof -
  have iff: "ok \<longleftrightarrow> target st tenant client \<noteq> None"
    using send_to_client_iff [of client tenant m st] assms
    by (auto simp: direct_target_def split: option.splits if_splits)
  have tgt: "target st tenant client = Some (ch_sender h)"
    if ok "st_clients st (tenant, client) = Some h" for h
    using that iff by (auto simp: direct_target_def split: option.splits if_splits)
  show "ok \<longleftrightarrow> target st tenant client \<noteq> None" by (rule iff)
  show "st_metrics st' = st_metrics st"
    using assms by (rule send_to_client_eq) (auto elim: chan_try_send_eq)
  show "\<not> ok \<Longrightarrow> st' = st"
    using assms by (rule send_to_client_eq) auto
  show "queues st' = (case target st tenant client of
           None \<Rightarrow> queues st | Some a \<Rightarrow> (queues st)(a := queues st a @ [OutBinary m]))"
    using assms
  proof (rule send_to_client_eq)
    fix h assume ok and h: "st_clients st (tenant, client) = Some h"
      and send: "chan_try_send E (ch_sender h) (OutBinary m) st = Inr st'"
    from tgt [OF \<open>ok\<close> h] chan_send_queue [OF send] show ?thesis by simp
  next
    assume "\<not> ok" "st' = st"
    with iff show ?thesis by simp
  qed
qed

lemma direct_event_outcome:
  assumes enc: "encode_server_event (env_codec E) (DirectMessage client to request_id payload) = Some m"
    and err: "encode_server_event (env_codec E)
                (Error (lit ''client_not_found'') (lit ''target client is not online'')) = Some e"
    and st': "st' = direct_event E tx tenant client to request_id payload st"
  shows "case target st tenant to of
           Some a \<Rightarrow> queues st' = (queues st)(a := queues st a @ [OutBinary m])
                     \<and> st_metrics st' = st_metrics st
         | None \<Rightarrow>
             if room st tx 1
             then queues st' = (queues st)(tx := queues st tx @ [OutBinary e])
                  \<and> st_metrics st' = message_dropped (st_metrics st)
             else queues st' = queues st
                  \<and> st_metrics st' = message_dropped (message_dropped (st_metrics st))"
proof -
  obtain ok st1 where send: "send_to_client E to tenant m st = (ok, st1)" by (rule prod.exhaust)
  note out = send_to_client_target [OF send]
  show ?thesis
  proof (cases ok)
    case True
    with out send enc show ?thesis
      by (auto simp: st' direct_event_def split: option.split)
  next
    case False
    with out(1,4) send enc have none: "target st tenant to = None" and
      told: "st' = send_error E tx ''client_not_found'' ''target client is not online''
               (count_metric message_dropped st)" by (simp_all add: st' direct_event_def)
    show ?thesis
    proof (cases "room st tx 1")
      case True
      then have "room (count_metric message_dropped st) tx (Suc 0)" by simp
      from send_error_room [OF this err] True none told show ?thesis by simp
    next
      case False
      then have "\<not> room (count_metric message_dropped st) tx 1" by simp
      from send_error_no_room [OF this err] False none told show ?thesis by simp
    qed
  qed
qed

lemma api_direct_outcome:
  assumes id: "resolve_identity E now_secs headers st = Inr identity"
    and enc: "encode_server_event (env_codec E) (DirectMessage (ai_client_id identity) (db_to body)
                (db_request_id body) (db_payload body)) = Some m"
    and call: "api_direct E now_secs headers body st = (response, st')"
  shows "case target st (ai_tenant_id identity) (db_to body) of
           Some a \<Rightarrow> response = (status_ok, DirectResponse True None)
                     \<and> queues st' = (queues st)(a := queues st a @ [OutBinary m])
                     \<and> st_metrics st' = message_out (st_metrics st)
         | None \<Rightarrow> response = (not_found, DirectResponse False (Some (lit ''client_not_found'')))
                     \<and> queues st' = queues st \<and> st_metrics st' = message_dropped (st_metrics st)"
proof -
  obtain ok st1 where send: "send_to_client E (db_to body) (ai_tenant_id identity) m st = (ok, st1)"
    by (rule prod.exhaust)
  note out = send_to_client_target [OF send]
  show ?thesis
    using call id enc send out by (auto simp: api_direct_def split: option.split if_splits)
qed

lemma message_out_funpow:
  "queues ((count_metric message_out ^^ n) st) = queues st"
  "topic_rx ((count_metric message_out ^^ n) st) = topic_rx st"
  "st_metrics ((count_metric message_out ^^ n) st) = (message_out ^^ n) (st_metrics st)"
  by (induction n) simp_all

lemma api_publish_outcome:
  assumes id: "resolve_identity E now_secs headers st = Inr identity"
    and enc: "encode_server_event (env_codec E) (Message (unwrap_or (pb_topic body) (lit ''public''))
                (ai_client_id identity) (pb_request_id body) (pb_payload body)) = Some m"
    and call: "api_publish E now_secs headers body st = (response, st')"
  defines "key \<equiv> tenant_topic (ai_tenant_id identity)
                    (normalize_topic (unwrap_or (pb_topic body) (lit ''public'')))"
  defines "n \<equiv> card (topic_rx st key)"
  shows "response = (status_ok, PublishResponse n)"
    and "st_metrics st' = (if n = 0 then message_dropped (st_metrics st)
                           else (message_out ^^ n) (st_metrics st))"
    and "queues st' = queues st"
proof -
  obtain k st1 where pub: "publish E key m st = (k, st1)" by (rule prod.exhaust)
  have k: "k = n" using publish_count [OF pub] by (simp add: n_def)
  obtain l where st1: "st1 = st\<lparr>st_topics := l\<rparr>" using pub by (rule publish_only)
  have out: "response = (status_ok, PublishResponse n)"
    "st' = (if n = 0 then count_metric message_dropped st1 else (count_metric message_out ^^ n) st1)"
    using call id enc pub k by (auto simp: api_publish_def Let_def key_def split: prod.splits)
  from out(1) show "response = (status_ok, PublishResponse n)" .
  have "queues st1 = queues st" by (simp add: st1 queue_of_def fun_eq_iff)
  with out(2) show "queues st' = queues st" by (simp add: message_out_funpow)
  from out(2) show "st_metrics st' = (if n = 0 then message_dropped (st_metrics st)
                           else (message_out ^^ n) (st_metrics st))"
    by (simp add: message_out_funpow st1)
qed

end

section \<open>Opening and leaving\<close>

lemma open_connection_entry:
  assumes "open_connection E t st = ((ok, c), st')"
  shows "st_clients st' (co_tenant_id c, co_client_id c)
           = Some \<lparr>ch_connection_id = co_connection_id c, ch_sender = co_tx c\<rparr>"
  using open_connection_control(2) [OF assms] by simp

context server_env
begin

lemma open_connection_queue:
  assumes op: "open_connection E t st = ((ok, c), st')"
    and cap: "0 < cfg_client_queue_capacity (st_config st)"
  shows "ok \<Longrightarrow> \<exists>m. encode_server_event (env_codec E)
             (Ready (extract_topic (co_topic_key c)) (co_client_id c)) = Some m
           \<and> queues st' (co_tx c) = [OutBinary m]"
    and "\<not> ok \<Longrightarrow> \<exists>q. st_chans st' (co_tx c) = Some q \<and> qclosed q"
proof -
  from op obtain st0 where sub0: "open_subscribe E t st = (c, st0)"
    and ready: "open_ready E c (open_register c st0) = (ok, st')" by (rule open_connection_eq)
  from sub0 obtain st1 st2 where
    ch: "new_channel E (count_metric connection_accepted st) = (co_tx c, st1)" and
    sub: "subscribe E (co_topic_key c) st1 = (co_rx c, st2)" and
    st0: "st0 = st2\<lparr>st_next_connection_id := co_connection_id c + 1\<rparr>" by (rule open_subscribe_eq)
  from sub obtain b where st2: "st2 = put_topic (co_topic_key c) b st1" by (rule subscribe_eq)
  let ?base = "open_register c st0"
  let ?q = "mpsc_channel (env_mpsc E) (unat (cfg_client_queue_capacity (st_config st)))"
  have q: "st_chans ?base (co_tx c) = Some ?q"
    using ch by (auto simp: open_register_frame st0 st2 put_topic_def new_channel_def)
  have "0 < unat (cfg_client_queue_capacity (st_config st))" using cap by (simp add: unat_gt_0)
  with q have room: "room ?base (co_tx c) (Suc 0)"
    using mpsc.channel_new by (simp add: has_room_def)
  have "queues ?base (co_tx c) = []" using q mpsc.channel_new by (simp add: queue_of_def)
  with ready send_encoded_room(2) [OF room] show "ok \<Longrightarrow> \<exists>m. encode_server_event (env_codec E)
             (Ready (extract_topic (co_topic_key c)) (co_client_id c)) = Some m
           \<and> queues st' (co_tx c) = [OutBinary m]" by (auto elim!: open_ready_eq)
  show "\<not> ok \<Longrightarrow> \<exists>q. st_chans st' (co_tx c) = Some q \<and> qclosed q"
    using ready q mpsc.close_queue
    by (auto elim!: open_ready_eq simp: drop_fanout_def drop_writer_def put_topic_def split: option.split)
qed

lemma open_connection_topic:
  assumes op: "open_connection E t st = ((True, c), st')"
  shows "co_rx c \<notin> topic_rx st (co_topic_key c)"
    and "topic_rx st' = (topic_rx st)(co_topic_key c := insert (co_rx c) (topic_rx st (co_topic_key c)))"
proof -
  from op obtain st1 where sub: "open_subscribe E t st = (c, st1)"
    and ready: "open_ready E c (open_register c st1) = (True, st')" by (rule open_connection_eq)
  note rx = topic_rx_open_subscribe [OF sub]
  show "co_rx c \<notin> topic_rx st (co_topic_key c)" by (rule rx(1))
  show "topic_rx st' = (topic_rx st)(co_topic_key c := insert (co_rx c) (topic_rx st (co_topic_key c)))"
    using topic_rx_open_ready [OF ready] rx(2) by (simp add: topic_rx_open_register)
qed

end

section \<open>The writer empties the queue\<close>

fun writer_run ::
    "('s, 'b, 'q, 'k, 'v) env \<Rightarrow> conn \<Rightarrow> nat \<Rightarrow> ('s, 'b, 'q, 'k) app_state
      \<Rightarrow> (ws_message list \<times> ('s, 'b, 'q, 'k) app_state) option" where
  \<comment> \<open>\<open>n\<close> messages of the queue, each taken and then sent without an error\<close>
  "writer_run E c 0 st = Some ([], st)"
| "writer_run E c (Suc n) st =
     (case writer_step E c QueueReady (None, st) of
        Some (Running, None, holding, st1) \<Rightarrow>
          (case writer_step E c (SendReturned True) (holding, st1) of
             Some (Running, Some f, None, st2) \<Rightarrow>
               map_option (\<lambda>(fs, st'). (f # fs, st')) (writer_run E c n st2)
           | _ \<Rightarrow> None)
      | _ \<Rightarrow> None)"

context server_env
begin

lemma writer_step_takes:
  assumes "st_chans st (co_tx c) = Some q"
  shows "writer_step E c QueueReady (None, st) = None \<longleftrightarrow> queues st (co_tx c) = []"
    and "queues st (co_tx c) = m # ms \<Longrightarrow> \<exists>st'. writer_step E c QueueReady (None, st)
           = Some (Running, None, Some (Outbound m), st') \<and> queues st' (co_tx c) = ms
           \<and> st_metrics st' = st_metrics st \<and> (\<exists>q'. st_chans st' (co_tx c) = Some q')"
proof -
  have "mpsc_recv (env_mpsc E) q = None \<longleftrightarrow> queued q = []"
    using mpsc.recv_None [of q] mpsc.recv_Some [of q] by (cases "mpsc_recv (env_mpsc E) q") auto
  with assms show "writer_step E c QueueReady (None, st) = None \<longleftrightarrow> queues st (co_tx c) = []"
    by (auto simp: writer_step_def writer_recv_def queue_of_def split: prod.splits)
  assume ms: "queues st (co_tx c) = m # ms"
  with assms mpsc.recv_None [of q] obtain m' q' where recv: "mpsc_recv (env_mpsc E) q = Some (m', q')"
    by (cases "mpsc_recv (env_mpsc E) q") (auto simp: queue_of_def)
  with assms ms mpsc.recv_Some [OF recv] show "\<exists>st'. writer_step E c QueueReady (None, st)
           = Some (Running, None, Some (Outbound m), st') \<and> queues st' (co_tx c) = ms
           \<and> st_metrics st' = st_metrics st \<and> (\<exists>q'. st_chans st' (co_tx c) = Some q')"
    by (simp add: writer_step_def writer_recv_def queue_of_def)
qed

text \<open>A message is sent in two steps; it is counted when \<open>send\<close> has returned.\<close>

lemma writer_run_Suc:
  assumes "st_chans st (co_tx c) = Some q" "queues st (co_tx c) = m # ms"
  obtains st' q' where "queues st' (co_tx c) = ms" "st_metrics st' = message_out (st_metrics st)"
    "st_chans st' (co_tx c) = Some q'"
    "\<And>n. writer_run E c (Suc n) st
            = map_option (\<lambda>(fs, st'). (into_ws_message m # fs, st')) (writer_run E c n st')"
proof -
  from writer_step_takes(2) [OF assms] obtain st1 q1 where st1:
    "writer_step E c QueueReady (None, st) = Some (Running, None, Some (Outbound m), st1)"
    "queues st1 (co_tx c) = ms" "st_metrics st1 = st_metrics st" "st_chans st1 (co_tx c) = Some q1"
    by blast
  have "writer_step E c (SendReturned True) (Some (Outbound m), st1)
      = Some (Running, Some (into_ws_message m), None, count_metric message_out st1)"
    by (simp add: writer_step_def writer_sent_def)
  with st1 that [of "count_metric message_out st1" q1] show thesis by simp
qed

lemma writer_run_drains:
  assumes "st_chans st (co_tx c) = Some q"
  shows "\<exists>st'. writer_run E c (length (queues st (co_tx c))) st
                 = Some (map into_ws_message (queues st (co_tx c)), st')
           \<and> writer_step E c QueueReady (None, st') = None
           \<and> st_metrics st' = (message_out ^^ length (queues st (co_tx c))) (st_metrics st)"
  using assms
proof (induction "queues st (co_tx c)" arbitrary: st q)
  case Nil
  then show ?case using writer_step_takes(1) [OF Nil.prems] by (simp flip: Nil.hyps)
next
  case (Cons m ms)
  from writer_run_Suc [OF Cons.prems Cons.hyps(2) [symmetric]] obtain st1 q1
    where st1: "queues st1 (co_tx c) = ms" "st_metrics st1 = message_out (st_metrics st)"
      "st_chans st1 (co_tx c) = Some q1"
      "\<And>n. writer_run E c (Suc n) st
            = map_option (\<lambda>(fs, st'). (into_ws_message m # fs, st')) (writer_run E c n st1)" by blast
  from Cons.hyps(1) [OF st1(1) [symmetric] st1(3)] obtain st' where
    "writer_run E c (length ms) st1 = Some (map into_ws_message ms, st')"
    "writer_step E c QueueReady (None, st') = None"
    "st_metrics st' = (message_out ^^ length ms) (st_metrics st1)"
    using st1(1) by auto
  with st1(2,4) show ?case
    by (simp flip: Cons.hyps(2) del: funpow.simps(2) writer_run.simps(2) add: funpow_Suc_right)
qed

end

end
