(* ===== verification/Opening.thy ===== *)
theory Opening
  imports Progress Frame_Handling
begin

text \<open>
  What other tasks can do while a connection opens. Between its registration and its
  \<open>Ready\<close> event a connection takes direct messages already.
\<close>

lemma resolve_identity_auth:
  "st_auth st' = st_auth st \<Longrightarrow> resolve_identity E now_secs headers st' = resolve_identity E now_secs headers st"
  by (simp add: resolve_identity_def)

lemma unat_gt_one: "0 < (n :: usize) \<Longrightarrow> 1 < unat n \<longleftrightarrow> n \<noteq> 1"
  by (metis One_nat_def Suc_lessI unat_1 unat_gt_0 word_unat_eq_iff less_irrefl)

context server_env
begin

text \<open>A direct message from the HTTP interface to a client whose queue has room.\<close>

lemma api_direct_room:
  assumes id: "resolve_identity E now_secs headers st = Inr identity"
    and enc: "encode_server_event (env_codec E) (DirectMessage (ai_client_id identity) (db_to body)
                (db_request_id body) (db_payload body)) = Some m"
    and entry: "st_clients st (ai_tenant_id identity, db_to body) = Some h"
    and q: "st_chans st (ch_sender h) = Some q" "\<not> qclosed q" "length (queued q) < qcap q"
  obtains st' q' where "api_direct E now_secs headers body st = ((status_ok, DirectResponse True None), st')"
    "st_chans st' (ch_sender h) = Some q'" "queued q' = queued q @ [OutBinary m]" "qcap q' = qcap q"
    "\<not> qclosed q'"
proof -
  obtain st1 q' where send: "chan_try_send E (ch_sender h) (OutBinary m) st = Inr st1"
    and q': "st_chans st1 (ch_sender h) = Some q'" "queued q' = queued q @ [OutBinary m]"
      "qcap q' = qcap q" "\<not> qclosed q'"
    using q by (rule send_room)
  have "send_to_client E (db_to body) (ai_tenant_id identity) m st = (True, st1)"
    by (simp add: send_to_client_def entry send)
  then have "api_direct E now_secs headers body st
      = ((status_ok, DirectResponse True None), count_metric message_out st1)"
    by (simp add: api_direct_def id enc)
  with q' that show thesis by simp
qed

text \<open>The \<open>Ready\<close> event goes behind what is queued, or is dropped.\<close>

lemma open_ready_queue:
  assumes enc: "encode_server_event (env_codec E)
                  (Ready (extract_topic (co_topic_key c)) (co_client_id c)) = Some ready"
    and q: "st_chans st (co_tx c) = Some q" "\<not> qclosed q"
  obtains st' where "open_ready E c st = (True, st')"
    "queues st' (co_tx c) = queued q @ (if length (queued q) < qcap q then [OutBinary ready] else [])"
proof -
  have open_eq: "open_ready E c st = (True, snd (send_encoded E (co_tx c) ready st))"
    by (simp add: open_ready_def enc)
  show thesis
  proof (cases "length (queued q) < qcap q")
    case True
    with q have "room st (co_tx c) (Suc 0)" by (simp add: has_room_def)
    from send_encoded_room(2) [OF this, of ready] q True that [OF open_eq] show thesis
      by (simp add: queue_of_def)
  next
    case False
    with q chan_send_accepts_iff [of "co_tx c" "OutBinary ready" st]
    have no: "\<not> (\<exists>st'. chan_try_send E (co_tx c) (OutBinary ready) st = Inr st')" by auto
    obtain ok st' where send: "send_encoded E (co_tx c) ready st = (ok, st')" by (rule prod.exhaust)
    then have "queues st' (co_tx c) = queued q"
      by (rule send_encoded_eq) (use no q in \<open>auto simp: queue_of_def count_metric_def\<close>)
    with that [OF open_eq] send False show thesis by simp
  qed
qed

text \<open>A new connection has an empty queue of the configured capacity.\<close>

lemma open_subscribe_queue:
  assumes "open_subscribe E t st = (c, st')"
  obtains q where "st_chans st' (co_tx c) = Some q" "queued q = []" "\<not> qclosed q"
    "qcap q = unat (cfg_client_queue_capacity (st_config st))"
proof -
  from assms obtain st1 st2 where
    ch: "new_channel E (count_metric connection_accepted st) = (co_tx c, st1)" and
    sub: "subscribe E (co_topic_key c) st1 = (co_rx c, st2)" and
    st': "st' = st2\<lparr>st_next_connection_id := co_connection_id c + 1\<rparr>" by (rule open_subscribe_eq)
  from sub obtain b where "st2 = put_topic (co_topic_key c) b st1" by (rule subscribe_eq)
  with ch st' that mpsc.channel_new show thesis by (auto simp: put_topic_def new_channel_def)
qed

lemma ready_overtaken:
  fixes body :: "'v direct_body"
  assumes s: "w_sessions w s = Some (Upgrading t)"
    and cap: "0 < cfg_client_queue_capacity (st_config (w_app w))"
    and id: "resolve_identity E now_secs headers (w_app w) = Inr identity"
    and to: "ai_tenant_id identity = ai_tenant_id (tk_identity t)" "db_to body = ai_client_id (tk_identity t)"
    and direct: "encode_server_event (env_codec E) (DirectMessage (ai_client_id identity) (db_to body)
                   (db_request_id body) (db_payload body)) = Some m"
    and ready: "encode_server_event (env_codec E)
                  (Ready (extract_topic (tenant_topic (ai_tenant_id (tk_identity t)) (normalize_topic (tk_topic t))))
                     (ai_client_id (tk_identity t))) = Some r"
  shows "\<exists>w' v. steps E w w' \<and> w_sessions w' s = Some (Live v) \<and> lv_wire v = [] \<and> lv_holding v = None
           \<and> queues (w_app w') (co_tx (lv_conn v))
               = OutBinary m # (if cfg_client_queue_capacity (st_config (w_app w)) = 1 then [] else [OutBinary r])"
proof -
  let ?cap = "cfg_client_queue_capacity (st_config (w_app w))"
  obtain c st1 where sub: "open_subscribe E t (w_app w) = (c, st1)" by (rule prod.exhaust)
  note ctl = open_subscribe_control [OF sub]
  obtain q where q: "st_chans st1 (co_tx c) = Some q" "queued q = []" "\<not> qclosed q" "qcap q = unat ?cap"
    using sub by (rule open_subscribe_queue)
  let ?st2 = "open_register c st1"
  have id2: "resolve_identity E now_secs headers ?st2 = Inr identity"
    using id resolve_identity_auth [of ?st2 "w_app w" E] ctl(5) by (simp add: open_register_frame)
  have entry: "st_clients ?st2 (ai_tenant_id identity, db_to body)
      = Some \<lparr>ch_connection_id = co_connection_id c, ch_sender = co_tx c\<rparr>"
    by (simp add: open_register_entry to ctl(12,16))
  have room: "length (queued q) < qcap q" using cap q by (simp add: unat_gt_0)
  obtain st3 q' where call: "api_direct E now_secs headers body ?st2 = ((status_ok, DirectResponse True None), st3)"
    and q': "st_chans st3 (co_tx c) = Some q'" "queued q' = [OutBinary m]" "qcap q' = unat ?cap" "\<not> qclosed q'"
    by (rule api_direct_room [OF id2 direct entry]) (use q room in \<open>auto simp: open_register_frame\<close>)
  have key: "co_topic_key c = tenant_topic (ai_tenant_id (tk_identity t)) (normalize_topic (tk_topic t))"
    using sub by (rule open_subscribe_eq) simp
  obtain st4 where opened: "open_ready E c st3 = (True, st4)"
    and queue: "queues st4 (co_tx c) = queued q' @ (if length (queued q') < qcap q' then [OutBinary r] else [])"
    by (rule open_ready_queue [OF _ q'(1,4)]) (use ready in \<open>auto simp: key ctl(16)\<close>)
  let ?w1 = "put_session s (Subscribed t c) st1 w"
  let ?w2 = "put_session s (Registered t c) ?st2 ?w1"
  let ?w3 = "?w2\<lparr>w_app := st3\<rparr>"
  let ?v = "live_new t c (st_config st4) 0"
  let ?w4 = "put_session s (Live ?v) st4 ?w3"
  have "step E w (Some (ai_tenant_id (tk_identity t))) ?w1" by (rule step.subscribed [OF s sub])
  moreover have "step E ?w1 (Some (co_tenant_id c)) ?w2" using step.registered [of ?w1 s t c E] by simp
  moreover have "step E ?w2 (call_tenant E now_secs headers (w_app ?w2)) ?w3"
    by (rule step.sent_direct [where dbody = body]) (simp add: call)
  moreover have "step E ?w3 (Some (co_tenant_id c)) ?w4" by (rule step.opened) (simp_all add: opened)
  ultimately have "steps E w ?w4" by (meson steps.intros)
  then show ?thesis
    using queue q' unat_gt_one [OF cap] by (intro exI [of _ ?w4] exI [of _ ?v]) (simp add: live_new_def)
qed

end

end
