(* ===== verification/Demo_Run.thy ===== *)
theory Demo_Run
  imports Opening
begin

text \<open>
  A concrete run on the instances of the crates: two slots, one connection per tenant and
  per address. A request is admitted, its connection opens, publishes to its topic and
  gets the message back through the fan-out. A second server has one slot, which is taken. The
  states of the runs are where the properties are evaluated.
\<close>

definition demo_config :: config where
  "demo_config = default_config\<lparr>cfg_max_connections := 2, cfg_client_queue_capacity := 4,
     cfg_topic_channel_capacity := 4, cfg_ip_max_concurrent := Some 1,
     cfg_tenant_max_connections := Some 1\<rparr>"

definition demo_peer :: socket_addr where
  "demo_peer = \<lparr>sa_ip = IpV4 7, sa_port = 99\<rparr>"

definition demo_query :: ws_query where
  "demo_query = ws_query_of None (Some [1]) (Some [2]) None"

definition no_headers :: header_map where
  "no_headers = (\<lambda>_. None)"

abbreviation demo_clock :: clock where "demo_clock \<equiv> (\<lambda>_. 0)"

definition demo_ticket :: ticket where
  "demo_ticket =
     \<lparr>tk_topic = default_topic, tk_identity = \<lparr>ai_client_id = [1], ai_tenant_id = [2]\<rparr>,
      tk_ip_permit = Some \<lparr>ip_permit_ip = Some (IpV4 7)\<rparr>, tk_tenant_permit = Some [2]\<rparr>"

abbreviation "demo_new \<equiv> world_new demo_env demo_config"

definition "demo_app1 =
  snd (ws_handler demo_env [] demo_clock 0 demo_query demo_peer no_headers (w_app demo_new))"

definition "demo_world1 = start_session (Upgrading demo_ticket) demo_app1 demo_new"

definition demo_conn :: conn where
  "demo_conn =
     \<lparr>co_topic_key = tenant_topic [2] default_topic, co_tenant_id = [2], co_client_id = [1],
      co_connection_id = 1, co_tx = 0, co_rx = 0\<rparr>"

definition "demo_app2 = snd (open_connection demo_env demo_ticket demo_app1)"

definition "demo_live = live_new demo_ticket demo_conn (st_config demo_app2) 0"

definition "demo_world2 = put_session 0 (Live demo_live) demo_app2 demo_world1"

lemma demo_env_simps [simp]:
  "env_sem demo_env = counting_sem" "env_bcast demo_env = table_broadcast"
  "env_mpsc demo_env = list_mpsc" "env_jwt demo_env = tag_jwt" "env_codec demo_env = demo_codec"
  "env_workers demo_env = 1"
  by (simp_all add: demo_env_def)

lemma demo_config_simps [simp]:
  "cfg_max_connections demo_config = 2" "cfg_client_queue_capacity demo_config = 4"
  "cfg_topic_channel_capacity demo_config = 4" "cfg_max_text_bytes demo_config = 65536"
  "cfg_max_messages_per_second demo_config = 100" "cfg_message_burst demo_config = 200"
  "cfg_jwt_secret demo_config = None" "cfg_jwt_public_key demo_config = None"
  "cfg_ip_max_concurrent demo_config = Some 1" "cfg_ip_connection_rate demo_config = None"
  "cfg_ip_rate_burst demo_config = None" "cfg_trust_proxy_headers demo_config = False"
  "cfg_tenant_max_connections demo_config = Some 1"
  "cfg_tenant_max_messages_per_second demo_config = None" "cfg_json_logs demo_config = False"
  "cfg_bind_addr demo_config = \<lparr>sa_ip = IpV4 0, sa_port = 8080\<rparr>"
  by (simp_all add: demo_config_def default_config_def)

lemmas demo_defs =
  demo_peer_def demo_query_def no_headers_def demo_ticket_def demo_conn_def counting_sem_def
  ws_query_of_def

lemma demo_new_app:
  "app_state_new demo_env demo_config =
     \<lparr>st_config = demo_config, st_metrics = metrics_default, st_connection_limit = 2,
      st_auth = None,
      st_ip_limiter = Some \<lparr>il_max_concurrent = Some 1, il_rate_configured = False,
        il_refill_per_second = 1, il_burst = 1, il_states = Map.empty\<rparr>,
      st_tenant_limits = Some Map.empty, st_tenant_rate_limits = None, st_topics = Map.empty,
      st_clients = Map.empty, st_next_connection_id = 1, st_chans = Map.empty,
      st_next_chan = 0\<rparr>"
  by (simp add: app_state_new_def demo_defs auth_verifier_from_config_def
      ip_limiter_from_config_def Let_def unsigned_ucast_eq)

lemma demo_admitted:
  "ws_handler demo_env [] demo_clock 0 demo_query demo_peer no_headers (w_app demo_new)
     = (Upgrade demo_ticket, demo_app1)"
  and demo_app1_eq: "demo_app1 =
     (w_app demo_new)\<lparr>st_connection_limit := 1,
       st_ip_limiter := Some \<lparr>il_max_concurrent = Some 1, il_rate_configured = False,
        il_refill_per_second = 1, il_burst = 1,
        il_states = [IpV4 7 \<mapsto> \<lparr>is_concurrent = 1, is_bucket = token_bucket_new 1 1 0, is_last_seen = 0\<rparr>]\<rparr>,
       st_tenant_limits := Some [[2] \<mapsto> 0]\<rparr>"
  by (simp_all add: demo_app1_def world_new_def demo_new_app ws_handler_def resolve_client_ip_def
      admit_ip_def try_acquire_def Let_def reap_idle_def ip_entry_def put_state_def
      acquire_slot_def ws_identity_def acquire_tenant_permit_def demo_defs default_topic_def)

lemma demo_topic: "normalize_topic default_topic = default_topic"
  by (simp add: normalize_topic_def default_topic_def lit_def trim_def trim_start_def trim_end_def
      trim_start_matches_def is_whitespace_def whitespace_chars_def char_slash_def Let_def)

definition demo_kind :: "string \<Rightarrow> bytes" where
  \<comment> \<open>what the codec makes of an event of the kind\<close>
  "demo_kind kind = map of_nat (lit kind)"

lemma demo_encode [simp]:
  "encode_server_event demo_codec (Ready t c) = Some (demo_kind ''ready'')"
  "encode_server_event demo_codec (Message t f r p) = Some (demo_kind ''message'')"
  "encode_server_event demo_codec (DirectMessage f c r p) = Some (demo_kind ''direct_message'')"
  "encode_server_event demo_codec (Pong r q) = Some (demo_kind ''pong'')"
  "encode_server_event demo_codec (Error e m) = Some (demo_kind ''error'')"
  by (simp_all add: encode_server_event_def demo_codec_def trivial_codec_def demo_kind_def)

lemma demo_encodes_ready: "encodes_ready (env_codec demo_env)"
  by (simp add: encodes_ready_def)

abbreviation "demo_key \<equiv> tenant_topic [2] default_topic"

lemma demo_opened:
  "open_connection demo_env demo_ticket demo_app1 = ((True, demo_conn), demo_app2)"
  and demo_app2_eq: "demo_app2 =
     demo_app1\<lparr>st_metrics := connection_accepted metrics_default,
       st_topics := [demo_key \<mapsto> (4, [(0, 0, [])])],
       st_clients := [([2], [1]) \<mapsto> \<lparr>ch_connection_id = 1, ch_sender = 0\<rparr>],
       st_next_connection_id := 2,
       st_chans := [0 \<mapsto> (4, False, [OutBinary (demo_kind ''ready'')])],
       st_next_chan := 1\<rparr>"
  by (simp_all add: demo_app2_def open_connection_def open_subscribe_def open_register_def
      open_ready_def Let_def demo_app1_eq world_new_def demo_new_app
      demo_defs demo_topic new_channel_def subscribe_def topic_sender_def put_topic_def
      next_connection_id_def register_client_def send_encoded_def chan_try_send_def
      count_metric_def table_broadcast_def list_mpsc_def fresh_receiver_def)

lemma demo_step1: "steps demo_env demo_new demo_world1"
proof -
  have "handlers demo_new < env_workers demo_env"
    by (simp add: handlers_def sessions_where_def world_new_def)
  from ws_handler_steps [OF demo_admitted this] show ?thesis by (simp add: demo_world1_def)
qed

lemma demo_step2: "steps demo_env demo_world1 demo_world2"
proof -
  have "w_sessions demo_world1 0 = Some (Upgrading demo_ticket)"
    and "w_app demo_world1 = demo_app1"
    by (simp_all add: demo_world1_def world_new_def)
  from open_connection_steps [OF this(1), of demo_env True demo_conn demo_app2 0] this(2) demo_opened
  show ?thesis by (simp add: demo_world2_def demo_live_def)
qed

lemma demo_reachable: "reachable demo_env demo_config demo_world1" "reachable demo_env demo_config demo_world2"
proof -
  show first: "reachable demo_env demo_config demo_world1"
    by (rule reachable_steps [OF demo_step1 reachable.start])
  show "reachable demo_env demo_config demo_world2" by (rule reachable_steps [OF demo_step2 first])
qed

lemma demo_sessions:
  "w_sessions demo_world1 = [0 \<mapsto> Upgrading demo_ticket]"
  "w_sessions demo_world2 = [0 \<mapsto> Live demo_live]"
  "w_app demo_world1 = demo_app1" "w_app demo_world2 = demo_app2"
  by (simp_all add: demo_world1_def demo_world2_def world_new_def)

text \<open>The same with a client of the tenant \<open>default\<close>, for which calls without a token act.\<close>

definition "demo_ticket_default =
  demo_ticket\<lparr>tk_identity := \<lparr>ai_client_id = [1], ai_tenant_id = lit ''default''\<rparr>\<rparr>"

definition demo_second where
  "demo_second w = w\<lparr>w_sessions := [0 \<mapsto> Upgrading demo_ticket_default]\<rparr>"

section \<open>The last stage of the handler\<close>

definition "demo_slot_taken =
  SlotTaken demo_query (Some \<lparr>ip_permit_ip = Some (IpV4 7)\<rparr>)"

definition "demo_handling =
  start_session (Handling demo_slot_taken) (demo_app1\<lparr>st_tenant_limits := Some Map.empty\<rparr>) demo_new"

lemma demo_handling_step: "step demo_env demo_handling None demo_world1"
proof -
  have "ws_stage_step demo_env [] demo_clock 0 demo_slot_taken (w_app demo_handling)
      = (Answer (Upgrade demo_ticket), demo_app1)"
    by (simp add: demo_handling_def demo_slot_taken_def demo_app1_eq world_new_def demo_new_app
        ws_identity_def acquire_tenant_permit_def demo_defs)
  moreover have "w_sessions demo_handling 0 = Some (Handling demo_slot_taken)"
    by (simp add: demo_handling_def world_new_def)
  ultimately have "step demo_env demo_handling None (put_session 0 (Upgrading demo_ticket) demo_app1 demo_handling)"
    by (intro step.admitted)
  then show ?thesis
    by (simp add: demo_world1_def demo_handling_def start_session_def put_session_def world_new_def)
qed

lemma demo_handling_reachable: "reachable demo_env demo_config demo_handling"
proof -
  let ?g = "Arrived demo_query demo_peer no_headers"
  let ?w = "start_session (Handling ?g) (w_app demo_new) demo_new"
  have free: "handlers demo_new < env_workers demo_env"
    by (simp add: handlers_def sessions_where_def world_new_def)
  let ?g1 = "IpAdmitted demo_query (Some \<lparr>ip_permit_ip = Some (IpV4 7)\<rparr>)"
  let ?st1 = "demo_app1\<lparr>st_tenant_limits := Some Map.empty, st_connection_limit := 2\<rparr>"
  have s1: "ws_stage_step demo_env [] demo_clock 0 ?g (w_app demo_new) = (Next ?g1, ?st1)"
    by (simp add: demo_app1_eq world_new_def demo_new_app resolve_client_ip_def admit_ip_def
        try_acquire_def Let_def reap_idle_def ip_entry_def put_state_def demo_defs)
  have s2: "ws_stage_step demo_env [] demo_clock 0 ?g1 ?st1
      = (Next demo_slot_taken, demo_app1\<lparr>st_tenant_limits := Some Map.empty\<rparr>)"
    by (simp add: demo_slot_taken_def demo_app1_eq acquire_slot_def counting_sem_def)
  let ?w1 = "put_session 0 (Handling ?g1) ?st1 ?w"
  let ?st2 = "demo_app1\<lparr>st_tenant_limits := Some Map.empty\<rparr>"
  have w: "w_sessions ?w 0 = Some (Handling ?g)" by (simp add: world_new_def)
  have a: "ws_stage_step demo_env [] demo_clock 0 ?g (w_app ?w) = (Next ?g1, ?st1)"
    by (simp only: world_updates s1)
  have w1: "w_sessions ?w1 0 = Some (Handling ?g1)" by (simp only: world_updates fun_upd_same)
  have a1: "ws_stage_step demo_env [] demo_clock 0 ?g1 (w_app ?w1) = (Next demo_slot_taken, ?st2)"
    by (simp only: world_updates s2)
  have "reachable demo_env demo_config (put_session 0 (Handling demo_slot_taken) ?st2 ?w1)"
    by (intro reachable.next_step [OF _ step.handled [OF w1 a1]] reachable.next_step [OF _ step.handled [OF w a]]
        reachable.next_step [OF reachable.start step.request [OF free]])
  moreover have "put_session 0 (Handling demo_slot_taken) ?st2 ?w1 = demo_handling"
    unfolding world_put_again by (simp add: start_session_def put_session_def demo_handling_def world_new_def)
  ultimately show ?thesis by simp
qed

section \<open>A full server\<close>

text \<open>One slot, which a session has: the next request is turned away.\<close>

definition "demo_full_config = default_config\<lparr>cfg_max_connections := 1\<rparr>"

definition "demo_full_ticket =
  \<lparr>tk_topic = default_topic, tk_identity = \<lparr>ai_client_id = [1], ai_tenant_id = [2]\<rparr>,
   tk_ip_permit = None, tk_tenant_permit = None\<rparr>"

abbreviation "demo_full_new \<equiv> world_new demo_env demo_full_config"

definition "demo_full_app = (w_app demo_full_new)\<lparr>st_connection_limit := 0\<rparr>"

definition "demo_full1 = start_session (Upgrading demo_full_ticket) demo_full_app demo_full_new"

definition "demo_full = start_session (Handling (IpAdmitted demo_query None)) demo_full_app demo_full1"

lemma demo_full_app_eq: "demo_full_app = (app_state_new demo_env demo_full_config)\<lparr>st_connection_limit := 0\<rparr>"
  by (simp add: demo_full_app_def world_new_def)

lemma demo_full_new_app:
  "st_ip_limiter (app_state_new demo_env demo_full_config) = None"
  "st_connection_limit (app_state_new demo_env demo_full_config) = 1"
  "st_tenant_limits (app_state_new demo_env demo_full_config) = None"
  "st_auth (app_state_new demo_env demo_full_config) = None"
  by (simp_all add: app_state_new_def demo_full_config_def default_config_def demo_defs
      auth_verifier_from_config_def ip_limiter_from_config_def Let_def)

lemma demo_full_sessions:
  "w_sessions demo_full = [0 \<mapsto> Upgrading demo_full_ticket, 1 \<mapsto> Handling (IpAdmitted demo_query None)]"
  "w_app demo_full = demo_full_app"
  by (simp_all add: demo_full_def demo_full1_def world_new_def fun_upd_twist)

lemma demo_full_reachable: "reachable demo_env demo_full_config demo_full"
proof -
  let ?g = "Arrived demo_query demo_peer no_headers"
  let ?w = "start_session (Handling ?g) demo_full_app demo_full1"
  have "handlers demo_full_new < env_workers demo_env"
    by (simp add: handlers_def sessions_where_def world_new_def)
  moreover have "ws_handler demo_env [] demo_clock 0 demo_query demo_peer no_headers (w_app demo_full_new)
      = (Upgrade demo_full_ticket, demo_full_app)"
    by (simp add: demo_full_app_eq world_new_def ws_handler_def admit_ip_def acquire_slot_def
        ws_identity_def acquire_tenant_permit_def demo_full_new_app demo_full_ticket_def demo_defs)
  ultimately have first: "steps demo_env demo_full_new demo_full1"
    using ws_handler_steps by (fastforce simp: demo_full1_def)
  have "sessions_where (\<lambda>x. session_ticket x = None) demo_full1 = {}"
    by (auto simp: sessions_where_def demo_full1_def world_new_def split: if_splits)
  then have "step demo_env demo_full1 None ?w"
    using step.request [of demo_full1 demo_env demo_query demo_peer no_headers]
    by (simp add: handlers_def) (simp add: demo_full1_def)
  moreover have "step demo_env ?w None demo_full"
    using step.handled [of ?w 1 ?g demo_env "[]" demo_clock 0]
    by (simp add: admit_ip_def demo_full_app_eq demo_full_new_app)
       (simp add: demo_full_def demo_full1_def demo_full_app_eq start_session_def put_session_def world_new_def)
  ultimately show ?thesis
    by (meson reachable_steps [OF first reachable.start] reachable.next_step)
qed

lemma demo_full_step:
  "ws_stage_step demo_env [] demo_clock 0 (IpAdmitted demo_query None) (w_app demo_full)
     = (Answer (Refuse service_unavailable (''connection limit reached'' @ [newline])),
        count_metric connection_rejected demo_full_app)"
  by (simp add: demo_full_sessions demo_full_app_eq acquire_slot_def demo_defs drop_ip_def)

section \<open>A message comes back\<close>

definition "demo_input = Frame (WsText (lit ''p''))"

definition "demo_limiter2 = lv_limiter demo_live"

definition "demo_limiter3 = snd (rate_limiter_allow 0 demo_limiter2)"

definition "demo_app3 =
  demo_app2\<lparr>st_metrics := message_in (connection_accepted metrics_default),
    st_topics := [demo_key \<mapsto> (4, [(0, 0, [demo_kind ''message''])])]\<rparr>"

definition "demo_world3 =
  put_session 0 (Live (demo_live\<lparr>lv_reader := Running, lv_limiter := demo_limiter3\<rparr>)) demo_app3
    demo_world2"

lemma demo_limiter2_eq: "demo_limiter2 = rate_limiter_new 100 200 0"
  by (simp add: demo_limiter2_def demo_live_def live_new_def demo_app2_eq demo_app1_eq
      world_new_def demo_new_app)

lemma demo_allowed: "rate_limiter_allow 0 demo_limiter2 = (True, demo_limiter3)"
  using demo_limiter3_def
  by (simp add: demo_limiter2_eq rate_limiter_allow_def rate_limiter_refill_def tokens_to_add_def
      Let_def f64_mul_def f64_add_def)

lemma demo_utf8: "str_len (lit ''p'') = 1"
  by (simp add: lit_def str_len_def utf8_width_def)

lemma demo_read:
  "reader_step demo_env demo_clock demo_conn demo_input (demo_limiter2, demo_app2)
     = (Running, demo_limiter3, demo_app3)"
  by (simp add: reader_step_def demo_input_def read_text_def demo_allowed Let_def demo_utf8
      check_tenant_rate_def demo_app2_eq demo_app1_eq world_new_def demo_new_app
      handle_text_def parse_client_event_text_def demo_codec_def handle_client_event_def
      publish_event_def demo_conn_def publish_def topic_sender_def put_topic_def
      table_broadcast_def bc_push_def demo_app3_def count_metric_def
      demo_encode [unfolded demo_codec_def])

lemma demo_step3: "step demo_env demo_world2 (Some [2]) demo_world3"
  using step.reader [of demo_world2 0 demo_live demo_env demo_clock demo_input Running
      demo_limiter3 demo_app3] demo_read
  by (simp add: demo_sessions demo_world3_def demo_limiter2_def)
     (simp add: demo_live_def live_new_def demo_conn_def)

lemma demo_reachable3: "reachable demo_env demo_config demo_world3"
  using reachable.next_step [OF demo_reachable(2) demo_step3] .

end
