(* ===== verification/Admission_Spec.thy ===== *)
theory Admission_Spec
  imports Reachable
begin

text \<open>
  An abstract specification of admission: the admitted sessions, each with its tenant and
  the address it is counted under. A session may enter only when all three limits have
  room for it, at once; sessions end in any order. The server refines it, although its
  handlers ask the three limits one after the other and interleave.
\<close>

type_synonym admitted_sessions = "nat \<rightharpoonup> rust_string \<times> ip_addr option"

definition count_where ::
    "(rust_string \<times> ip_addr option \<Rightarrow> bool) \<Rightarrow> admitted_sessions \<Rightarrow> nat" where
  "count_where P m = card {s. \<exists>x. m s = Some x \<and> P x}"

definition room_for :: "config \<Rightarrow> admitted_sessions \<Rightarrow> rust_string \<Rightarrow> ip_addr option \<Rightarrow> bool" where
  "room_for cfg m t ip \<longleftrightarrow>
     card (dom m) < unat (cfg_max_connections cfg) \<and>
     (\<forall>cap. cfg_tenant_max_connections cfg = Some cap \<longrightarrow> count_where (\<lambda>x. fst x = t) m < unat cap) \<and>
     (\<forall>v i. cfg_ip_max_concurrent cfg = Some v \<longrightarrow> ip = Some i \<longrightarrow>
        count_where (\<lambda>x. snd x = Some i) m < unat (ucast v :: u32))"

inductive spec_step :: "config \<Rightarrow> admitted_sessions \<Rightarrow> admitted_sessions \<Rightarrow> bool" for cfg where
  spec_enter: "m s = None \<Longrightarrow> room_for cfg m t ip \<Longrightarrow> spec_step cfg m (m(s \<mapsto> (t, ip)))"
| spec_end: "spec_step cfg m (m(s := None))"
| spec_stay: "spec_step cfg m m"

definition ticket_view :: "ticket \<Rightarrow> rust_string \<times> ip_addr option" where
  "ticket_view t = (ai_tenant_id (tk_identity t), Option.bind (tk_ip_permit t) ip_permit_ip)"

definition admission_view :: "('s, 'b, 'q, 'k) world \<Rightarrow> admitted_sessions" where
  \<comment> \<open>the sessions that have their ticket\<close>
  "admission_view w =
     (\<lambda>s. Option.bind (w_sessions w s) (\<lambda>x. map_option ticket_view (session_ticket x)))"

lemma count_where_insert:
  assumes "finite (dom m)" "m s = None" "P x"
  shows "count_where P (m(s \<mapsto> x)) = Suc (count_where P m)"
proof -
  have "{k. \<exists>y. (m(s \<mapsto> x)) k = Some y \<and> P y} = insert s {k. \<exists>y. m k = Some y \<and> P y}"
    using assms(2,3) by (auto simp del: split_paired_Ex)
  moreover have "finite {k. \<exists>y. m k = Some y \<and> P y}"
    by (rule finite_subset [OF _ assms(1)]) auto
  ultimately show ?thesis using assms(2) by (simp add: count_where_def)
qed

lemma count_where_view:
  "count_where P (admission_view w)
     = card (sessions_where (\<lambda>x. \<exists>t. session_ticket x = Some t \<and> P (ticket_view t)) w)"
  by (auto simp: count_where_def sessions_where_def admission_view_def bind_eq_Some_conv
      simp del: split_paired_Ex intro!: arg_cong [where f = card])

lemma card_admission_view:
  "card (dom (admission_view w)) = card (sessions_where (\<lambda>x. session_ticket x \<noteq> None) w)"
  by (auto simp: sessions_where_def admission_view_def bind_eq_Some_conv dom_def
      simp del: split_paired_Ex not_None_eq intro!: arg_cong [where f = card])

lemma finite_admission_view: "sessions_wf w \<Longrightarrow> finite (dom (admission_view w))"
  by (rule finite_subset [where B = "dom (w_sessions w)"])
     (auto simp: admission_view_def sessions_wf_def bind_eq_Some_conv)

text \<open>How a step changes the view.\<close>

lemma step_view:
  assumes step: "step E w actor w'" and wf: "sessions_wf w"
  obtains s t ip where "admission_view w s = None" "admission_view w' = (admission_view w)(s \<mapsto> (t, ip))"
  | s where "admission_view w' = (admission_view w)(s := None)"
  | "admission_view w' = admission_view w"
proof -
  have fresh: "w_sessions w (w_next w) = None" using wf by (simp add: sessions_wf_def)
  have request: "admission_view (start_session (Handling g) st w) = admission_view w" for g st
    using fresh by (auto simp: admission_view_def fun_eq_iff)
  have leave: "admission_view (end_session s st w) = (admission_view w)(s := None)" for s st
    by (auto simp: admission_view_def)
  have stay: "admission_view (put_session s y st w) = admission_view w"
    if "w_sessions w s = Some x" "session_ticket y = session_ticket x" for s x y st
    using that by (auto simp: admission_view_def fun_eq_iff)
  have enter: "admission_view w s = None"
      "admission_view (put_session s (Upgrading t) st w) = (admission_view w)(s \<mapsto> ticket_view t)"
    if "w_sessions w s = Some (Handling g)" for s g t st
    using that by (auto simp: admission_view_def)
  have app: "admission_view (w\<lparr>w_app := st\<rparr>) = admission_view w" for st
    by (simp add: admission_view_def)
  show thesis
    using step
  proof (rule step_cases)
    fix s g keys clk now_secs t st assume s: "w_sessions w s = Some (Handling g)"
      and w': "w' = put_session s (Upgrading t) st w"
    show thesis by (rule that(1)) (use enter [OF s] w' in \<open>simp_all add: ticket_view_def\<close>)
  qed (auto simp: request leave app stay live_new_def intro: that(2,3))
qed

context server_env
begin

lemma limits_hold:
  assumes "reachable E cfg w" "unat (cfg_max_connections cfg) + env_workers E < 2 ^ 32 - 1"
  shows "card (dom (admission_view w)) \<le> unat (cfg_max_connections cfg)"
    and "cfg_tenant_max_connections cfg = Some cap \<Longrightarrow>
           count_where (\<lambda>x. fst x = t) (admission_view w) \<le> unat cap"
    and "cfg_ip_max_concurrent cfg = Some v \<Longrightarrow>
           count_where (\<lambda>x. snd x = Some i) (admission_view w) \<le> unat (ucast v :: u32)"
proof -
  note wf = reachable_wf [OF assms(1)]
  note counts = books_counts [OF reachable_books [OF assms] wf]
  have "card (dom (admission_view w)) \<le> card (sessions_where holds_slot w)"
    unfolding card_admission_view
    by (rule card_sessions_mono [OF wf]) (auto simp: holds_slot_def dest: session_ticket_holding)
  then show "card (dom (admission_view w)) \<le> unat (cfg_max_connections cfg)"
    using counts(1) reachable_config [OF assms(1)] by simp
  show "count_where (\<lambda>x. fst x = t) (admission_view w) \<le> unat cap"
    if cap: "cfg_tenant_max_connections cfg = Some cap"
  proof -
    have "count_where (\<lambda>x. fst x = t) (admission_view w)
        = card (sessions_where (\<lambda>x. session_tenant x = Some t) w)"
      unfolding count_where_view by (simp add: session_tenant_def ticket_view_def)
    also have "\<dots> = card (sessions_where (holds_tenant_permit t) w)"
      using reachable_tenant_sessions [OF assms(1)] cap by simp
    finally show ?thesis
      using counts(2) [of t] reachable_tenant_cap [OF assms(1)] cap
        tenant_used_le [of "w_app w" "unat cap" avail t] by simp
  qed
  show "count_where (\<lambda>x. snd x = Some i) (admission_view w) \<le> unat (ucast v :: u32)"
    if v: "cfg_ip_max_concurrent cfg = Some v"
  proof -
    from reachable_ip_cap [OF assms(1)] v obtain l where l: "st_ip_limiter (w_app w) = Some l"
      "il_max_concurrent l = Some (ucast v)" by (auto simp: ip_cap_def bind_eq_Some_conv)
    have "count_where (\<lambda>x. snd x = Some i) (admission_view w) \<le> card (sessions_where (holds_ip_permit i) w)"
      unfolding count_where_view
      by (rule card_sessions_mono [OF wf])
         (auto simp: holds_ip_permit_def ticket_view_def session_ticket_holding)
    with counts(4) [OF l, of i] show ?thesis by simp
  qed
qed

text \<open>
  The refinement: the limits hold after the step, so there was room before it.
\<close>

lemma step_refines:
  assumes reach: "reachable E cfg w" and max: "unat (cfg_max_connections cfg) + env_workers E < 2 ^ 32 - 1"
    and step: "step E w actor w'"
  shows "spec_step cfg (admission_view w) (admission_view w')"
  using step reachable_wf [OF reach]
proof (rule step_view)
  fix s t ip assume new: "admission_view w s = None"
    and view: "admission_view w' = (admission_view w)(s \<mapsto> (t, ip))"
  note after = limits_hold [OF reachable.next_step [OF reach step] max, unfolded view]
  have fin: "finite (dom (admission_view w))"
    by (rule finite_admission_view [OF reachable_wf [OF reach]])
  have "s \<notin> dom (admission_view w)" using new by auto
  then have "card (dom (admission_view w)) < unat (cfg_max_connections cfg)"
    using after(1) fin by simp
  moreover have "count_where (\<lambda>x. snd x = Some i) (admission_view w) < unat (ucast v :: u32)"
    if "cfg_ip_max_concurrent cfg = Some v" "ip = Some i" for v i
    using after(3) [OF that(1), of i] that(2) count_where_insert [OF fin new, of "\<lambda>x. snd x = ip" "(t, ip)"]
    by (simp add: Suc_le_eq)
  ultimately have "room_for cfg (admission_view w) t ip"
    using after(2) [of _ t] count_where_insert [OF fin new, of "\<lambda>x. fst x = t" "(t, ip)"]
    by (auto simp: room_for_def Suc_le_eq)
  with new show ?thesis unfolding view by (intro spec_enter)
next
  fix s assume "admission_view w' = (admission_view w)(s := None)"
  then show ?thesis by (simp add: spec_end)
qed (simp add: spec_stay)

end

end
