(* ===== verification/Admission_Decision.thy ===== *)
theory Admission_Decision
  imports Admission_Spec
begin

text \<open>
  The decision of \<open>ws_handler\<close> as a reference function of what it depends on: the verdict of
  the address limiter, whether a slot is free, the identity, and whether the tenant is at
  its cap; what a refused request leaves; and where the identities of sessions and API
  calls come from.
\<close>

section \<open>The reference decision\<close>

definition admission_decision ::
    "ip_rejection option \<Rightarrow> bool \<Rightarrow> string + auth_identity \<Rightarrow> (rust_string \<Rightarrow> bool)
      \<Rightarrow> (nat \<times> string) option" where
  \<comment> \<open>\<open>None\<close>: admitted; otherwise the status and the text of the refusal\<close>
  "admission_decision ip_verdict slot_free identity tenant_full =
     (case ip_verdict of
        Some reason \<Rightarrow> Some (429, ip_rejection_text reason)
      | None \<Rightarrow>
          if \<not> slot_free then Some (503, ''connection limit reached'' @ [newline])
          else (case identity of
                  Inl refusal \<Rightarrow> Some (401, refusal)
                | Inr i \<Rightarrow>
                    if tenant_full (ai_tenant_id i)
                    then Some (429, ''tenant connection limit exceeded'' @ [newline]) else None))"

definition ip_verdict ::
    "ip_addr list \<Rightarrow> clock \<Rightarrow> ip_addr \<Rightarrow> ('s, 'b, 'q, 'k) app_state \<Rightarrow> ip_rejection option" where
  "ip_verdict keys clk ip st =
     (case st_ip_limiter st of
        None \<Rightarrow> None
      | Some l \<Rightarrow> (case fst (try_acquire keys clk l ip) of Inl reason \<Rightarrow> Some reason | Inr _ \<Rightarrow> None))"

definition refusal :: "ws_response \<Rightarrow> (nat \<times> string) option" where
  "refusal r = (case r of Refuse status text \<Rightarrow> Some (status, text) | Upgrade _ \<Rightarrow> None)"

lemma admit_ip_verdict:
  assumes "admit_ip keys clk ip st = (r, st')"
  shows "ip_verdict keys clk ip st = (case r of Inl reason \<Rightarrow> Some reason | Inr _ \<Rightarrow> None)"
  using assms by (rule admit_ip_eq) (simp_all add: ip_verdict_def)

lemma ws_identity_auth: "st_auth st' = st_auth st \<Longrightarrow> ws_identity E now_secs query st' = ws_identity E now_secs query st"
  by (simp add: ws_identity_def)

lemma admission_decision_refuse:
  "admission_decision None False i f = Some (503, ''connection limit reached'' @ [newline])"
  "admission_decision None True (Inl e) f = Some (401, e)"
  "admission_decision None True (Inr i') f
     = (if f (ai_tenant_id i')
        then Some (429, ''tenant connection limit exceeded'' @ [newline]) else None)"
  by (simp_all add: admission_decision_def)

context server_env
begin

text \<open>Behind the first two limits there was a slot, and identity and tenant limit are as before.\<close>

lemma past_two_limits:
  assumes "admit_ip keys clk ip st = (Inr p, st1)" "acquire_slot E st1 = (True, st2)"
  shows "0 < avail (st_connection_limit st)"
    and "ws_identity E now_secs query st2 = ws_identity E now_secs query st"
    and "tenant_cap st2 = tenant_cap st" "tenant_used avail st2 = tenant_used avail st"
    and "tenant_limits_ok avail st2 = tenant_limits_ok avail st"
proof -
  obtain l where st1: "st1 = st\<lparr>st_ip_limiter := l\<rparr>" using assms(1) by (rule admit_ip_frame)
  obtain s where st2: "st2 = st1\<lparr>st_connection_limit := s\<rparr>" using assms(2) by (rule acquire_slot_frame)
  from assms(2) show "0 < avail (st_connection_limit st)"
    by (rule acquire_slot_eq) (auto simp: st1 dest: sem.try_acquire_Some)
  show "ws_identity E now_secs query st2 = ws_identity E now_secs query st"
    by (rule ws_identity_auth) (simp add: st1 st2)
  show "tenant_cap st2 = tenant_cap st" "tenant_used avail st2 = tenant_used avail st"
    "tenant_limits_ok avail st2 = tenant_limits_ok avail st"
    using tenant_frame [of st2 st] by (simp_all add: st1 st2)
qed

lemma ws_handler_decides:
  assumes handler: "ws_handler E keys clk now_secs query peer headers st = (r, st')"
    and ok: "tenant_limits_ok avail st"
    and ip: "ip = resolve_client_ip peer headers (cfg_trust_proxy_headers (st_config st))"
  shows "refusal r = admission_decision (ip_verdict keys clk ip st) (0 < avail (st_connection_limit st))
           (ws_identity E now_secs query st) (\<lambda>t. tenant_cap st = Some (tenant_used avail st t))"
  using handler
proof (cases rule: ws_handler_cases)
  case (ip reason st1)
  with admit_ip_verdict [OF ip(1)] assms(3) show ?thesis
    by (simp add: refusal_def admission_decision_def too_many_requests_def)
next
  case (slot p st1 st2)
  obtain l where st1: "st1 = st\<lparr>st_ip_limiter := l\<rparr>" using slot(1) by (rule admit_ip_frame)
  from slot(2) have "avail (st_connection_limit st) = 0"
    by (rule acquire_slot_eq) (auto simp: st1 dest: sem.try_acquire_None)
  with slot admit_ip_verdict [OF slot(1)] assms(3) show ?thesis
    by (simp add: refusal_def admission_decision_refuse service_unavailable_def)
next
  case (auth p st1 st2 e)
  with past_two_limits(1,2) [OF auth(1,2)] admit_ip_verdict [OF auth(1)] assms(3) show ?thesis
    by (simp add: refusal_def admission_decision_refuse unauthorized_def)
next
  case (tenant p st1 st2 identity u st3)
  note past = past_two_limits [OF tenant(1,2)]
  have "tenant_cap st = Some (tenant_used avail st (ai_tenant_id identity))"
    using tenant_refused(3) [OF tenant(4)] ok by (simp add: past)
  with tenant past(1,2) admit_ip_verdict [OF tenant(1)] assms(3) show ?thesis
    by (simp add: refusal_def admission_decision_refuse too_many_requests_def)
next
  case (upgrade p st1 st2 identity a)
  note past = past_two_limits [OF upgrade(1,2)]
  have "tenant_cap st \<noteq> Some (tenant_used avail st (ai_tenant_id identity))"
  proof (cases a)
    case None
    with upgrade(4) have "tenant_cap st2 = None" by (auto elim!: acquire_tenant_permit_eq)
    then show ?thesis by (simp add: past)
  next
    case (Some x)
    with upgrade(5) obtain q where "a = Some (Inr q)" by (cases x) auto
    with tenant_admitted(2) [of "ai_tenant_id identity" st2 q st'] upgrade(4) ok show ?thesis
      by (auto simp: past)
  qed
  with upgrade past(1,2) admit_ip_verdict [OF upgrade(1)] assms(3) show ?thesis
    by (simp add: refusal_def admission_decision_refuse)
qed

lemma accounts_same:
  assumes "accounts avail st M" "accounts avail st' M" "st_config st' = st_config st"
  shows "avail (st_connection_limit st') = avail (st_connection_limit st)"
    and "tenant_used avail st' = tenant_used avail st"
  using assms by (auto simp: accounts_def slot_account_def slots_ok_def slots_used_def tenant_account_def)

end

text \<open>
  A handler in its first stages counts against nobody for long: when the global limit turns a
  request away, the admitted sessions fill it up to the other handlers.
\<close>

context server_env
begin

lemma full_admitted:
  assumes reach: "reachable E cfg w" and room: "unat (cfg_max_connections cfg) + env_workers E < 2 ^ 32 - 1"
    and s: "w_sessions w s = Some (Handling g)"
    and run: "ws_stage_step E keys clk now_secs g (w_app w) = (Answer (Refuse service_unavailable m), st)"
  shows "unat (cfg_max_connections cfg)
           < card (sessions_where (\<lambda>x. session_ticket x \<noteq> None) w) + env_workers E"
proof -
  note wf = reachable_wf [OF reach]
  let ?A = "sessions_where (\<lambda>x. session_ticket x \<noteq> None) w"
    and ?H = "sessions_where (\<lambda>x. session_ticket x = None) w"
  from run obtain query p st1 where g: "g = IpAdmitted query p" "acquire_slot E (w_app w) = (False, st1)"
    by (cases rule: ws_stage_cases)
       (auto simp: service_unavailable_def too_many_requests_def unauthorized_def)
  have "avail (st_connection_limit (w_app w)) = 0"
    using g(2) by (rule acquire_slot_eq) (auto dest: sem.try_acquire_None)
  then have "unat (cfg_max_connections cfg) = card (sessions_where holds_slot w)"
    using books_counts(1) [OF reachable_books [OF reach room] wf] reachable_config [OF reach] by simp
  also have "\<dots> \<le> card (?A \<union> (?H - {s}))"
    using s g(1) sessions_where_finite [OF wf]
    by (intro card_mono) (auto simp: sessions_where_def holds_slot_def)
  also have "\<dots> \<le> card ?A + card (?H - {s})" by (rule card_Un_le)
  also have "\<dots> < card ?A + card ?H"
  proof -
    have "s \<in> ?H" using s by (auto simp: sessions_where_def)
    then show ?thesis
      by (intro add_strict_left_mono card_Diff1_less sessions_where_finite [OF wf])
  qed
  also have "\<dots> \<le> card ?A + env_workers E"
    using reachable_handlers [OF reach] by (simp add: handlers_def)
  finally show ?thesis .
qed

end

lemma accounts_ip_same:
  assumes "accounts avail st M" "accounts avail st' M"
    and "st_ip_limiter st = Some l" "st_ip_limiter st' = Some l'"
  shows "ip_in_use l' = ip_in_use l"
  using assms by (simp add: accounts_def ip_account_def)

text \<open>A refusal counts itself and touches no other counter of the connections.\<close>

lemma refused_metrics:
  assumes "ws_handler E keys clk now_secs query peer headers st = (Refuse status m, st')"
  shows "m_rejected_connections (st_metrics st') = m_rejected_connections (st_metrics st) + 1"
    and "m_accepted_connections (st_metrics st') = m_accepted_connections (st_metrics st)"
  by (rule ws_handler_cases [OF assms];
      elim admit_ip_frame acquire_slot_frame acquire_tenant_permit_only;
      simp add: frame_simps drop_slot_def metrics_ops)+

section \<open>Identities\<close>

lemma ws_stage_identity:
  assumes "ws_stage_step E keys clk now_secs g st = (Answer (Upgrade t), st')"
  obtains query p where "g = SlotTaken query p"
    "ws_identity E now_secs query st = Inr (tk_identity t)" "tk_topic t = wq_topic query"
  using assms by (cases rule: ws_stage_cases) auto

definition token_identity ::
    "(rust_string \<Rightarrow> 'k \<Rightarrow> algorithm \<Rightarrow> claims \<Rightarrow> bool) \<Rightarrow> 'k auth_verifier \<Rightarrow> rust_string \<Rightarrow> nat
      \<Rightarrow> auth_identity \<Rightarrow> bool" where
  \<comment> \<open>a signed token, not expired at the time of its check, of the configured issuer if it names one\<close>
  "token_identity sig_ok v token now_secs identity \<longleftrightarrow>
     (\<exists>c. sig_ok token (decoding_key v) (va_algorithm (verifier_validation v)) c
        \<and> int now_secs \<le> sint (cl_exp c) + jwt_leeway
        \<and> (\<forall>i j. av_issuer v = Some i \<longrightarrow> cl_iss c = Some j \<longrightarrow> j = i)
        \<and> identity = \<lparr>ai_client_id = cl_sub c,
                      ai_tenant_id = unwrap_or (cl_tenant_id c) (lit ''default'')\<rparr>)"

context jwt_decoder
begin

lemma verify_token_identity:
  assumes "verify jwt now v token = Inr identity"
  shows "token_identity signed v token now identity"
  using assms by (rule verify_Inr) (auto simp: token_identity_def)

end

lemma ws_identity_token:
  assumes "jwt_decoder (env_jwt E) sig_ok" "st_auth st = Some v"
    and "ws_identity E now_secs query st = Inr identity"
  shows "\<exists>token. wq_token query = Some token \<and> token_identity sig_ok v token now_secs identity"
  using assms(2,3) jwt_decoder.verify_token_identity [OF assms(1)]
  by (auto simp: ws_identity_def split: option.splits sum.splits)

lemma resolve_identity_token:
  assumes "jwt_decoder (env_jwt E) sig_ok" "st_auth st = Some v"
    and "resolve_identity E now_secs headers st = Inr identity"
  shows "\<exists>token. headers ''authorization'' = Some (lit ''Bearer '' @ token)
           \<and> token_identity sig_ok v token now_secs identity"
  using assms(2,3) jwt_decoder.verify_token_identity [OF assms(1)]
  by (auto simp: resolve_identity_def extract_bearer_def bind_eq_Some_conv strip_prefix_Some
      split: option.splits sum.splits)

lemma drop_ticket_auth: "st_auth (drop_ticket E now t st) = st_auth st"
  by (simp add: drop_ticket_def drop_slot_def drop_ip_def drop_tenant_def drop_tenant_permit_def
      split: option.split)

interpretation kept_auth: kept_field E st_auth for E
  by unfold_locales
     (simp_all add: ws_stage_frame drop_ticket_auth handle_socket_end_def open_subscribe_control
       open_register_frame touches_control(3) unregister_remove_def)

lemma reachable_auth:
  "reachable E cfg w \<Longrightarrow> st_auth (w_app w) = auth_verifier_from_config (env_jwt E) cfg"
  by (simp add: kept_auth.kept_reachable app_state_new_def)

text \<open>Every admitted session got its identity from a token, when tokens are required.\<close>

lemma reachable_session_token:
  assumes "jwt_decoder (env_jwt E) sig_ok" "reachable E cfg w"
    and "auth_verifier_from_config (env_jwt E) cfg = Some v"
    and "w_sessions w s = Some x" "session_ticket x = Some t"
  shows "\<exists>token now_secs. token_identity sig_ok v token now_secs (tk_identity t)"
  using assms(2,4,5)
proof (induction arbitrary: s x rule: reachable.induct)
  case start
  then show ?case by (simp add: world_new_def)
next
  case (next_step w actor w')
  from next_step(2,4,5) show ?case
  proof (rule step_tickets)
    fix y assume "w_sessions w s = Some y" "session_ticket y = Some t"
    then show ?case by (rule next_step.IH)
  next
    fix keys clk now_secs g
    assume h: "ws_stage_step E keys clk now_secs g (w_app w) = (Answer (Upgrade t), w_app w')"
    have auth: "st_auth (w_app w) = Some v" using reachable_auth [OF next_step(1)] assms(3) by simp
    from h show ?case
      by (rule ws_stage_identity) (use ws_identity_token [OF assms(1) auth] in blast)
  qed
qed

end
