(* ===== verification/Rate_Limits.thy ===== *)
theory Rate_Limits
  imports Admission_Decision Frame_Handling
begin

text \<open>
  The rate limits of the running server: every bucket in a reachable state is well formed
  and a connection's limiter has the configured capacity and rate; the buckets of tenants
  do not influence each other; what reaping may remove; a configured cap that truncates
  to zero.
\<close>

section \<open>Well-formed buckets\<close>

definition ip_buckets_ok :: "ip_limiter \<Rightarrow> bool" where
  "ip_buckets_ok l \<longleftrightarrow>
     f64_round (il_burst l) = il_burst l \<and>
     (\<forall>ip s. il_states l ip = Some s \<longrightarrow> tb_wf (is_bucket s))"

definition buckets_ok :: "('s, 'b, 'q, 'k) app_state \<Rightarrow> bool" where
  "buckets_ok st \<longleftrightarrow>
     (\<forall>l. st_ip_limiter st = Some l \<longrightarrow> ip_buckets_ok l) \<and>
     (\<forall>m t b. st_tenant_rate_limits st = Some m \<longrightarrow> m t = Some b \<longrightarrow> tb_wf b)"

definition limiter_ok :: "config \<Rightarrow> rate_limiter \<Rightarrow> bool" where
  "limiter_ok cfg l \<longleftrightarrow>
     rl_wf l \<and> rl_capacity l = of_nat (max (unat (cfg_message_burst cfg)) 1)
     \<and> rl_refill_per_second l = of_nat (max (unat (cfg_max_messages_per_second cfg)) 1)"

lemma f64_round_max: "f64_round a = a \<Longrightarrow> f64_round b = b \<Longrightarrow> f64_round (max a b) = max a b"
  by (simp add: max_def)

lemma f64_round_u32: "f64_round (unsigned (w :: u32)) = unsigned w"
  using f64_round_of_nat [OF unat_u32_less_f64 [of w]] by simp

lemma ip_buckets_put:
  "ip_buckets_ok l \<Longrightarrow> tb_wf (is_bucket s) \<Longrightarrow> ip_buckets_ok (put_state l ip s)"
  by (simp add: ip_buckets_ok_def put_state_def)

lemma ip_buckets_reap:
  assumes "ip_buckets_ok l"
  shows "ip_buckets_ok (reap_idle keys now l)"
  unfolding ip_buckets_ok_def reap_idle_frame
proof (intro conjI allI impI)
  show "f64_round (il_burst l) = il_burst l" using assms by (simp add: ip_buckets_ok_def)
  fix ip s assume s: "il_states (reap_idle keys now l) ip = Some s"
  show "tb_wf (is_bucket s)"
    by (rule reap_idle_cases [of keys now l ip]) (use s assms in \<open>auto simp: ip_buckets_ok_def\<close>)
qed

lemma ip_entry_wf: "ip_buckets_ok l \<Longrightarrow> tb_wf (is_bucket (ip_entry clk l ip))"
  using token_bucket_new_wf [of "il_burst l" "il_refill_per_second l" "clk 1"]
  by (auto simp: ip_entry_def ip_buckets_ok_def split: option.split)

lemma ip_buckets_try_acquire:
  assumes "try_acquire keys clk l ip = (r, l')" "ip_buckets_ok l"
  shows "ip_buckets_ok l'"
proof -
  let ?l = "reap_idle keys (clk 0) l"
  have ok: "ip_buckets_ok ?l" by (rule ip_buckets_reap [OF assms(2)])
  have wf: "tb_wf (is_bucket s)"
    if "if il_rate_configured l then try_consume (clk 3) (is_bucket (ip_entry clk ?l ip)) = (x, is_bucket s)
        else is_bucket s = is_bucket (ip_entry clk ?l ip)" for x s
    using that tb.consume_wf [OF ip_entry_wf [OF ok]] ip_entry_wf [OF ok] by (auto split: if_splits)
  show ?thesis
  proof (cases r)
    case (Inl reason)
    from assms(1) [unfolded Inl] show ?thesis
      by (rule try_acquire_Inl) (simp add: ip_buckets_put [OF ok wf])
  next
    case (Inr p)
    from assms(1) [unfolded Inr] show ?thesis
      by (rule try_acquire_Inr) (simp add: ip_buckets_put [OF ok wf])
  qed
qed

lemma ip_buckets_drop: "ip_buckets_ok l \<Longrightarrow> ip_buckets_ok (drop_ip_permit now p l)"
  by (auto simp: drop_ip_permit_def ip_release_def ip_buckets_put split: option.split)
     (auto simp: ip_buckets_ok_def put_state_def)

lemma ip_buckets_from_config:
  "ip_limiter_from_config cfg = Some l \<Longrightarrow> ip_buckets_ok l"
  by (cases "cfg_ip_connection_rate cfg"; cases "cfg_ip_rate_burst cfg")
     (auto simp: ip_limiter_from_config_def Let_def ip_buckets_ok_def f64_round_u32
       intro!: f64_round_max split: if_splits)

lemma buckets_ok_frame:
  assumes "st_ip_limiter st' = st_ip_limiter st" "st_tenant_rate_limits st' = st_tenant_rate_limits st"
  shows "buckets_ok st' = buckets_ok st"
  unfolding buckets_ok_def assms ..

lemma buckets_ok_updates [simp]:
  "buckets_ok (count_metric f st) = buckets_ok st"
  "buckets_ok (st\<lparr>st_connection_limit := a\<rparr>) = buckets_ok st"
  "buckets_ok (st\<lparr>st_tenant_limits := b\<rparr>) = buckets_ok st"
  "buckets_ok (st\<lparr>st_topics := c\<rparr>) = buckets_ok st"
  "buckets_ok (st\<lparr>st_chans := d\<rparr>) = buckets_ok st"
  "buckets_ok (st\<lparr>st_clients := e\<rparr>) = buckets_ok st"
  "buckets_ok (put_topic key h st) = buckets_ok st"
  "buckets_ok (drop_slot E st) = buckets_ok st"
  "buckets_ok (drop_writer E co st) = buckets_ok st"
  "buckets_ok (drop_fanout E co st) = buckets_ok st"
  by (rule buckets_ok_frame; simp add: put_topic_def drop_slot_def drop_writer_def drop_fanout_def
      split: option.split)+

lemma buckets_ok_admit:
  assumes "admit_ip keys clk ip st = (r, st')" "buckets_ok st"
  shows "buckets_ok st'"
  using assms(1)
  by (rule admit_ip_eq) (use assms(2) ip_buckets_try_acquire in \<open>auto simp: buckets_ok_def\<close>)

lemma buckets_ok_drop_ip: "buckets_ok st \<Longrightarrow> buckets_ok (drop_ip now p st)"
  by (auto simp: drop_ip_def buckets_ok_def ip_buckets_drop split: option.split)

lemma buckets_ok_ws_stage:
  assumes "ws_stage_step E keys clk now_secs g st = (r, st')" "buckets_ok st"
  shows "buckets_ok st'"
  by (rule ws_stage_cases [OF assms(1)];
      (drule buckets_ok_admit [OF _ assms(2)])?;
      (elim acquire_slot_frame acquire_tenant_permit_only)?;
      simp add: buckets_ok_drop_ip assms(2))

lemma buckets_ok_drop_ticket: "buckets_ok st \<Longrightarrow> buckets_ok (drop_ticket E now t st)"
proof -
  assume ok: "buckets_ok st"
  obtain l where "drop_tenant E (tk_tenant_permit t) st = st\<lparr>st_tenant_limits := l\<rparr>"
    by (rule drop_tenant_frame)
  with ok show ?thesis by (simp add: drop_ticket_def buckets_ok_drop_ip)
qed

lemma buckets_ok_tenant_rate:
  assumes "check_tenant_rate clk t st = (ok, st')" "buckets_ok st"
  shows "buckets_ok st'"
proof (cases "st_tenant_rate_limits st")
  case None
  with assms show ?thesis by (simp add: check_tenant_rate_def)
next
  case (Some m)
  show ?thesis
  proof (cases "cfg_tenant_max_messages_per_second (st_config st)")
    case None
    with assms Some show ?thesis by (simp add: check_tenant_rate_def)
  next
    case rate: (Some r)
    let ?burst = "case cfg_tenant_message_burst (st_config st) of
        Some b \<Rightarrow> f64_of_nat (unat b) | None \<Rightarrow> max (f64_of_nat (unat r)) 1"
    let ?b = "case m t of Some b \<Rightarrow> b | None \<Rightarrow> token_bucket_new (f64_of_nat (unat r)) ?burst (clk 0)"
    have burst: "f64_round ?burst = ?burst"
      by (auto simp: f64_round_u32 intro!: f64_round_max split: option.split)
    have wf: "tb_wf ?b"
      using assms(2) Some token_bucket_new_wf [OF burst] by (auto simp: buckets_ok_def split: option.split)
    obtain ok' b' where consume: "try_consume (clk 1) ?b = (ok', b')" by (rule prod.exhaust)
    have "st' = st\<lparr>st_tenant_rate_limits := Some (m(t \<mapsto> b'))\<rparr>"
      using assms(1) Some rate consume unfolding check_tenant_rate_def Let_def by simp
    with assms(2) Some tb.consume_wf [OF wf consume] show ?thesis by (simp add: buckets_ok_def)
  qed
qed

interpretation bucket_steps: message_steps E "\<lambda>st st'. buckets_ok st \<longrightarrow> buckets_ok st'" UNIV UNIV for E
proof unfold_locales
  fix st st' :: "('a, 'b, 'c, 'd) app_state" and clk t ok
  assume "check_tenant_rate clk t st = (ok, st')"
  then show "buckets_ok st \<longrightarrow> buckets_ok st'" using buckets_ok_tenant_rate by blast
next
  fix st st' :: "('a, 'b, 'c, 'd) app_state" and key m n
  assume "publish E key m st = (n, st')"
  then show "buckets_ok st \<longrightarrow> buckets_ok st'" by (rule publish_only) simp
next
  fix st st' :: "('a, 'b, 'c, 'd) app_state" and a m
  assume "chan_try_send E a m st = Inr st'"
  then show "buckets_ok st \<longrightarrow> buckets_ok st'" by (rule chan_try_send_eq) simp
qed simp_all

section \<open>In every reachable state\<close>

lemma buckets_ok_send_encoded: "send_encoded E a m st = (ok, st') \<Longrightarrow> buckets_ok st \<Longrightarrow> buckets_ok st'"
  using bucket_steps.R_send_encoded [of a st E m] by simp

lemma buckets_ok_writer_step:
  "writer_step E c out (holding, st) = Some (r, frame, holding', st') \<Longrightarrow> buckets_ok st \<Longrightarrow> buckets_ok st'"
  by (erule writer_step_eq) simp_all

lemma buckets_ok_fanout_step:
  "fanout_step E c st = Some (r, st') \<Longrightarrow> buckets_ok st \<Longrightarrow> buckets_ok st'"
  by (erule fanout_step_eq) (auto dest: buckets_ok_send_encoded)

lemma buckets_ok_abort: "buckets_ok (abort_others E completed c writer fanout st) = buckets_ok st"
  by (simp add: abort_others_def abort_writer_def abort_fanout_def
      split: connection_task.split task_state.split)

lemma buckets_ok_open_subscribe:
  assumes "open_subscribe E t st = (c, st')" "buckets_ok st"
  shows "buckets_ok st'"
  using open_subscribe_control(4,7) [OF assms(1)] assms(2) buckets_ok_frame by blast

lemma buckets_ok_open_register: "buckets_ok (open_register c st) = buckets_ok st"
  by (rule buckets_ok_frame) (simp_all add: open_register_frame)

lemma buckets_ok_open_ready:
  assumes "open_ready E c st = (ok, st')" "buckets_ok st"
  shows "buckets_ok st'"
  using assms(1)
  by (rule open_ready_eq) (use assms(2) bucket_steps.R_send_encoded [of "co_tx c" st E] in auto)

lemma reader_step_limiter:
  assumes "reader_step E clk c input (l, st) = (r, l', st')" "limiter_ok cfg l"
  shows "limiter_ok cfg l'"
proof -
  have "l' = l \<or> l' = snd (rate_limiter_allow (clk 0) l)"
    using assms(1)
    by (auto simp: reader_step_def read_text_def read_binary_def Let_def
        split: reader_input.splits ws_message.splits prod.splits if_splits)
  moreover have "limiter_ok cfg (snd (rate_limiter_allow (clk 0) l))"
  proof -
    obtain ok l2 where allow: "rate_limiter_allow (clk 0) l = (ok, l2)" by (rule prod.exhaust)
    from assms(2) have "rl_wf l" unfolding limiter_ok_def by (rule conjunct1)
    then have "rl_wf l2" by (rule rl.consume_wf [OF _ allow])
    with rate_limiter_allow_gate(2,3) [OF allow] assms(2) allow show ?thesis
      by (simp add: limiter_ok_def)
  qed
  ultimately show ?thesis using assms(2) by auto
qed

definition limits_wf :: "config \<Rightarrow> ('s, 'b, 'q, 'k) world \<Rightarrow> bool" where
  "limits_wf cfg w \<longleftrightarrow>
     buckets_ok (w_app w) \<and> (\<forall>s v. w_sessions w s = Some (Live v) \<longrightarrow> limiter_ok cfg (lv_limiter v))"

lemma limiter_ok_new: "limiter_ok cfg (lv_limiter (live_new t c cfg now))"
  using rate_limiter_new_wf [of "cfg_max_messages_per_second cfg" "cfg_message_burst cfg" now]
  by (simp add: limiter_ok_def live_new_def)

lemma buckets_ok_step:
  assumes "step E w actor w'" "buckets_ok (w_app w)"
  shows "buckets_ok (w_app w')"
  using assms(1)
proof (cases rule: step_kinds)
  case (reader s v clk input r l)
  have "buckets_ok (w_app w) \<longrightarrow> buckets_ok (w_app w')"
    using reader(4) by (rule bucket_steps.R_reader_step) auto
  with assms(2) show ?thesis by simp
next
  case called
  have "buckets_ok (w_app w) \<longrightarrow> buckets_ok (w_app w')"
    using called(1) by (rule bucket_steps.R_api_call) auto
  with assms(2) show ?thesis by simp
qed (use assms(2) in \<open>auto simp: buckets_ok_drop_ticket buckets_ok_open_register handle_socket_end_def
       buckets_ok_abort unregister_remove_def
       dest: buckets_ok_ws_stage buckets_ok_open_subscribe buckets_ok_open_ready buckets_ok_writer_step
         buckets_ok_fanout_step\<close>)

text \<open>Where the limiter of a running connection comes from.\<close>

lemma step_limiter:
  assumes "step E w actor w'" "w_sessions w' s = Some (Live v')"
  obtains v where "w_sessions w s = Some (Live v)" "lv_limiter v' = lv_limiter v"
  | v clk input r st where "w_sessions w s = Some (Live v)"
      "reader_step E clk (lv_conn v) input (lv_limiter v, w_app w) = (r, lv_limiter v', st)"
  | t c st now where "open_ready E c (w_app w) = (True, st)"
      "v' = live_new t c (st_config st) now"
  using assms(1)
  by (rule step_cases) (use assms(2) that in \<open>auto split: if_splits\<close>)

lemma reachable_limits_wf:
  assumes "reachable E cfg w"
  shows "limits_wf cfg w"
  using assms
proof (induction rule: reachable.induct)
  case start
  show ?case
    by (auto simp: limits_wf_def world_new_def app_state_new_def buckets_ok_def ip_buckets_from_config)
next
  case (next_step w actor w')
  note cfg = reachable_config [OF next_step(1)]
  have "limiter_ok cfg (lv_limiter v')" if s: "w_sessions w' s = Some (Live v')" for s v'
    using next_step(2) s
  proof (rule step_limiter)
    fix t c st now assume op: "open_ready E c (w_app w) = (True, st)"
      and v': "v' = live_new t c (st_config st) now"
    from touches_control(1) [OF task_steps_touch(7) [OF op]] cfg v' limiter_ok_new show ?thesis by simp
  qed (use next_step.IH in \<open>auto simp: limits_wf_def dest: reader_step_limiter\<close>)
  with buckets_ok_step [OF next_step(2)] next_step.IH show ?case by (simp add: limits_wf_def)
qed

section \<open>The buckets of tenants are independent\<close>

fun tenant_checks ::
    "(clock \<times> rust_string) list \<Rightarrow> ('s, 'b, 'q, 'k) app_state
      \<Rightarrow> (rust_string \<times> bool) list \<times> ('s, 'b, 'q, 'k) app_state" where
  \<comment> \<open>a sequence of calls of \<open>check_tenant_rate\<close>, with their answers\<close>
  "tenant_checks [] st = ([], st)"
| "tenant_checks ((clk, t) # cs) st =
     (let (ok, st1) = check_tenant_rate clk t st; (rs, st2) = tenant_checks cs st1
      in ((t, ok) # rs, st2))"

definition tenant_view ::
    "rust_string \<Rightarrow> ('s, 'b, 'q, 'k) app_state \<Rightarrow> config \<times> token_bucket option option" where
  "tenant_view t st = (st_config st, map_option (\<lambda>m. m t) (st_tenant_rate_limits st))"

lemma check_tenant_rate_view:
  assumes "tenant_view t st = tenant_view t st'"
  shows "fst (check_tenant_rate clk t st) = fst (check_tenant_rate clk t st')
         \<and> tenant_view t (snd (check_tenant_rate clk t st)) = tenant_view t (snd (check_tenant_rate clk t st'))"
proof (cases "st_tenant_rate_limits st")
  case None
  with assms show ?thesis by (simp add: tenant_view_def check_tenant_rate_def)
next
  case (Some m)
  with assms obtain m' where "st_tenant_rate_limits st' = Some m'" "m' t = m t" "st_config st' = st_config st"
    by (cases "st_tenant_rate_limits st'") (auto simp: tenant_view_def)
  with Some show ?thesis
    by (cases "cfg_tenant_max_messages_per_second (st_config st)")
       (simp_all add: tenant_view_def check_tenant_rate_def Let_def split: prod.split)
qed

lemma check_tenant_rate_other:
  "u \<noteq> t \<Longrightarrow> tenant_view t (snd (check_tenant_rate clk u st)) = tenant_view t st"
  by (simp add: tenant_view_def check_tenant_rate_def Let_def split: option.split prod.split)

lemma tenant_checks_independent:
  assumes "tenant_view t st = tenant_view t st'"
  shows "filter (\<lambda>r. fst r = t) (fst (tenant_checks cs st))
           = fst (tenant_checks (filter (\<lambda>c. snd c = t) cs) st')"
  using assms
proof (induction cs arbitrary: st st')
  case (Cons c cs)
  obtain clk u where c: "c = (clk, u)" by (rule prod.exhaust)
  note step = check_tenant_rate_view [OF Cons.prems, of clk]
  show ?case
  proof (cases "u = t")
    case True
    from Cons.IH [OF conjunct2 [OF step]] step show ?thesis
      by (simp add: c True split_beta)
  next
    case False
    from Cons.IH [OF trans [OF check_tenant_rate_other [OF False] Cons.prems]] False
    show ?thesis by (simp add: c split_beta)
  qed
qed simp

section \<open>Reaping\<close>

lemma reap_idle_removed:
  "{ip. il_states l ip \<noteq> None \<and> il_states (reap_idle keys now l) ip = None}
     \<subseteq> set (collect_victims now (il_states l) [] keys)"
  by (auto simp: reap_idle_def Let_def remove_victims_lookup split: if_splits)

lemma reap_idle_card:
  "card {ip. il_states l ip \<noteq> None \<and> il_states (reap_idle keys now l) ip = None} \<le> 64"
proof -
  let ?vs = "collect_victims now (il_states l) [] keys"
  have "card {ip. il_states l ip \<noteq> None \<and> il_states (reap_idle keys now l) ip = None} \<le> card (set ?vs)"
    by (rule card_mono [OF _ reap_idle_removed]) simp
  also have "\<dots> \<le> length ?vs" by (rule card_length)
  also have "\<dots> \<le> 64" by (rule collect_victims_length) simp
  finally show ?thesis .
qed

section \<open>A cap that truncates to zero\<close>

lemma zero_cap_refuses:
  assumes "il_max_concurrent l = Some 0" "try_acquire keys clk l ip = (r, l')"
  obtains reason where "r = Inl reason"
proof (cases r)
  case (Inr p)
  have False
    using assms(2) [unfolded Inr] by (rule try_acquire_Inr) (use assms(1) in auto)
  then show thesis ..
qed (rule that)

end
