(* ===== verification/Router.thy ===== *)
theory Router
  imports Reachable
begin

text \<open>
  The route table (\<open>router\<close> in \<open>src/server.rs\<close>) and the pages that read the state. Matching a
  path and a method against the table is \<open>axum\<close>'s documented behaviour: an unknown path is
  404, a known path with another method 405. Layers (CORS, tracing) are not modelled.
\<close>

datatype http_method = GET | POST | OtherMethod string

datatype endpoint = Healthz | Readyz | MetricsPage | WsHandler | ApiPublish | ApiDirect

datatype route_result = Matched endpoint | MethodNotAllowed | NotFound

definition router :: "(string \<times> http_method \<times> endpoint) list" where
  "router =
     [(''/healthz'', GET, Healthz),
      (''/readyz'', GET, Readyz),
      (''/metrics'', GET, MetricsPage),
      (''/ws'', GET, WsHandler),
      (''/api/publish'', POST, ApiPublish),
      (''/api/direct'', POST, ApiDirect)]"

definition route :: "http_method \<Rightarrow> string \<Rightarrow> route_result" where
  "route meth path =
     (case map_of router path of
        None \<Rightarrow> NotFound
      | Some (m, e) \<Rightarrow> if m = meth then Matched e else MethodNotAllowed)"

definition healthz :: string where
  "healthz = ''ok'' @ [newline]"

definition readyz :: string where
  "readyz = ''ready'' @ [newline]"

definition metrics_page :: "('s, 'b, 'q, 'k) app_state \<Rightarrow> string" where
  "metrics_page st = render_prometheus (st_metrics st)"

text \<open>The pages answer a request without touching the state.\<close>

definition get_page :: "string \<Rightarrow> ('s, 'b, 'q, 'k) app_state \<Rightarrow> string option" where
  "get_page path st =
     (case route GET path of
        Matched Healthz \<Rightarrow> Some healthz
      | Matched Readyz \<Rightarrow> Some readyz
      | Matched MetricsPage \<Rightarrow> Some (metrics_page st)
      | _ \<Rightarrow> None)"

lemma scrape_Nil [simp]: "scrape [] = []"
  by (simp add: scrape_def List.map_filter_simps)

text \<open>What a scraper reads from the page: the eleven counters by their names.\<close>

lemma scrape_render_prometheus:
  "scrape (render_prometheus m) =
     [(''ws_active_connections'', unat (m_active_connections m)),
      (''ws_accepted_connections_total'', unat (m_accepted_connections m)),
      (''ws_rejected_connections_total'', unat (m_rejected_connections m)),
      (''ws_messages_in_total'', unat (m_messages_in m)),
      (''ws_messages_out_total'', unat (m_messages_out m)),
      (''ws_dropped_messages_total'', unat (m_dropped_messages m)),
      (''ws_protocol_errors_total'', unat (m_protocol_errors m)),
      (''ws_auth_rejected_total'', unat (m_auth_rejected m)),
      (''ws_ip_rejected_total'', unat (m_ip_rejected m)),
      (''ws_tenant_rejected_total'', unat (m_tenant_rejected m)),
      (''ws_tenant_rate_rejected_total'', unat (m_tenant_rate_rejected m))]"
  unfolding render_prometheus_def
  by (subst scrape_render_metric; (simp add: newline_def)?)+
     (subst scrape_render_metric [where rest = "[]", simplified]; simp add: newline_def)

end
