(* ===== verification/Process.thy ===== *)
theory Process
  imports Server
begin

text \<open>
  The process around the server: \<open>main\<close> and \<open>init_tracing\<close> (\<open>src/main.rs\<close>), \<open>serve\<close> and
  \<open>shutdown_signal\<close> (\<open>src/server.rs\<close>). Parsing the command line, the \<open>.env\<close> file, binding the
  socket, \<open>axum::serve\<close> and the installation of signal handlers are arguments. How
  \<open>axum::serve\<close> stops is axum's: the model ends where the code hands it the state and the
  future \<open>shutdown_signal\<close>.
\<close>

section \<open>Shutdown\<close>

datatype signal = SigInt | SigTerm

text \<open>Which of the two signal handlers could be installed.\<close>

record signal_setup =
  ss_ctrl_c :: bool
  ss_terminate :: bool

text \<open>Whether a future is over, when these signals have arrived since it was started.\<close>

definition ctrl_c_ends :: "signal_setup \<Rightarrow> signal list \<Rightarrow> bool" where
  \<comment> \<open>an error of \<open>ctrl_c()\<close> is logged, then the future is over as well\<close>
  "ctrl_c_ends su sigs = (if ss_ctrl_c su then SigInt \<in> set sigs else True)"

definition terminate_ends :: "signal_setup \<Rightarrow> signal list \<Rightarrow> bool" where
  "terminate_ends su sigs = (if ss_terminate su then SigTerm \<in> set sigs else True)"

definition shutdown_signal :: "signal_setup \<Rightarrow> signal list \<Rightarrow> bool" where
  \<comment> \<open>\<open>select!\<close> ends with the first of its branches\<close>
  "shutdown_signal su sigs \<longleftrightarrow> ctrl_c_ends su sigs \<or> terminate_ends su sigs"

section \<open>Start\<close>

datatype log_format = JsonLogs | CompactLogs

record tracing_setup =
  tr_filter :: rust_string
  tr_format :: log_format

definition init_tracing :: "rust_string option \<Rightarrow> bool \<Rightarrow> tracing_setup" where
  \<comment> \<open>the filter of \<open>RUST_LOG\<close>, when there is one and it can be parsed\<close>
  "init_tracing env_filter json_logs =
     \<lparr>tr_filter = unwrap_or env_filter (lit ''rust_ws_server=info,tower_http=info''),
      tr_format = (if json_logs then JsonLogs else CompactLogs)\<rparr>"

datatype log_line = Listening socket_addr | AuthDisabled

definition serve ::
    "(socket_addr \<Rightarrow> 'e option)
      \<Rightarrow> (('s, 'b, 'q, 'k) app_state \<Rightarrow> (signal list \<Rightarrow> bool) \<Rightarrow> 'e option)
      \<Rightarrow> signal_setup \<Rightarrow> ('s, 'b, 'q, 'k) app_state \<Rightarrow> 'e option \<times> log_line list" where
  \<comment> \<open>\<open>bind addr\<close> and \<open>axum_serve state signal\<close> are the errors of the two calls that can fail\<close>
  "serve bind axum_serve su state =
     (let addr = cfg_bind_addr (st_config state)
      in case bind addr of
           Some err \<Rightarrow> (Some err, [])
         | None \<Rightarrow>
             (axum_serve state (shutdown_signal su),
              Listening addr # (if st_auth state = None then [AuthDisabled] else [])))"

definition load_dotenv :: "env_vars option \<Rightarrow> env_vars \<Rightarrow> env_vars" where
  \<comment> \<open>\<open>dotenvy::dotenv\<close>: a variable that is set already keeps its value, a missing file is ignored\<close>
  "load_dotenv file vars =
     (case file of None \<Rightarrow> vars | Some f \<Rightarrow> (\<lambda>k. case vars k of Some v \<Rightarrow> Some v | None \<Rightarrow> f k))"

datatype 'e exit_status = BadArguments | Returned "'e option"

definition main ::
    "('s, 'b, 'q, 'k, 'v) env \<Rightarrow> (env_vars \<Rightarrow> config option) \<Rightarrow> (rust_string \<Rightarrow> bool)
      \<Rightarrow> (socket_addr \<Rightarrow> 'e option)
      \<Rightarrow> (('s, 'b, 'q, 'k) app_state \<Rightarrow> (signal list \<Rightarrow> bool) \<Rightarrow> 'e option) \<Rightarrow> signal_setup
      \<Rightarrow> env_vars option \<Rightarrow> env_vars
      \<Rightarrow> 'e exit_status \<times> tracing_setup option \<times> log_line list" where
  \<comment> \<open>\<open>parse vars\<close> is \<open>Config::parse\<close>, which ends the process when the arguments are wrong\<close>
  "main E parse valid_filter bind axum_serve su file vars =
     (let vars = load_dotenv file vars
      in case parse vars of
           None \<Rightarrow> (BadArguments, None, [])
         | Some cfg \<Rightarrow>
             (let env_filter = (case vars ''RUST_LOG'' of
                                  Some f \<Rightarrow> if valid_filter f then Some f else None
                                | None \<Rightarrow> None);
                  tracing = init_tracing env_filter (cfg_json_logs cfg);
                  (result, logged) = serve bind axum_serve su (app_state_new E cfg)
              in (Returned result, Some tracing, logged)))"

section \<open>What the process does\<close>

text \<open>
  The signal future is over when one of the signals has arrived, and at once when one of the
  handlers could not be installed.
\<close>

lemma shutdown_signal_iff:
  "shutdown_signal su sigs \<longleftrightarrow>
     \<not> ss_ctrl_c su \<or> \<not> ss_terminate su \<or> SigInt \<in> set sigs \<or> SigTerm \<in> set sigs"
  by (auto simp: shutdown_signal_def ctrl_c_ends_def terminate_ends_def)

text \<open>
  The process warns about missing authentication exactly when it serves and the server has no
  verifier. A socket that cannot be bound ends it with the error, before anything is logged.
\<close>

lemma main_warns:
  assumes "main E parse valid_filter bind axum_serve su file vars = (status, tr, logged)"
  shows "AuthDisabled \<in> set logged \<longleftrightarrow>
     (\<exists>cfg. parse (load_dotenv file vars) = Some cfg \<and> bind (cfg_bind_addr cfg) = None
            \<and> auth_verifier_from_config (env_jwt E) cfg = None)"
  using assms
  by (auto simp: main_def serve_def Let_def app_state_new_def
      split: option.splits prod.splits if_splits)

lemma main_fails_to_bind:
  assumes "parse (load_dotenv file vars) = Some cfg" "bind (cfg_bind_addr cfg) = Some err"
  shows "\<exists>tr. main E parse valid_filter bind axum_serve su file vars = (Returned (Some err), tr, [])"
  using assms by (simp add: main_def serve_def Let_def app_state_new_def)

end
