(* ===== verification/Mint_Token.thy ===== *)
theory Mint_Token
  imports Auth
begin

text \<open>
  The token minting tool (\<open>examples/mint-token.rs\<close>): it builds the claims from environment
  variables and signs them with the server's secret. A panic of the tool is \<open>None\<close>. The
  encoder of \<open>jsonwebtoken\<close> is a parameter; its documented relation to \<open>decode\<close> is the
  locale \<open>jwt_encoder\<close>.
\<close>

record 'e jwt_enc_lib =
  enc_from_secret :: "rust_string \<Rightarrow> 'e"
  jwt_encode :: "algorithm \<Rightarrow> claims \<Rightarrow> 'e \<Rightarrow> rust_string option"

section \<open>\<open>str::parse::<i64>\<close>\<close>

fun read_decimal :: "nat \<Rightarrow> rust_string \<Rightarrow> nat option" where
  "read_decimal acc [] = Some acc"
| "read_decimal acc (c # cs) =
     (if 48 \<le> c \<and> c \<le> 57 then read_decimal (acc * 10 + (c - 48)) cs else None)"

definition parse_i64 :: "rust_string \<Rightarrow> int option" where
  \<comment> \<open>an optional sign, at least one digit, and a value that fits\<close>
  "parse_i64 s =
     (let (neg, ds) = (case s of
            c # cs \<Rightarrow> if c = 45 then (True, cs) else if c = 43 then (False, cs) else (False, s)
          | [] \<Rightarrow> (False, []))
      in if ds = [] then None
         else Option.bind (read_decimal 0 ds) (\<lambda>n.
           let v = (if neg then - int n else int n)
           in if - (2 ^ 63) \<le> v \<and> v < 2 ^ 63 then Some v else None))"

section \<open>The tool\<close>

definition now_plus :: "nat \<Rightarrow> int \<Rightarrow> int option" where
  \<comment> \<open>\<open>i64\<close> addition; an overflow panics\<close>
  "now_plus now_secs secs =
     (let v = sint (of_nat now_secs :: u64) + secs
      in if - (2 ^ 63) \<le> v \<and> v < 2 ^ 63 then Some v else None)"

definition mint_claims :: "env_vars \<Rightarrow> nat \<Rightarrow> claims option" where
  "mint_claims env now_secs =
     (let client_id = unwrap_or (env ''CLIENT_ID'') (lit ''alice'');
          tenant_id = env ''TENANT_ID'';
          iss = env ''ISS''
      in Option.bind (case env ''TTL_SECS'' of Some s \<Rightarrow> parse_i64 s | None \<Rightarrow> Some 3600) (\<lambda>ttl.
         Option.bind (now_plus now_secs ttl) (\<lambda>exp.
         Some \<lparr>cl_sub = client_id, cl_tenant_id = tenant_id, cl_exp = of_int exp, cl_iss = iss\<rparr>)))"

definition mint_token :: "'e jwt_enc_lib \<Rightarrow> env_vars \<Rightarrow> nat \<Rightarrow> rust_string option" where
  "mint_token enc env now_secs =
     Option.bind (env ''WS_JWT_SECRET'') (\<lambda>secret.
     Option.bind (mint_claims env now_secs) (\<lambda>claims.
     jwt_encode enc HS256 claims (enc_from_secret enc secret)))"

section \<open>The law\<close>

locale jwt_encoder =
  fixes jwt :: "'k jwt_lib" and enc :: "'e jwt_enc_lib"
  assumes decode_encode:
    "jwt_encode enc algo c (enc_from_secret enc secret) = Some token \<Longrightarrow> va_algorithm va = algo \<Longrightarrow>
       int now \<le> sint (cl_exp c) \<Longrightarrow>
       (\<forall>isss. va_issuer va = Some isss \<longrightarrow> (\<exists>i \<in> set isss. cl_iss c = Some i)) \<Longrightarrow>
       jwt_decode jwt now token (jwt_from_secret jwt secret) va = Inr c"
begin

lemma minted_verifies:
  assumes mint: "mint_token enc env minted = Some token"
    and secret: "env ''WS_JWT_SECRET'' = Some secret"
    and claims: "mint_claims env minted = Some c" and fresh: "int now \<le> sint (cl_exp c)"
    and issuer: "iss_cfg = None \<or> iss_cfg = env ''ISS''"
  shows "verify jwt now \<lparr>av_decoding = Hmac (jwt_from_secret jwt secret), av_issuer = iss_cfg\<rparr> token
           = Inr \<lparr>ai_client_id = unwrap_or (env ''CLIENT_ID'') (lit ''alice''),
                  ai_tenant_id = unwrap_or (env ''TENANT_ID'') (lit ''default'')\<rparr>"
proof -
  let ?v = "\<lparr>av_decoding = Hmac (jwt_from_secret jwt secret), av_issuer = iss_cfg\<rparr>"
  from mint secret claims have enc: "jwt_encode enc HS256 c (enc_from_secret enc secret) = Some token"
    by (simp add: mint_token_def)
  from claims have c: "cl_sub c = unwrap_or (env ''CLIENT_ID'') (lit ''alice'')"
    "cl_tenant_id c = env ''TENANT_ID''" "cl_iss c = env ''ISS''"
    by (auto simp: mint_claims_def Let_def bind_eq_Some_conv)
  have "jwt_decode jwt now token (jwt_from_secret jwt secret) (verifier_validation ?v) = Inr c"
    by (rule decode_encode [OF enc])
       (use issuer in \<open>auto simp: verifier_validation_def fresh c(3) split: option.splits\<close>)
  then show ?thesis by (simp add: verify_def decoding_key_def c)
qed

end

section \<open>An instance\<close>

text \<open>
  A token spells out the claims and the secret, each string after its length; \<open>decode\<close> reads
  them back, compares the secret and checks expiry and issuer.
\<close>

definition enc_str :: "rust_string \<Rightarrow> nat list" where
  "enc_str s = length s # s"

definition enc_opt :: "rust_string option \<Rightarrow> nat list" where
  "enc_opt x = (case x of None \<Rightarrow> [0] | Some s \<Rightarrow> 1 # enc_str s)"

definition dec_str :: "nat list \<Rightarrow> (rust_string \<times> nat list) option" where
  "dec_str xs =
     (case xs of
        n # ys \<Rightarrow> if n \<le> length ys then Some (take n ys, drop n ys) else None | [] \<Rightarrow> None)"

definition dec_opt :: "nat list \<Rightarrow> (rust_string option \<times> nat list) option" where
  "dec_opt xs =
     (case xs of
        [] \<Rightarrow> None
      | k # ys \<Rightarrow> if k = 0 then Some (None, ys)
                  else map_option (\<lambda>(s, zs). (Some s, zs)) (dec_str ys))"

definition plain_token :: "rust_string \<Rightarrow> claims \<Rightarrow> rust_string" where
  "plain_token secret c =
     enc_str (cl_sub c) @ enc_opt (cl_tenant_id c) @ enc_opt (cl_iss c) @ unat (cl_exp c)
       # enc_str secret"

definition plain_claims :: "rust_string \<Rightarrow> (rust_string \<times> claims) option" where
  "plain_claims token =
     Option.bind (dec_str token) (\<lambda>(sub, r1).
     Option.bind (dec_opt r1) (\<lambda>(tenant, r2).
     Option.bind (dec_opt r2) (\<lambda>(iss, r3).
     case r3 of
       [] \<Rightarrow> None
     | e # r4 \<Rightarrow>
         Option.bind (dec_str r4) (\<lambda>(secret, r5).
         if r5 = [] then Some (secret, \<lparr>cl_sub = sub, cl_tenant_id = tenant, cl_exp = of_nat e, cl_iss = iss\<rparr>)
         else None))))"

definition plain_jwt :: "rust_string jwt_lib" where
  "plain_jwt =
     \<lparr>jwt_from_secret = (\<lambda>s. s),
      jwt_from_rsa_pem = Some, jwt_from_ec_pem = Some, jwt_from_ed_pem = Some,
      jwt_decode = (\<lambda>now token k va.
        case plain_claims token of
          None \<Rightarrow> Inl OtherErrorKind
        | Some (secret, c) \<Rightarrow>
            if secret \<noteq> k then Inl OtherErrorKind
            else if sint (cl_exp c) + jwt_leeway < int now then Inl ExpiredSignature
            else (case va_issuer va of
                    None \<Rightarrow> Inr c
                  | Some isss \<Rightarrow>
                      (case cl_iss c of
                         Some i \<Rightarrow> if i \<in> set isss then Inr c else Inl InvalidIssuer
                       | None \<Rightarrow> Inr c)))\<rparr>"

definition plain_enc :: "rust_string jwt_enc_lib" where
  "plain_enc = \<lparr>enc_from_secret = (\<lambda>s. s), jwt_encode = (\<lambda>algo c k. Some (plain_token k c))\<rparr>"

lemma dec_enc_str [simp]: "dec_str (enc_str s @ r) = Some (s, r)"
  by (simp add: dec_str_def enc_str_def)

lemma dec_enc_opt [simp]: "dec_opt (enc_opt x @ r) = Some (x, r)"
  by (cases x) (simp_all add: dec_opt_def enc_opt_def)

lemma plain_claims_token [simp]: "plain_claims (plain_token k c) = Some (k, c)"
  using dec_enc_str [of k "[]"] by (simp add: plain_claims_def plain_token_def)

interpretation plain_encoder: jwt_encoder plain_jwt plain_enc
  by unfold_locales (fastforce simp: plain_jwt_def plain_enc_def jwt_leeway_def split: option.split)

definition plain_signed :: "rust_string \<Rightarrow> rust_string \<Rightarrow> algorithm \<Rightarrow> claims \<Rightarrow> bool" where
  "plain_signed token k algo c \<longleftrightarrow> plain_claims token = Some (k, c)"

interpretation plain_decoder: jwt_decoder plain_jwt plain_signed
  by unfold_locales
     (auto simp: plain_jwt_def plain_signed_def split: option.splits if_splits prod.splits)

end
