(* ===== verification/Auth_Tests.thy ===== *)
theory Auth_Tests
  imports Mint_Token
begin

text \<open>
  The unit tests of \<open>src/auth.rs\<close>, as definitions that compute whether the test passes, for
  any implementation of \<open>jsonwebtoken\<close> and any clock readings. They pass under what the
  crate documents: \<open>jwt_crate\<close> adds to the laws of \<open>jwt_encoder\<close> which error a bad token gets.
  The tests' own \<open>now_plus\<close> is that of the minting tool.
\<close>

section \<open>The tests\<close>

definition auth_test_config :: config where
  "auth_test_config =
     \<lparr>cfg_bind_addr = \<lparr>sa_ip = IpV4 0, sa_port = 8080\<rparr>,
      cfg_max_connections = 1,
      cfg_client_queue_capacity = 1,
      cfg_topic_channel_capacity = 1,
      cfg_max_text_bytes = 1,
      cfg_max_messages_per_second = 1,
      cfg_message_burst = 1,
      cfg_idle_timeout = duration_from_secs 1,
      cfg_heartbeat_interval = duration_from_secs 1,
      cfg_json_logs = False,
      cfg_jwt_secret = None,
      cfg_jwt_public_key = None,
      cfg_jwt_issuer = None,
      cfg_ip_max_concurrent = None,
      cfg_ip_connection_rate = None,
      cfg_ip_rate_burst = None,
      cfg_trust_proxy_headers = False,
      cfg_tenant_max_connections = None,
      cfg_tenant_max_messages_per_second = None,
      cfg_tenant_message_burst = None\<rparr>"

definition test_claims :: "rust_string \<Rightarrow> rust_string option \<Rightarrow> int \<Rightarrow> rust_string option \<Rightarrow> claims" where
  \<comment> \<open>\<open>TestClaims\<close>, which serializes to what \<open>Claims\<close> is read from\<close>
  "test_claims sub tenant_id exp iss =
     \<lparr>cl_sub = sub, cl_tenant_id = tenant_id, cl_exp = of_int exp, cl_iss = iss\<rparr>"

definition sign :: "'e jwt_enc_lib \<Rightarrow> claims \<Rightarrow> rust_string \<Rightarrow> rust_string option" where
  "sign enc claims secret = jwt_encode enc HS256 claims (enc_from_secret enc secret)"

definition test_verifier :: "'k jwt_lib \<Rightarrow> rust_string \<Rightarrow> 'k auth_verifier option" where
  "test_verifier jwt secret =
     auth_verifier_from_config jwt
       (auth_test_config\<lparr>cfg_jwt_secret := Some secret, cfg_jwt_public_key := None, cfg_jwt_issuer := None\<rparr>)"

text \<open>The token is made at second \<open>now\<close> and verified at second \<open>later\<close>.\<close>

definition accepts_valid_token :: "'k jwt_lib \<Rightarrow> 'e jwt_enc_lib \<Rightarrow> nat \<Rightarrow> nat \<Rightarrow> bool" where
  "accepts_valid_token jwt enc now later =
     unwrap_and (test_verifier jwt (lit ''s3cret'')) (\<lambda>v.
     unwrap_and (now_plus now 3600) (\<lambda>exp.
     unwrap_and (sign enc (test_claims (lit ''alice'') (Some (lit ''t1'')) exp None) (lit ''s3cret'')) (\<lambda>token.
     case verify jwt later v token of
       Inr ident \<Rightarrow> ai_client_id ident = lit ''alice'' \<and> ai_tenant_id ident = lit ''t1''
     | Inl _ \<Rightarrow> False)))"

definition defaults_tenant_when_missing :: "'k jwt_lib \<Rightarrow> 'e jwt_enc_lib \<Rightarrow> nat \<Rightarrow> nat \<Rightarrow> bool" where
  "defaults_tenant_when_missing jwt enc now later =
     unwrap_and (test_verifier jwt (lit ''s3cret'')) (\<lambda>v.
     unwrap_and (now_plus now 3600) (\<lambda>exp.
     unwrap_and (sign enc (test_claims (lit ''bob'') None exp None) (lit ''s3cret'')) (\<lambda>token.
     case verify jwt later v token of
       Inr ident \<Rightarrow> ai_tenant_id ident = lit ''default''
     | Inl _ \<Rightarrow> False)))"

definition rejects_expired_token :: "'k jwt_lib \<Rightarrow> 'e jwt_enc_lib \<Rightarrow> nat \<Rightarrow> nat \<Rightarrow> bool" where
  "rejects_expired_token jwt enc now later =
     unwrap_and (test_verifier jwt (lit ''s3cret'')) (\<lambda>v.
     unwrap_and (now_plus now (-3600)) (\<lambda>exp.
     unwrap_and (sign enc (test_claims (lit ''alice'') None exp None) (lit ''s3cret'')) (\<lambda>token.
     verify jwt later v token = Inl Expired)))"

definition rejects_tampered_token :: "'k jwt_lib \<Rightarrow> 'e jwt_enc_lib \<Rightarrow> nat \<Rightarrow> nat \<Rightarrow> bool" where
  \<comment> \<open>the bytes of a token are its characters\<close>
  "rejects_tampered_token jwt enc now later =
     unwrap_and (test_verifier jwt (lit ''s3cret'')) (\<lambda>v.
     unwrap_and (now_plus now 3600) (\<lambda>exp.
     unwrap_and (sign enc (test_claims (lit ''alice'') None exp None) (lit ''s3cret'')) (\<lambda>token.
     if token = [] then False
     else (let last_index = length token - 1;
               c = token ! last_index;
               token = take last_index token @ (if c = of_char CHR ''a'' then lit ''b'' else lit ''a'')
           in verify jwt later v token = Inl Invalid))))"

definition rejects_wrong_secret :: "'k jwt_lib \<Rightarrow> 'e jwt_enc_lib \<Rightarrow> nat \<Rightarrow> nat \<Rightarrow> bool" where
  "rejects_wrong_secret jwt enc now later =
     unwrap_and (test_verifier jwt (lit ''s3cret'')) (\<lambda>v.
     unwrap_and (now_plus now 3600) (\<lambda>exp.
     unwrap_and (sign enc (test_claims (lit ''alice'') None exp None) (lit ''other-secret'')) (\<lambda>token.
     verify jwt later v token = Inl Invalid)))"

definition rejects_issuer_mismatch :: "'k jwt_lib \<Rightarrow> 'e jwt_enc_lib \<Rightarrow> nat \<Rightarrow> nat \<Rightarrow> bool" where
  "rejects_issuer_mismatch jwt enc now later =
     unwrap_and (auth_verifier_from_config jwt
         (auth_test_config\<lparr>cfg_jwt_secret := Some (lit ''s3cret''),
            cfg_jwt_issuer := Some (lit ''expected-iss'')\<rparr>)) (\<lambda>v.
     unwrap_and (now_plus now 3600) (\<lambda>exp.
     unwrap_and (sign enc (test_claims (lit ''alice'') None exp (Some (lit ''wrong-iss''))) (lit ''s3cret'')) (\<lambda>token.
     verify jwt later v token = Inl IssuerMismatch)))"

definition disabled_when_no_secret_configured :: "'k jwt_lib \<Rightarrow> bool" where
  "disabled_when_no_secret_configured jwt \<longleftrightarrow>
     auth_verifier_from_config jwt
       (auth_test_config\<lparr>cfg_jwt_secret := None, cfg_jwt_public_key := None\<rparr>) = None"

section \<open>What the crate documents of bad tokens\<close>

text \<open>
  \<open>encode\<close> succeeds on these claims. A token whose last character, part of the signature, was
  changed has a bad signature, as has one made with another key (keys of at most a block
  without null characters are different for the HMAC). With a good signature the expiry is
  checked before the issuer.
\<close>

locale jwt_crate = jwt_encoder jwt enc
  for jwt :: "'k jwt_lib" and enc :: "'e jwt_enc_lib" +
  assumes encode_total:
      "\<exists>token. jwt_encode enc HS256 c (enc_from_secret enc secret) = Some token \<and> token \<noteq> []"
    and decode_tampered:
      "jwt_encode enc HS256 c (enc_from_secret enc secret) = Some token \<Longrightarrow> va_algorithm va = HS256 \<Longrightarrow>
         x \<noteq> last token \<Longrightarrow>
         jwt_decode jwt now (butlast token @ [x]) (jwt_from_secret jwt secret) va = Inl OtherErrorKind"
    and decode_other_secret:
      "jwt_encode enc HS256 c (enc_from_secret enc secret') = Some token \<Longrightarrow> va_algorithm va = HS256 \<Longrightarrow>
         secret \<noteq> secret' \<Longrightarrow> 0 \<notin> set secret \<union> set secret' \<Longrightarrow>
         str_len secret \<le> 64 \<Longrightarrow> str_len secret' \<le> 64 \<Longrightarrow>
         jwt_decode jwt now token (jwt_from_secret jwt secret) va = Inl OtherErrorKind"
    and decode_expired:
      "jwt_encode enc HS256 c (enc_from_secret enc secret) = Some token \<Longrightarrow> va_algorithm va = HS256 \<Longrightarrow>
         va_validate_exp va \<Longrightarrow> sint (cl_exp c) + jwt_leeway < int now \<Longrightarrow>
         jwt_decode jwt now token (jwt_from_secret jwt secret) va = Inl ExpiredSignature"
    and decode_wrong_issuer:
      "jwt_encode enc HS256 c (enc_from_secret enc secret) = Some token \<Longrightarrow> va_algorithm va = HS256 \<Longrightarrow>
         int now \<le> sint (cl_exp c) \<Longrightarrow> va_issuer va = Some isss \<Longrightarrow> cl_iss c = Some i \<Longrightarrow> i \<notin> set isss \<Longrightarrow>
         jwt_decode jwt now token (jwt_from_secret jwt secret) va = Inl InvalidIssuer"

abbreviation "test_key jwt iss \<equiv> \<lparr>av_decoding = Hmac (jwt_from_secret jwt (lit ''s3cret'')), av_issuer = iss\<rparr>"

lemma test_verifier_eq: "test_verifier jwt (lit ''s3cret'') = Some (test_key jwt None)"
  by (simp add: test_verifier_def auth_verifier_from_config_def auth_test_config_def)

lemma sint_of_int_id: "- (2 ^ 63) \<le> k \<Longrightarrow> k < 2 ^ 63 \<Longrightarrow> sint (of_int k :: u64) = k"
  by transfer (simp add: signed_take_bit_int_eq_self)

lemma now_plus_eq:
  assumes "int now + secs < 2 ^ 63" "0 \<le> int now + secs" "now < 2 ^ 63"
  shows "now_plus now secs = Some (int now + secs)"
  using assms sint_of_int_id [of "int now"] by (simp add: now_plus_def)

text \<open>The claims of a test, with the expiry the signed token carries.\<close>

lemma test_claims_exp:
  "- (2 ^ 63) \<le> e \<Longrightarrow> e < 2 ^ 63 \<Longrightarrow> sint (cl_exp (test_claims sub t e iss)) = e"
  "cl_sub (test_claims sub t e iss) = sub" "cl_tenant_id (test_claims sub t e iss) = t"
  "cl_iss (test_claims sub t e iss) = iss"
  by (simp_all add: test_claims_def sint_of_int_id)

lemma test_validation:
  "va_algorithm (verifier_validation (test_key jwt iss)) = HS256"
  "va_validate_exp (verifier_validation (test_key jwt iss))"
  "va_issuer (verifier_validation (test_key jwt iss)) = map_option (\<lambda>i. [i]) iss"
  by (simp_all add: verifier_validation_def split: option.split)

lemmas test_simps =
  test_verifier_eq verify_def decoding_key_def test_claims_exp unwrap_and_def sign_def Let_def

context jwt_crate
begin

lemma signed:
  obtains token where "jwt_encode enc HS256 c (enc_from_secret enc secret) = Some token" "token \<noteq> []"
  using encode_total by blast

lemma decodes:
  assumes "jwt_encode enc HS256 c (enc_from_secret enc (lit ''s3cret'')) = Some token" "int later \<le> sint (cl_exp c)"
  shows "jwt_decode jwt later token (jwt_from_secret jwt (lit ''s3cret'')) (verifier_validation (test_key jwt None)) = Inr c"
  using assms by (intro decode_encode) (simp_all add: test_validation)

lemma accepts_valid_token_passes:
  assumes "now + 3600 < 2 ^ 63" "later \<le> now + 3600"
  shows "accepts_valid_token jwt enc now later"
proof -
  let ?c = "test_claims (lit ''alice'') (Some (lit ''t1'')) (int now + 3600) None"
  obtain token where enc: "jwt_encode enc HS256 ?c (enc_from_secret enc (lit ''s3cret'')) = Some token"
    by (rule signed)
  with decodes [OF enc, of later] assms show ?thesis
    by (simp add: accepts_valid_token_def now_plus_eq test_simps)
qed

lemma defaults_tenant_when_missing_passes:
  assumes "now + 3600 < 2 ^ 63" "later \<le> now + 3600"
  shows "defaults_tenant_when_missing jwt enc now later"
proof -
  let ?c = "test_claims (lit ''bob'') None (int now + 3600) None"
  obtain token where enc: "jwt_encode enc HS256 ?c (enc_from_secret enc (lit ''s3cret'')) = Some token"
    by (rule signed)
  with decodes [OF enc, of later] assms show ?thesis
    by (simp add: defaults_tenant_when_missing_def now_plus_eq test_simps)
qed

lemma rejects_expired_token_passes:
  assumes "3600 \<le> now" "now < 2 ^ 63" "now \<le> later"
  shows "rejects_expired_token jwt enc now later"
proof -
  let ?c = "test_claims (lit ''alice'') None (int now + (-3600)) None"
  obtain token where enc: "jwt_encode enc HS256 ?c (enc_from_secret enc (lit ''s3cret'')) = Some token"
    by (rule signed)
  have "jwt_decode jwt later token (jwt_from_secret jwt (lit ''s3cret''))
      (verifier_validation (test_key jwt None)) = Inl ExpiredSignature"
    by (rule decode_expired [OF enc]) (use assms in \<open>simp_all add: test_validation test_claims_exp jwt_leeway_def\<close>)
  with enc assms show ?thesis by (simp add: rejects_expired_token_def now_plus_eq test_simps)
qed

lemma rejects_tampered_token_passes:
  assumes "now + 3600 < 2 ^ 63"
  shows "rejects_tampered_token jwt enc now later"
proof -
  let ?c = "test_claims (lit ''alice'') None (int now + 3600) None"
  obtain token where enc: "jwt_encode enc HS256 ?c (enc_from_secret enc (lit ''s3cret'')) = Some token"
    and token: "token \<noteq> []" by (rule signed)
  define x :: rust_char where "x = (if last token = of_char CHR ''a'' then of_char CHR ''b'' else of_char CHR ''a'')"
  have "x \<noteq> last token" by (simp add: x_def)
  then have "jwt_decode jwt later (butlast token @ [x]) (jwt_from_secret jwt (lit ''s3cret''))
      (verifier_validation (test_key jwt None)) = Inl OtherErrorKind"
    by (intro decode_tampered [OF enc]) (simp_all add: test_validation)
  moreover have "(if last token = of_char CHR ''a'' then lit ''b'' else lit ''a'') = [x]"
    by (simp add: x_def lit_def)
  ultimately show ?thesis using enc token assms
    by (simp add: rejects_tampered_token_def now_plus_eq test_simps butlast_conv_take last_conv_nth)
qed

lemma rejects_wrong_secret_passes:
  assumes "now + 3600 < 2 ^ 63"
  shows "rejects_wrong_secret jwt enc now later"
proof -
  let ?c = "test_claims (lit ''alice'') None (int now + 3600) None"
  obtain token where enc: "jwt_encode enc HS256 ?c (enc_from_secret enc (lit ''other-secret'')) = Some token"
    by (rule signed)
  have "jwt_decode jwt later token (jwt_from_secret jwt (lit ''s3cret''))
      (verifier_validation (test_key jwt None)) = Inl OtherErrorKind"
    by (rule decode_other_secret [OF enc]) (simp add: test_validation, simp_all add: lit_def str_len_def utf8_width_def)
  with enc assms show ?thesis by (simp add: rejects_wrong_secret_def now_plus_eq test_simps)
qed

lemma rejects_issuer_mismatch_passes:
  assumes "now + 3600 < 2 ^ 63" "later \<le> now + 3600"
  shows "rejects_issuer_mismatch jwt enc now later"
proof -
  let ?c = "test_claims (lit ''alice'') None (int now + 3600) (Some (lit ''wrong-iss''))"
  obtain token where enc: "jwt_encode enc HS256 ?c (enc_from_secret enc (lit ''s3cret'')) = Some token"
    by (rule signed)
  have "jwt_decode jwt later token (jwt_from_secret jwt (lit ''s3cret''))
      (verifier_validation (test_key jwt (Some (lit ''expected-iss'')))) = Inl InvalidIssuer"
    by (rule decode_wrong_issuer [OF enc])
       (use assms in \<open>simp_all add: test_validation test_claims_exp, simp add: lit_def\<close>)
  moreover have "auth_verifier_from_config jwt (auth_test_config\<lparr>cfg_jwt_secret := Some (lit ''s3cret''),
      cfg_jwt_issuer := Some (lit ''expected-iss'')\<rparr>) = Some (test_key jwt (Some (lit ''expected-iss'')))"
    by (simp add: auth_verifier_from_config_def)
  ultimately show ?thesis using enc assms
    by (simp add: rejects_issuer_mismatch_def now_plus_eq test_simps)
qed

end

lemma disabled_when_no_secret_configured_passes: "disabled_when_no_secret_configured jwt"
  by (simp add: disabled_when_no_secret_configured_def auth_verifier_from_config_def)

section \<open>The instance\<close>

lemma plain_claims_other:
  assumes "x \<noteq> last (plain_token k c)" "plain_claims (butlast (plain_token k c) @ [x]) = Some (k', c')"
  shows "k' \<noteq> k"
proof (cases k rule: rev_cases)
  case Nil
  with assms show ?thesis
    by (auto simp: plain_token_def plain_claims_def enc_str_def dec_str_def butlast_append split: if_splits)
next
  case (snoc ks y)
  with assms(1) have x: "x \<noteq> y" by (simp add: plain_token_def enc_str_def)
  have "butlast (plain_token k c) @ [x] = plain_token (ks @ [x]) c"
    by (simp add: snoc plain_token_def enc_str_def butlast_append)
  with assms(2) x snoc show ?thesis by auto
qed

interpretation plain_crate: jwt_crate plain_jwt plain_enc
proof
  fix c k k' token token' va x now isss i
  assume enc: "jwt_encode plain_enc HS256 c (enc_from_secret plain_enc k) = Some token"
  then have token: "token = plain_token k c" by (simp add: plain_enc_def)
  show "jwt_decode plain_jwt now (butlast token @ [x]) (jwt_from_secret plain_jwt k) va = Inl OtherErrorKind"
    if "x \<noteq> last token"
    using plain_claims_other [of x k c] that token by (auto simp: plain_jwt_def split: option.splits)
  show "jwt_decode plain_jwt now token (jwt_from_secret plain_jwt k) va = Inl ExpiredSignature"
    if "sint (cl_exp c) + jwt_leeway < int now"
    using that token by (simp add: plain_jwt_def)
  show "jwt_decode plain_jwt now token (jwt_from_secret plain_jwt k') va = Inl OtherErrorKind" if "k' \<noteq> k"
    using that token by (simp add: plain_jwt_def)
  show "jwt_decode plain_jwt now token (jwt_from_secret plain_jwt k) va = Inl InvalidIssuer"
    if "int now \<le> sint (cl_exp c)" "va_issuer va = Some isss" "cl_iss c = Some i" "i \<notin> set isss"
    using that token by (simp add: plain_jwt_def jwt_leeway_def)
qed (simp add: plain_enc_def plain_token_def enc_str_def)

end
