(* ===== verification/Ip_Limiter_Tests.thy ===== *)
theory Ip_Limiter_Tests
  imports Ip_Limiter
begin

text \<open>
  The unit tests of \<open>src/ip_limiter.rs\<close>, as definitions that compute whether the test passes
  for the given clock readings and iteration orders of the map. They pass for all of them,
  the two tests of the rate within the bounds they rely on: the calls of \<open>enforces_rate_cap\<close>
  come within half a second, those of \<open>rate_refills_over_time\<close> at least 50 ms apart.
\<close>

section \<open>The tests\<close>

definition limiter_test_config :: "usize option \<Rightarrow> u32 option \<Rightarrow> u32 option \<Rightarrow> config" where
  "limiter_test_config max_concurrent rate burst =
     \<lparr>cfg_bind_addr = \<lparr>sa_ip = IpV4 0, sa_port = 8080\<rparr>,
      cfg_max_connections = 100,
      cfg_client_queue_capacity = 16,
      cfg_topic_channel_capacity = 32,
      cfg_max_text_bytes = 64 * 1024,
      cfg_max_messages_per_second = 100,
      cfg_message_burst = 200,
      cfg_idle_timeout = duration_from_secs 5,
      cfg_heartbeat_interval = duration_from_secs 60,
      cfg_json_logs = False,
      cfg_jwt_secret = None,
      cfg_jwt_public_key = None,
      cfg_jwt_issuer = None,
      cfg_ip_max_concurrent = max_concurrent,
      cfg_ip_connection_rate = rate,
      cfg_ip_rate_burst = burst,
      cfg_trust_proxy_headers = False,
      cfg_tenant_max_connections = None,
      cfg_tenant_max_messages_per_second = None,
      cfg_tenant_message_burst = None\<rparr>"

definition localhost :: ip_addr where
  \<comment> \<open>127.0.0.1\<close>
  "localhost = IpV4 0x7F000001"

text \<open>The order of the keys and the clock of the two calls of \<open>try_acquire\<close> are arguments.\<close>

type_synonym call_env = "ip_addr list \<times> clock"

definition enforces_concurrency_cap :: "call_env \<Rightarrow> call_env \<Rightarrow> bool" where
  "enforces_concurrency_cap c1 c2 =
     unwrap_and (ip_limiter_from_config (limiter_test_config (Some 1) None None)) (\<lambda>limiter.
     case try_acquire (fst c1) (snd c1) limiter localhost of
       (Inl _, _) \<Rightarrow> False
     | (Inr p1, limiter) \<Rightarrow>
         fst (try_acquire (fst c2) (snd c2) limiter localhost) = Inl ConcurrencyLimited)"

definition permit_release_allows_reentry :: "call_env \<Rightarrow> instant \<Rightarrow> call_env \<Rightarrow> bool" where
  "permit_release_allows_reentry c1 dropped c2 =
     unwrap_and (ip_limiter_from_config (limiter_test_config (Some 1) None None)) (\<lambda>limiter.
     case try_acquire (fst c1) (snd c1) limiter localhost of
       (Inl _, _) \<Rightarrow> False
     | (Inr p, limiter) \<Rightarrow>
         (case try_acquire (fst c2) (snd c2) (drop_ip_permit dropped p limiter) localhost of
            (Inl _, _) \<Rightarrow> False
          | (Inr p2, _) \<Rightarrow> True))"

definition enforces_rate_cap :: "call_env \<Rightarrow> call_env \<Rightarrow> bool" where
  "enforces_rate_cap c1 c2 =
     unwrap_and (ip_limiter_from_config (limiter_test_config None (Some 1) (Some 1))) (\<lambda>limiter.
     case try_acquire (fst c1) (snd c1) limiter localhost of
       (Inl _, _) \<Rightarrow> False
     | (Inr first, limiter) \<Rightarrow>
         fst (try_acquire (fst c2) (snd c2) limiter localhost) = Inl RateLimited)"

definition none_when_unconfigured :: bool where
  "none_when_unconfigured \<longleftrightarrow> ip_limiter_from_config (limiter_test_config None None None) = None"

definition independent_ips_are_independent :: "call_env \<Rightarrow> call_env \<Rightarrow> bool" where
  "independent_ips_are_independent c1 c2 =
     unwrap_and (ip_limiter_from_config (limiter_test_config (Some 1) None None)) (\<lambda>limiter.
     let ip1 = IpV4 0x0A000001; ip2 = IpV4 0x0A000002
     in case try_acquire (fst c1) (snd c1) limiter ip1 of
          (Inl _, _) \<Rightarrow> False
        | (Inr p1, limiter) \<Rightarrow>
            (case try_acquire (fst c2) (snd c2) limiter ip2 of
               (Inl _, _) \<Rightarrow> False
             | (Inr p2, _) \<Rightarrow> True))"

definition rate_refills_over_time :: "call_env \<Rightarrow> call_env \<Rightarrow> bool" where
  \<comment> \<open>the \<open>sleep\<close> is between the clocks of the two calls\<close>
  "rate_refills_over_time c1 c2 =
     unwrap_and (ip_limiter_from_config (limiter_test_config None (Some 100) (Some 1))) (\<lambda>limiter.
     case try_acquire (fst c1) (snd c1) limiter localhost of
       (Inl _, _) \<Rightarrow> False
     | (Inr first, limiter) \<Rightarrow>
         (case try_acquire (fst c2) (snd c2) limiter localhost of
            (Inl _, _) \<Rightarrow> False
          | (Inr second, _) \<Rightarrow> True))"

section \<open>They pass\<close>

text \<open>Without a rate the answer depends on the number of connections of the address alone.\<close>

lemma try_acquire_by_count:
  assumes "\<not> il_rate_configured l" "il_max_concurrent l = Some cap"
  shows "fst (try_acquire keys clk l ip) =
           (if ip_in_use l ip < unat cap then Inr \<lparr>ip_permit_ip = Some ip\<rparr> else Inl ConcurrencyLimited)"
proof -
  have "unat (is_concurrent (ip_entry clk (reap_idle keys (clk 0) l) ip)) = ip_in_use l ip"
    by (simp add: ip_entry_in_use effect_simps)
  then show ?thesis using assms
    by (auto simp: try_acquire_def Let_def frame_simps word_le_nat_alt)
qed

text \<open>The limiter with a cap of one connection, before and after its first call.\<close>

definition one_each :: ip_limiter where
  "one_each = \<lparr>il_max_concurrent = Some 1, il_rate_configured = False, il_refill_per_second = 1,
     il_burst = 1, il_states = Map.empty\<rparr>"

lemma one_each_config: "ip_limiter_from_config (limiter_test_config (Some 1) None None) = Some one_each"
  by (simp add: ip_limiter_from_config_def limiter_test_config_def one_each_def Let_def unsigned_ucast_eq)

lemma one_each_first:
  obtains l where "try_acquire keys clk one_each ip = (Inr \<lparr>ip_permit_ip = Some ip\<rparr>, l)"
    "ip_in_use l = (\<lambda>_. 0)(ip := 1)" "\<not> il_rate_configured l" "il_max_concurrent l = Some 1"
proof -
  have use: "ip_in_use one_each = (\<lambda>_. 0)" by (simp add: one_each_def ip_in_use_def fun_eq_iff)
  have "fst (try_acquire keys clk one_each ip) = Inr \<lparr>ip_permit_ip = Some ip\<rparr>"
    by (subst try_acquire_by_count [of _ 1]) (simp_all add: use, simp_all add: one_each_def)
  then obtain l where acq: "try_acquire keys clk one_each ip = (Inr \<lparr>ip_permit_ip = Some ip\<rparr>, l)"
    by (cases "try_acquire keys clk one_each ip") simp
  with try_acquire_admits_in_use(1) [OF acq] try_acquire_frame(1,2) [OF acq] that use show thesis
    by (simp add: one_each_def)
qed

lemma enforces_concurrency_cap_passes: "enforces_concurrency_cap c1 c2"
proof -
  obtain l where "try_acquire (fst c1) (snd c1) one_each localhost = (Inr \<lparr>ip_permit_ip = Some localhost\<rparr>, l)"
    "ip_in_use l = (\<lambda>_. 0)(localhost := 1)" "\<not> il_rate_configured l" "il_max_concurrent l = Some 1"
    by (rule one_each_first)
  with try_acquire_by_count [of l 1 "fst c2" "snd c2" localhost] show ?thesis
    by (simp add: enforces_concurrency_cap_def unwrap_and_def one_each_config)
qed

lemma permit_release_allows_reentry_passes: "permit_release_allows_reentry c1 dropped c2"
proof -
  obtain l where first: "try_acquire (fst c1) (snd c1) one_each localhost = (Inr \<lparr>ip_permit_ip = Some localhost\<rparr>, l)"
    and l: "ip_in_use l = (\<lambda>_. 0)(localhost := 1)" "\<not> il_rate_configured l" "il_max_concurrent l = Some 1"
    by (rule one_each_first)
  let ?l = "ip_release dropped l localhost"
  have "fst (try_acquire (fst c2) (snd c2) ?l localhost) = Inr \<lparr>ip_permit_ip = Some localhost\<rparr>"
    using try_acquire_by_count [of ?l 1 "fst c2" "snd c2" localhost] l
    by (simp add: frame_simps ip_release_in_use)
  with first show ?thesis
    by (cases "try_acquire (fst c2) (snd c2) ?l localhost")
       (simp add: permit_release_allows_reentry_def unwrap_and_def one_each_config drop_ip_permit_def)
qed

lemma none_when_unconfigured_passes: none_when_unconfigured
  by (simp add: none_when_unconfigured_def ip_limiter_from_config_def limiter_test_config_def)

lemma independent_ips_are_independent_passes: "independent_ips_are_independent c1 c2"
proof -
  obtain l where first: "try_acquire (fst c1) (snd c1) one_each (IpV4 0x0A000001)
        = (Inr \<lparr>ip_permit_ip = Some (IpV4 0x0A000001)\<rparr>, l)"
    and l: "ip_in_use l = (\<lambda>_. 0)(IpV4 0x0A000001 := 1)" "\<not> il_rate_configured l" "il_max_concurrent l = Some 1"
    by (rule one_each_first)
  have "fst (try_acquire (fst c2) (snd c2) l (IpV4 0x0A000002)) = Inr \<lparr>ip_permit_ip = Some (IpV4 0x0A000002)\<rparr>"
    using try_acquire_by_count [of l 1 "fst c2" "snd c2" "IpV4 0x0A000002"] l by simp
  with first show ?thesis
    by (cases "try_acquire (fst c2) (snd c2) l (IpV4 0x0A000002)")
       (simp add: independent_ips_are_independent_def unwrap_and_def one_each_config)
qed

text \<open>
  With a rate and a burst of one the second call is decided by the bucket, which the first
  call left empty.
\<close>

definition one_token :: "nat \<Rightarrow> ip_limiter" where
  "one_token rate = \<lparr>il_max_concurrent = None, il_rate_configured = True,
     il_refill_per_second = of_nat rate, il_burst = 1, il_states = Map.empty\<rparr>"

lemma reap_idle_active:
  "il_states l k = Some st \<Longrightarrow> is_concurrent st \<noteq> 0 \<Longrightarrow> il_states (reap_idle keys now l) k = Some st"
  by (rule reap_idle_cases [of keys now l k]) (auto simp: idle_expired_def)

lemma one_token_first:
  assumes "try_consume (clk 3) (token_bucket_new (of_nat rate) 1 (clk 1)) = (True, b)"
  obtains l st where "try_acquire keys clk (one_token rate) ip = (Inr \<lparr>ip_permit_ip = Some ip\<rparr>, l)"
    "il_states l ip = Some st" "is_concurrent st = 1" "is_bucket st = b"
proof -
  let ?r = "try_acquire keys clk (one_token rate) ip"
  have "il_states (reap_idle keys (clk 0) (one_token rate)) ip = None"
    by (rule reap_idle_cases [of keys "clk 0" "one_token rate" ip]) (simp_all add: one_token_def)
  with assms have "fst ?r = Inr \<lparr>ip_permit_ip = Some ip\<rparr> \<and>
      (\<exists>st. il_states (snd ?r) ip = Some st \<and> is_concurrent st = 1 \<and> is_bucket st = b)"
    by (auto simp: try_acquire_def ip_entry_def one_token_def Let_def frame_simps effect_simps)
  then show thesis by (cases ?r) (auto intro: that)
qed

lemma try_acquire_again:
  assumes "il_states l ip = Some st" "is_concurrent st \<noteq> 0" "il_rate_configured l" "il_max_concurrent l = None"
  shows "fst (try_acquire keys clk l ip) =
           (if fst (try_consume (clk 3) (is_bucket st)) then Inr \<lparr>ip_permit_ip = Some ip\<rparr> else Inl RateLimited)"
  using reap_idle_active [OF assms(1,2), of keys "clk 0"] assms(3,4)
  by (auto simp: try_acquire_def ip_entry_def Let_def frame_simps split: prod.split)

lemma gate_step_full:
  assumes "0 \<le> rate"
  shows "gate_step 1 1 rate d = (True, 0)"
proof -
  have "1 \<le> f64_add 1 (f64_mul (as_secs_f64 d) rate)"
    using assms unfolding f64_add_def f64_mul_def
    by (intro f64.rnd_ge_one) (simp add: f64.rnd_nonneg)
  then have "refilled 1 1 rate d = 1" by (simp add: refilled_def)
  then show ?thesis by (simp add: gate_step_def f64_sub_def)
qed

lemma gate_step_half_second:
  assumes "2 * d \<le> nanos_per_sec"
  shows "fst (gate_step 1 0 1 d) = False"
proof -
  have "of_nat d / 1000000000 \<le> (1 / 2 :: rat)"
    using assms by (simp add: nanos_per_sec_def divide_le_eq)
  then have "of_nat d / 1000000000 * 1 * (1 + 1 / 2 ^ 53) ^ 4 \<le> 1 / 2 * 1 * (1 + 1 / 2 ^ 53 :: rat) ^ 4"
    by (intro mult_right_mono) simp_all
  moreover have "refilled 1 0 1 d \<le> 0 + of_nat d / 1000000000 * 1 * (1 + 1 / 2 ^ 53) ^ 4 + 1 / 2 ^ 53"
    by (rule refilled_le) simp_all
  ultimately have "refilled 1 0 1 d \<le> 0 + 1 / 2 * 1 * (1 + 1 / 2 ^ 53) ^ 4 + 1 / 2 ^ 53"
    by (meson add_left_mono add_right_mono order_trans)
  also have "\<dots> < 1" by (simp add: power4_eq_xxxx)
  finally show ?thesis by (simp add: gate_step_def)
qed

text \<open>50 ms at 100 per second are five tokens, before rounding.\<close>

lemma f64_round_ge: "0 \<le> x \<Longrightarrow> x * (1 - 1 / 2 ^ 53) \<le> f64_round x"
  using f64_round_error [of x] abs_ge_minus_self [of "f64_round x - x"] by (simp add: algebra_simps)

lemma as_secs_f64_twentieth:
  assumes "nanos_per_sec \<le> 20 * d"
  shows "1 / 40 \<le> as_secs_f64 d"
proof (cases "d < nanos_per_sec")
  case True
  then have small: "d < 2 ^ 53" by (simp add: nanos_per_sec_def)
  let ?x = "of_nat d / 1000000000 :: rat"
  have "(of_nat nanos_per_sec :: rat) \<le> of_nat (20 * d)" using assms by (simp only: of_nat_le_iff)
  then have x: "1 / 20 \<le> ?x" by (simp add: nanos_per_sec_def field_simps)
  then have "1 / 20 * (1 - 1 / 2 ^ 53) \<le> ?x * (1 - 1 / 2 ^ 53)" by (intro mult_right_mono) simp_all
  also have "\<dots> \<le> f64_round ?x" using x by (intro f64_round_ge) simp
  finally have y: "1 / 30 \<le> f64_round ?x" by simp
  then have "1 / 30 * (1 - 1 / 2 ^ 53) \<le> f64_round ?x * (1 - 1 / 2 ^ 53)" by (intro mult_right_mono) simp_all
  also have "\<dots> \<le> f64_round (f64_round ?x)" using y by (intro f64_round_ge) simp
  finally have "1 / 40 \<le> f64_round (f64_round ?x)" by simp
  with True small show ?thesis
    by (simp add: as_secs_f64_def f64_add_def f64_div_def)
next
  case False
  then show ?thesis using as_secs_f64_ge_one [of d] by simp
qed

lemma gate_step_sleep:
  assumes "nanos_per_sec \<le> 20 * d"
  shows "fst (gate_step 1 0 100 d) = True"
proof -
  have "1 \<le> as_secs_f64 d * 100" using as_secs_f64_twentieth [OF assms] by simp
  then have "1 \<le> f64_mul (as_secs_f64 d) 100" by (simp add: f64_mul_def f64.rnd_ge_one)
  then have "1 \<le> f64_add 0 (f64_mul (as_secs_f64 d) 100)" by (simp add: f64_add_def f64.rnd_ge_one)
  then have "1 \<le> refilled 1 0 100 d" by (simp add: refilled_def)
  then show ?thesis by (simp add: gate_step_def)
qed

lemma one_token_second:
  assumes "1 \<le> rate"
  obtains l where "try_acquire keys clk (one_token rate) ip = (Inr \<lparr>ip_permit_ip = Some ip\<rparr>, l)"
    "\<And>keys' clk'. fst (try_acquire keys' clk' l ip) =
       (if fst (gate_step 1 0 (of_nat rate) (duration_since (clk' 3) (clk 3)))
        then Inr \<lparr>ip_permit_ip = Some ip\<rparr> else Inl RateLimited)"
proof -
  let ?b = "token_bucket_new (of_nat rate) 1 (clk 1)"
  have rate: "(1 :: rat) \<le> of_nat rate" using assms by simp
  obtain ok b where consume: "try_consume (clk 3) ?b = (ok, b)" by (rule prod.exhaust)
  note gate = try_consume_gate [OF consume]
  from rate have max: "max (of_nat rate) 1 = (of_nat rate :: rat)" by (rule max_absorb1)
  from gate(1) gate_step_full [of "of_nat rate"] rate have ok: "ok" and tokens: "tb_tokens b = 0"
    by (simp_all add: max)
  obtain l st where acq: "try_acquire keys clk (one_token rate) ip = (Inr \<lparr>ip_permit_ip = Some ip\<rparr>, l)"
    and st: "il_states l ip = Some st" "is_concurrent st = 1" "is_bucket st = b"
    by (rule one_token_first [of clk rate b keys ip]) (use consume ok in simp_all)
  note frame = try_acquire_frame [OF acq]
  have "fst (try_acquire keys' clk' l ip) =
       (if fst (gate_step 1 0 (of_nat rate) (duration_since (clk' 3) (clk 3)))
        then Inr \<lparr>ip_permit_ip = Some ip\<rparr> else Inl RateLimited)" for keys' clk'
  proof -
    obtain ok' b' where consume': "try_consume (clk' 3) b = (ok', b')" by (rule prod.exhaust)
    from try_consume_gate(1) [OF consume'] gate(2-4) tokens
    have "fst (gate_step 1 0 (of_nat rate) (duration_since (clk' 3) (clk 3))) = ok'" by (simp add: max)
    with try_acquire_again [OF st(1), of keys' clk'] st(2,3) consume' frame show ?thesis
      by (simp add: one_token_def)
  qed
  with acq show thesis by (rule that)
qed

lemma one_token_config:
  "ip_limiter_from_config (limiter_test_config None (Some rate) (Some 1)) = Some (one_token (unat rate))"
  by (simp add: ip_limiter_from_config_def limiter_test_config_def one_token_def Let_def)

lemma enforces_rate_cap_passes:
  assumes "2 * duration_since (snd c2 3) (snd c1 3) \<le> nanos_per_sec"
  shows "enforces_rate_cap c1 c2"
proof -
  obtain l where "try_acquire (fst c1) (snd c1) (one_token 1) localhost = (Inr \<lparr>ip_permit_ip = Some localhost\<rparr>, l)"
    "fst (try_acquire (fst c2) (snd c2) l localhost) =
       (if fst (gate_step 1 0 (of_nat 1) (duration_since (snd c2 3) (snd c1 3)))
        then Inr \<lparr>ip_permit_ip = Some localhost\<rparr> else Inl RateLimited)"
    by (rule one_token_second [of 1 "fst c1" "snd c1" localhost]) auto
  with gate_step_half_second [OF assms] show ?thesis
    by (simp add: enforces_rate_cap_def unwrap_and_def one_token_config)
qed

lemma rate_refills_over_time_passes:
  assumes "nanos_per_sec \<le> 20 * duration_since (snd c2 3) (snd c1 3)"
  shows "rate_refills_over_time c1 c2"
proof -
  obtain l where first: "try_acquire (fst c1) (snd c1) (one_token 100) localhost
      = (Inr \<lparr>ip_permit_ip = Some localhost\<rparr>, l)"
    and second: "fst (try_acquire (fst c2) (snd c2) l localhost) =
       (if fst (gate_step 1 0 (of_nat 100) (duration_since (snd c2 3) (snd c1 3)))
        then Inr \<lparr>ip_permit_ip = Some localhost\<rparr> else Inl RateLimited)"
    by (rule one_token_second [of 100 "fst c1" "snd c1" localhost]) auto
  have "fst (try_acquire (fst c2) (snd c2) l localhost) = Inr \<lparr>ip_permit_ip = Some localhost\<rparr>"
    using second gate_step_sleep [OF assms] by simp
  with first show ?thesis
    by (cases "try_acquire (fst c2) (snd c2) l localhost")
       (simp add: rate_refills_over_time_def unwrap_and_def one_token_config)
qed

end
