(* ===== verification/State_Tests.thy ===== *)
theory State_Tests
  imports Opening
begin

text \<open>
  The unit tests of \<open>src/state.rs\<close>, as definitions that compute whether the test passes, for
  any implementation of tokio. They pass under the laws of \<open>bounded_queue\<close>; beyond what they
  assert, each message is in the queue it was sent to and in no other.
\<close>

definition state_test_config :: config where
  "state_test_config =
     \<lparr>cfg_bind_addr = \<lparr>sa_ip = IpV4 0, sa_port = 0\<rparr>,
      cfg_max_connections = 10,
      cfg_client_queue_capacity = 16,
      cfg_topic_channel_capacity = 32,
      cfg_max_text_bytes = 64 * 1024,
      cfg_max_messages_per_second = 100,
      cfg_message_burst = 200,
      cfg_idle_timeout = duration_from_secs 5,
      cfg_heartbeat_interval = duration_from_secs 60,
      cfg_json_logs = False,
      cfg_jwt_secret = None,
      cfg_jwt_public_key = None,
      cfg_jwt_issuer = None,
      cfg_ip_max_concurrent = None,
      cfg_ip_connection_rate = None,
      cfg_ip_rate_burst = None,
      cfg_trust_proxy_headers = False,
      cfg_tenant_max_connections = None,
      cfg_tenant_max_messages_per_second = None,
      cfg_tenant_message_burst = None\<rparr>"

text \<open>The channels of the tests have 16 places, which is the configured capacity of a queue.\<close>

definition direct_message_is_scoped_to_tenant :: "('s, 'b, 'q, 'k, 'v) env \<Rightarrow> bool" where
  "direct_message_is_scoped_to_tenant E =
     (let state = app_state_new E state_test_config;
          (tx_a, state) = new_channel E state;
          (tx_b, state) = new_channel E state;
          state = register_client (lit ''alice'') (lit ''t1'') 1 tx_a state;
          state = register_client (lit ''alice'') (lit ''t2'') 2 tx_b state;
          (sent1, state) = send_to_client E (lit ''alice'') (lit ''t1'') [120] state;
          (sent2, state) = send_to_client E (lit ''alice'') (lit ''t2'') [121] state
      in sent1 \<and> sent2)"

definition cross_tenant_direct_returns_false :: "('s, 'b, 'q, 'k, 'v) env \<Rightarrow> bool" where
  "cross_tenant_direct_returns_false E =
     (let state = app_state_new E state_test_config;
          (tx, state) = new_channel E state;
          state = register_client (lit ''bob'') (lit ''t1'') 1 tx state;
          payload = [121]
      in \<not> fst (send_to_client E (lit ''bob'') (lit ''t2'') payload state))"

definition tenant_topic_prefixes_namespace :: bool where
  "tenant_topic_prefixes_namespace \<longleftrightarrow>
     tenant_topic (lit ''t1'') (lit ''room-a'') = lit ''t1:room-a''
     \<and> tenant_topic (lit ''default'') (lit ''room-a'') = lit ''default:room-a''
     \<and> tenant_topic (lit ''t1'') (lit ''room-a'') \<noteq> tenant_topic (lit ''t2'') (lit ''room-a'')"

text \<open>The state before the first message is sent.\<close>

lemma other_tenant: "lit ''t1'' \<noteq> lit ''t2''"
  by (simp add: lit_def)

context server_env
begin

lemma scoped_sends:
  assumes reg: "st_clients st (t1, c) = Some \<lparr>ch_connection_id = i1, ch_sender = a1\<rparr>"
      "st_clients st (t2, c) = Some \<lparr>ch_connection_id = i2, ch_sender = a2\<rparr>" "a1 \<noteq> a2"
    and room: "room st a1 1" "room st a2 1" and empty: "queues st a1 = []" "queues st a2 = []"
  obtains st1 st2 where "send_to_client E c t1 m1 st = (True, st1)" "send_to_client E c t2 m2 st1 = (True, st2)"
    "queues st2 a1 = [OutBinary m1]" "queues st2 a2 = [OutBinary m2]"
proof -
  obtain q1 q2 where q: "st_chans st a1 = Some q1" "\<not> qclosed q1" "length (queued q1) < qcap q1"
      "st_chans st a2 = Some q2" "\<not> qclosed q2" "length (queued q2) < qcap q2"
    using room by (auto simp: has_room_def split: option.splits)
  obtain st1 q1' where s1: "chan_try_send E a1 (OutBinary m1) st = Inr st1" "st_chans st1 a1 = Some q1'"
      "queued q1' = queued q1 @ [OutBinary m1]"
    using q(1-3) by (rule send_room)
  have other: "st_chans st1 a2 = Some q2" and clients: "st_clients st1 = st_clients st"
    using s1(1) q(4) reg(3) by (auto elim!: chan_try_send_eq)
  obtain st2 q2' where s2: "chan_try_send E a2 (OutBinary m2) st1 = Inr st2" "st_chans st2 a2 = Some q2'"
      "queued q2' = queued q2 @ [OutBinary m2]"
    using other q(5,6) by (rule send_room)
  have "st_chans st2 a1 = Some q1'" using s2(1) s1(2) reg(3) by (auto elim!: chan_try_send_eq)
  with that [of st1 st2] s1 s2 q(1,4) empty reg clients show thesis
    by (simp add: send_to_client_def queue_of_def)
qed

lemma direct_message_is_scoped_to_tenant_passes: "direct_message_is_scoped_to_tenant E"
proof -
  let ?q = "mpsc_channel (env_mpsc E) 16"
  let ?st = "register_client (lit ''alice'') (lit ''t2'') 2 1 (register_client (lit ''alice'') (lit ''t1'') 1 0
      (snd (new_channel E (snd (new_channel E (app_state_new E state_test_config))))))"
  have chans: "st_chans ?st 0 = Some ?q" "st_chans ?st 1 = Some ?q"
    by (simp_all add: register_client_def new_channel_def app_state_new_def state_test_config_def)
  have clients: "st_clients ?st (lit ''t1'', lit ''alice'') = Some \<lparr>ch_connection_id = 1, ch_sender = 0\<rparr>"
    "st_clients ?st (lit ''t2'', lit ''alice'') = Some \<lparr>ch_connection_id = 2, ch_sender = 1\<rparr>"
    using other_tenant by (simp_all add: register_client_def)
  obtain st1 st2 where "send_to_client E (lit ''alice'') (lit ''t1'') [120] ?st = (True, st1)"
    "send_to_client E (lit ''alice'') (lit ''t2'') [121] st1 = (True, st2)"
    by (rule scoped_sends [OF clients, of "[120]" "[121]"])
       (use chans mpsc.channel_new in \<open>simp_all add: has_room_def queue_of_def\<close>)
  then show ?thesis
    by (simp add: direct_message_is_scoped_to_tenant_def new_channel_def app_state_new_def)
qed

lemma cross_tenant_direct_returns_false_passes: "cross_tenant_direct_returns_false E"
  using other_tenant
  by (simp add: cross_tenant_direct_returns_false_def send_to_client_def register_client_def
      new_channel_def app_state_new_def)

end

lemma tenant_topic_prefixes_namespace_passes: tenant_topic_prefixes_namespace
  by (simp add: tenant_topic_prefixes_namespace_def tenant_topic_def lit_def)

end
