(* ===== verification/Spec2Isabelle.thy ===== *)
theory Spec2Isabelle
  imports Isolation Demo_Run Rate_Limits Router Process Auth_Tests Ip_Limiter_Tests State_Tests
begin

text \<open>
  A verification development for \<open>rust-ws-server\<close>, a multi-tenant websocket server: clients
  connect under a tenant, subscribe to one topic, publish to topics of their tenant and
  send direct messages to clients of their tenant; an HTTP interface publishes and sends
  from outside. The server is built on tokio and axum.

  \<^bold>\<open>Parts of the program and where they are modelled\<close>

  \<^item> Machine types, Rust strings, iterators over characters: theory \<open>Prelude\<close>. A string is a
    list of Unicode scalar values, \<open>u32\<close>, \<open>u64\<close>, \<open>usize\<close> are words (a 64-bit target).
  \<^item> \<open>f64\<close> arithmetic (\<open>F64\<close>): binary64 with its rounding, on rationals.
  \<^item> \<open>src/config.rs\<close>: \<open>Config\<close> (the record, its defaults).
  \<^item> \<open>src/auth.rs\<close>: \<open>Auth\<close> (\<open>from_config\<close>, \<open>verify\<close>); \<open>examples/mint-token.rs\<close>: \<open>Mint_Token\<close>.
  \<^item> \<open>src/ip_limiter.rs\<close>: \<open>Token_Bucket\<close> (also the \<open>RateLimiter\<close> of \<open>src/server.rs\<close>),
    \<open>Ip_Addr\<close> (parsing of addresses), \<open>Ip_Limiter\<close>; what the three connection limits have in
    common is the locale \<open>permit_pool\<close> of \<open>Permit_Pool\<close>.
  \<^item> \<open>src/metrics.rs\<close>: \<open>Metrics\<close>; \<open>src/protocol.rs\<close>: \<open>Protocol\<close>.
  \<^item> tokio's semaphore, \<open>mpsc\<close> and \<open>broadcast\<close>: \<open>Tokio\<close>, as parameters with laws.
  \<^item> \<open>src/state.rs\<close>: \<open>App_State\<close> (\<open>AppState\<close> and every operation on it), \<open>Topic\<close>
    (\<open>tenant_topic\<close>, with \<open>normalize_topic\<close> and \<open>extract_topic\<close> of \<open>src/server.rs\<close>).
  \<^item> \<open>src/server.rs\<close>: \<open>Admission\<close> (\<open>ws_handler\<close>, \<open>resolve_client_ip\<close>, the permits),
    \<open>Connection\<close> (\<open>handle_socket\<close>, \<open>connection_loop\<close> with its three tasks, the message
    handlers), \<open>Router\<close> (the route table and the pages), \<open>Process\<close> (\<open>serve\<close>, \<open>shutdown_signal\<close>).
  \<^item> \<open>src/main.rs\<close>: \<open>Process\<close>, up to the call of \<open>axum::serve\<close>, which is an argument.
  \<^item> \<open>src/api.rs\<close>: \<open>Api\<close>.
  \<^item> Everything together: \<open>Server\<close>, a step relation on the shared state and the sessions.
  \<^item> The unit tests in the source files: \<open>Auth_Tests\<close>, \<open>Ip_Limiter_Tests\<close>, \<open>State_Tests\<close>, each
    test a definition that computes whether it passes, proved to pass.

  \<^bold>\<open>State and steps\<close>

  The shared state \<open>app_state\<close> has the fields of \<open>AppState\<close>; a \<open>DashMap\<close> is a map. It also
  owns the client queues: an \<open>mpsc\<close> channel lives at an address, and a \<open>Sender\<close> is that
  address, so that the copies of \<open>client_tx\<close> in the registry and in the tasks are aliases.
  A permit is the value the code drops later; its drop is an explicit operation. Operations
  take the state and return it; errors are values of a sum or an option. Clock readings are
  arguments, one per call of \<open>Instant::now\<close>, as are the order in which an iterator yields
  the keys of a map and what the socket does.

  A session is a websocket request that is not over: it is in \<open>ws_handler\<close>, waits for its
  upgrade, opens in three stages (subscription, registration, \<open>Ready\<close>: \<open>open_subscribe\<close>,
  \<open>open_register\<close>, \<open>open_ready\<close>; in a row they are \<open>open_connection\<close>), runs its three tasks,
  and leaves in the order of the code (task ends, abort of
  the others, \<open>get\<close> and \<open>remove\<close> of \<open>unregister_client\<close>, drop of the permits). \<open>step\<close>
  interleaves the stages of the handlers, upgrade failures, single steps of every
  task of every connection, teardowns and API calls in any order; \<open>reachable\<close> is its closure
  from the initial state. \<open>ws_handler\<close> is modelled twice: as the code has it, and as three
  stages (\<open>ws_stage_step\<close>), one for each limit it asks, between which every other task may
  run; \<open>run_stages_handler\<close> shows that the stages in a row are the handler. The handler has
  no await point, so no more handlers run at once than there are worker threads. Other
  code is one step between two await points, except the opening of a connection and
  \<open>unregister_client\<close>, whose two map operations are two steps. The writer awaits its \<open>send\<close>:
  that it has taken a message or a heartbeat and not yet sent it is a state of its own
  (\<open>lv_holding\<close>), in which every other task may run and an abort loses what is held.

  \<^bold>\<open>Interfaces\<close>

  \<^item> \<open>semaphore\<close>, \<open>bounded_queue\<close>, \<open>broadcast\<close>: what tokio documents. \<open>server_env\<close> joins the
    three for the environment \<open>E\<close> of the server; the theorems below that name it hold for
    every implementation of the primitives. Interpretations: a counter, a list and a table
    of queues, and \<open>demo_env\<close> for all of them.
  \<^item> \<open>jwt_decoder\<close>, \<open>jwt_encoder\<close>: what \<open>jsonwebtoken\<close> documents of \<open>decode\<close> and \<open>encode\<close>;
    \<open>jwt_crate\<close> extends the latter by the errors that bad tokens get.
  \<^item> \<open>rounding\<close>: what the buckets need of the rounding of \<open>f64\<close>, interpreted on \<open>f64_round\<close>.
  \<^item> \<open>token_gate\<close>: the contract of a token bucket, interpreted on \<open>TokenBucket\<close> and on
    \<open>RateLimiter\<close>; bound, recovery and burst are proved in it once.
  \<^item> \<open>permit_pool\<close>: interpreted on the address limiter, the tenants' semaphores and the
    global semaphore.
  \<^item> \<open>kept_field\<close>: a part of the state that no part of a step writes stays what it was at the
    start; interpreted on the configuration, the verifier and the caps of tenants and addresses.
  \<^item> \<open>message_steps\<close>: a relation that the five primitives of the handlers respect holds of
    every handler. Its instances give isolation (\<open>touching\<close>), the receivers of topics (\<open>rx\<close>),
    the bounds of queues (\<open>bounded\<close>), the order of queues (\<open>fifo\<close>) and the well-formedness
    of buckets (\<open>bucket_steps\<close>).

  \<^bold>\<open>What is proved\<close>

  \<^item> Invariants of the steps, by the cases of \<open>step_kinds\<close> (\<open>Server\<close>): the three limits agree
    with what the handlers and sessions hold, the gauge with the open connections (\<open>Books\<close>);
    the registry and the queues belong to sessions (\<open>Registry\<close>); the receivers of topics are
    those of the subscribed sessions (\<open>Subscriptions\<close>); tenants do not reach each other
    (\<open>Isolation\<close>), because no entry leads to another tenant's queue (\<open>entries_own\<close>). \<open>Reachable\<close> has them for every reachable state.
  \<^item> Runs (\<open>Progress\<close>): a request that passes the handler uninterrupted, the end of sessions;
    what comes between the stages of an opening (\<open>Opening\<close>).
  \<^item> When the shutdown future is over and when the process warns that anyone may connect
    (\<open>Process\<close>).
  \<^item> Delivery in order and the outcome of every task step (\<open>Delivery\<close>, \<open>Frame_Handling\<close>).
  \<^item> Admission: the abstract specification and its refinement (\<open>Admission_Spec\<close>), the
    decision, the origin of identities (\<open>Admission_Decision\<close>).
  \<^item> Rates (\<open>Token_Bucket\<close>, \<open>Rate_Limits\<close>), reporting (\<open>Metrics\<close>, \<open>Router\<close>), input and
    configuration (\<open>Topic\<close>, \<open>Protocol\<close>, \<open>Auth\<close>, \<open>Mint_Token\<close>).

  The theorems below are the properties that span the parts. \<open>Demo_Run\<close> has a concrete
  run, on which they are evaluated. Some of them state weaknesses of the code: the race of
  a reconnect, the \<open>Ready\<close> event that is overtaken, the frames lost at a close, the shared
  topics of tenants with a colon, the address a client can choose behind an appending proxy, the key that turns authentication
  off, the cap that truncates to zero, the double count of API messages.

  \<^bold>\<open>Bounds\<close>

  \<open>max_connections\<close> and the worker threads are together less than \<open>2 ^ 32 - 1\<close> where the
  32-bit counter of an address must be exact: an address is counted for at most the
  connections of the server and the handlers that run. Capacities of 0 and semaphores above
  tokio's maximum make the constructors panic at start or at the first connection and are
  outside the model. That every \<open>Ready\<close> event can be encoded (\<open>encodes_ready\<close>) is a hypothesis
  where a claim is about the end of registry entries. \<open>client_queue_capacity > 0\<close> is a hypothesis where a message must fit.
  The only fuel is the number of rounds in \<open>writer_run\<close>; \<open>writer_drains\<close> shows that the
  length of the queue is enough.

  \<^bold>\<open>Not modelled\<close>

  The CORS and tracing layers, log lines apart from those of \<open>serve\<close>, command line parsing
  (clap, humantime), the decoding of queries and JSON bodies (axum, serde), the websocket protocol below frames, and the
  cryptography. How \<open>axum::serve\<close> stops after the shutdown signal, and that the runtime then
  ends the tasks that are left, is not modelled. A stage of the handler, a teardown and the
  code of a task between two await points are single steps, although on several threads other
  tasks may run within them; in particular the permits that one step gives back come back
  together, and the two tasks that a third one's end aborts are gone together. A frame whose
  \<open>send\<close> fails or is aborted is not on the model's wire, although part or all of it may have
  reached the client. The liveness theorem is about possible runs; fairness of the tokio
  scheduler is not modelled.
\<close>

section \<open>The running server\<close>

text \<open>
  C1: in every reachable state the free slots of the global limit
  and the sessions that hold one add up to \<open>max_connections\<close>: no slot leaks and none is used
  twice, whatever the interleaving of the stages of the handlers, failed upgrades, task ends
  and teardowns. The counters of the limits are exact as long as \<open>max_connections\<close> and the
  worker threads together are less than \<open>2 ^ 32 - 1\<close>.
\<close>

theorem connection_slots_balanced:
  assumes "server_env E avail queued qcap qclosed receivers pending bcap"
    and "reachable E cfg w" and "unat (cfg_max_connections cfg) + env_workers E < 2 ^ 32 - 1"
  shows "avail (st_connection_limit (w_app w)) + card (sessions_where holds_slot w)
           = unat (cfg_max_connections cfg)"
  using books_counts(1) [OF server_env.reachable_books [OF assms] reachable_wf [OF assms(2)]]
    reachable_config [OF assms(2)] by simp

theorem connection_slots_balanced_witness:
  "st_connection_limit (w_app demo_world2) + card (sessions_where holds_slot demo_world2) = 2
   \<and> sessions_where holds_slot demo_world2 = {0}"
proof -
  have "sessions_where holds_slot demo_world2 = {0}"
    by (auto simp: sessions_where_def demo_sessions holds_slot_def)
  with connection_slots_balanced [OF demo.server_env_axioms demo_reachable(2)] show ?thesis by simp
qed

text \<open>
  C12: with \<open>tenant_max_connections\<close> set, a tenant never has more sessions than its cap.
\<close>

theorem tenant_cap_respected:
  assumes "server_env E avail queued qcap qclosed receivers pending bcap"
    and "reachable E cfg w" and "unat (cfg_max_connections cfg) + env_workers E < 2 ^ 32 - 1"
    and "cfg_tenant_max_connections cfg = Some cap"
  shows "card (sessions_where (\<lambda>x. session_tenant x = Some t) w) \<le> unat cap"
proof -
  have "sessions_where (\<lambda>x. session_tenant x = Some t) w = sessions_where (holds_tenant_permit t) w"
    using reachable_tenant_sessions [OF assms(2)] assms(4) by simp
  moreover have "tenant_used avail (w_app w) t \<le> unat cap"
    using reachable_tenant_cap [OF assms(2)] assms(4) by (intro tenant_used_le) simp
  ultimately show ?thesis
    using books_counts(2) [OF server_env.reachable_books [OF assms(1-3)]
        reachable_wf [OF assms(2)]] by simp
qed

theorem tenant_cap_respected_witness:
  "card (sessions_where (\<lambda>x. session_tenant x = Some [2]) demo_world2) \<le> 1
   \<and> sessions_where (\<lambda>x. session_tenant x = Some [2]) demo_world2 \<noteq> {}"
  using tenant_cap_respected [OF demo.server_env_axioms demo_reachable(2), of 1 "[2]"]
  by (simp add: sessions_where_def demo_sessions session_tenant_def demo_live_def live_new_def
      demo_ticket_def)

text \<open>
  C13: with \<open>ip_max_concurrent\<close> set, the sessions that hold a permit of one address are
  exactly the ones its counter counts, and never more than the cap; the cap in force is the
  configured number truncated to 32 bits.
\<close>

theorem ip_cap_respected:
  assumes "server_env E avail queued qcap qclosed receivers pending bcap"
    and "reachable E cfg w" and "unat (cfg_max_connections cfg) + env_workers E < 2 ^ 32 - 1"
    and "cfg_ip_max_concurrent cfg = Some v"
  shows "\<exists>l. st_ip_limiter (w_app w) = Some l
           \<and> ip_in_use l ip = card (sessions_where (holds_ip_permit ip) w)
           \<and> card (sessions_where (holds_ip_permit ip) w) \<le> unat (ucast v :: u32)"
proof -
  from reachable_ip_cap [OF assms(2)] assms(4) obtain l where l: "st_ip_limiter (w_app w) = Some l"
    "il_max_concurrent l = Some (ucast v)" by (auto simp: ip_cap_def bind_eq_Some_conv)
  note counts = books_counts [OF server_env.reachable_books [OF assms(1-3)]
      reachable_wf [OF assms(2)]]
  from counts(3,4) l show ?thesis by blast
qed

theorem ip_cap_respected_witness:
  "card (sessions_where (holds_ip_permit (IpV4 7)) demo_world2) \<le> 1
   \<and> sessions_where (holds_ip_permit (IpV4 7)) demo_world2 = {0}"
proof -
  have "sessions_where (holds_ip_permit (IpV4 7)) demo_world2 = {0}"
    by (auto simp: sessions_where_def demo_sessions holds_ip_permit_def demo_live_def live_new_def
        demo_ticket_def split: if_splits)
  moreover have "card (sessions_where (holds_ip_permit (IpV4 7)) demo_world2)
      \<le> unat (ucast (1 :: usize) :: u32)"
    using ip_cap_respected [OF demo.server_env_axioms demo_reachable(2) _ demo_config_simps(9),
        of "IpV4 7"]
    by (elim meta_mp [THEN exE]; simp)
  ultimately show ?thesis by simp
qed

section \<open>Tenants\<close>

text \<open>
  C2: a step that acts for one tenant (a frame of one of its connections, a
  delivery, a teardown, an API call) changes nothing another tenant can observe of the
  shared state: not the queues of its sessions, not its topics, not its registry entries.
  Both names, the acting tenant's and the other's, are without a colon; for names with one
  see \<open>colon_tenants_collide\<close>.
\<close>

theorem tenant_isolation:
  assumes "server_env E avail queued qcap qclosed receivers pending bcap"
    and "reachable E cfg w" and "step E w (Some t) w'"
    and "t \<noteq> u" "char_colon \<notin> set t" "char_colon \<notin> set u"
  shows "unchanged_for u w w'"
  using step_isolation [OF assms(3) server_env.reachable_queues_distinct [OF assms(1,2)]
      server_env.reachable_entries_own [OF assms(1,2)]] assms(4-6) by simp

theorem tenant_isolation_witness: "unchanged_for [3] demo_world2 demo_world3"
  by (rule tenant_isolation [OF demo.server_env_axioms demo_reachable(2) demo_step3])
     (simp_all add: char_colon_def)

text \<open>
  C6: provided that every \<open>Ready\<close> event can be encoded, an entry of the
  registry always belongs to a session whose connection is not over: its queue and
  connection id are that session's. The entries of ended sessions are gone. The proviso is
  needed: a connection whose \<open>Ready\<close> cannot be encoded returns from \<open>connection_loop\<close> without
  \<open>unregister_client\<close>, and its entry stays (\<open>ready_failure_leaves_entry\<close>).
\<close>

theorem registry_entries_live:
  assumes "server_env E avail queued qcap qclosed receivers pending bcap"
    and "encodes_ready (env_codec E)" and "reachable E cfg w"
    and "st_clients (w_app w) (t, cl) = Some h"
  shows "\<exists>s x c. w_sessions w s = Some x \<and> session_conn x = Some c \<and> session_tenant x = Some t
           \<and> co_client_id c = cl \<and> ch_connection_id h = co_connection_id c \<and> ch_sender h = co_tx c"
proof -
  from server_env.reachable_registry [OF assms(1,3,2)] assms(4) obtain s x c
    where "w_sessions w s = Some x" "registered_conn x = Some c" "co_tenant_id c = t"
      "co_client_id c = cl" "h = handle_of c" unfolding registry_ok_def by blast
  moreover from this have "session_conn x = Some c" by (simp add: registered_session_conn)
  moreover from calculation have "session_tenant x = Some t"
    using queues_distinctD(2) [OF server_env.reachable_queues_distinct [OF assms(1,3)]] by simp
  ultimately show ?thesis by (auto simp: handle_of_def)
qed

theorem registry_entries_live_witness:
  "\<exists>s x c. w_sessions demo_world2 s = Some x \<and> session_conn x = Some c \<and> session_tenant x = Some [2]
     \<and> co_client_id c = [1] \<and> 1 = co_connection_id c \<and> 0 = co_tx c"
  using registry_entries_live [OF demo.server_env_axioms demo_encodes_ready demo_reachable(2),
      of "[2]" "[1]" "\<lparr>ch_connection_id = 1, ch_sender = 0\<rparr>"]
  by (simp add: demo_sessions demo_app2_eq)



text \<open>
  C19: the queue of a client never holds more than
  \<open>client_queue_capacity\<close> messages, and a slow client holds up no other: a full queue
  refuses the message at once.
\<close>

theorem client_queues_bounded:
  assumes "server_env E avail queued qcap qclosed receivers pending bcap" and "reachable E cfg w"
  shows "length (queue_of queued (w_app w) a) \<le> unat (cfg_client_queue_capacity cfg)"
  using server_env.reachable_within_bounds [OF assms] reachable_config [OF assms(2)]
  by (auto simp: queues_ok_def queue_of_def split: option.split)

theorem client_queues_bounded_witness:
  "length (queue_of (\<lambda>(n, cl, ms). ms) (w_app demo_world2) 0) \<le> 4"
  using client_queues_bounded [OF demo.server_env_axioms demo_reachable(2), of 0]
  by simp

text \<open>
  C8: from every reachable state the server can run to one without
  sessions, and there every permit is back: all slots are free, no tenant's permit is in use,
  every address counts 0 open connections, no topic has a receiver and the gauge of open
  connections is 0. The registry is empty as well, provided that every \<open>Ready\<close> event can be
  encoded.
\<close>

theorem every_session_drains:
  assumes "server_env E avail queued qcap qclosed receivers pending bcap"
    and "reachable E cfg w" and "unat (cfg_max_connections cfg) + env_workers E < 2 ^ 32 - 1"
  shows "\<exists>w'. steps E w w' \<and> w_sessions w' = Map.empty
           \<and> avail (st_connection_limit (w_app w')) = unat (cfg_max_connections cfg)
           \<and> tenant_used avail (w_app w') = (\<lambda>_. 0)
           \<and> (\<forall>l. st_ip_limiter (w_app w') = Some l \<longrightarrow> ip_in_use l = (\<lambda>_. 0))
           \<and> topic_receivers receivers (w_app w') = (\<lambda>_. {})
           \<and> m_active_connections (st_metrics (w_app w')) = 0
           \<and> (encodes_ready (env_codec E) \<longrightarrow> st_clients (w_app w') = Map.empty)"
proof -
  obtain w' where run: "steps E w w'" and empty: "w_sessions w' = Map.empty"
    using all_sessions_can_end [OF reachable_wf [OF assms(2)]] by blast
  note reach = reachable_steps [OF run assms(2)]
  note counts = books_counts [OF server_env.reachable_books [OF assms(1) reach assms(3)]
      reachable_wf [OF reach]]
  have "avail (st_connection_limit (w_app w')) = unat (cfg_max_connections cfg)"
    using counts(1) reachable_config [OF reach] by (simp add: sessions_where_def empty)
  moreover have "tenant_used avail (w_app w') = (\<lambda>_. 0)"
    using counts(2) by (auto simp: sessions_where_def empty)
  moreover have "ip_in_use l = (\<lambda>_. 0)" if "st_ip_limiter (w_app w') = Some l" for l
    using counts(3) [OF that] by (auto simp: sessions_where_def empty)
  moreover have "m_active_connections (st_metrics (w_app w')) = 0"
    using counts(5) by (simp add: sessions_where_def empty)
  moreover have "st_clients (w_app w') = Map.empty" if "encodes_ready (env_codec E)"
    using server_env.reachable_registry [OF assms(1) reach that]
    by (auto simp: registry_ok_def empty fun_eq_iff)
  moreover have "topic_receivers receivers (w_app w') = (\<lambda>_. {})"
    using server_env.reachable_receivers [OF assms(1) reach]
    by (auto simp: receivers_exact_def subscribed_at_def empty)
  ultimately show ?thesis using run empty by blast
qed

theorem every_session_drains_witness:
  "\<exists>w'. steps demo_env demo_world2 w' \<and> w_sessions w' = Map.empty
     \<and> st_connection_limit (w_app w') = 2 \<and> st_clients (w_app w') = Map.empty"
  using every_session_drains [OF demo.server_env_axioms demo_reachable(2)] demo_encodes_ready
  by (auto simp: demo_config_simps)

section \<open>Specification, delivery, reporting\<close>

text \<open>
  C4: every step of the server is a step of the abstract admission
  specification on the admitted sessions: a session enters only when the global limit, its
  tenant's cap and its address's cap all have room for it; sessions only leave otherwise. The
  handlers ask the limits one by one, in between the stages of others.
\<close>

theorem server_refines_admission:
  assumes "server_env E avail queued qcap qclosed receivers pending bcap"
    and "reachable E cfg w" and "unat (cfg_max_connections cfg) + env_workers E < 2 ^ 32 - 1"
    and "step E w actor w'"
  shows "spec_step cfg (admission_view w) (admission_view w')"
  by (rule server_env.step_refines [OF assms])

theorem server_refines_admission_witness:
  "spec_step demo_config Map.empty [0 \<mapsto> ([2], Some (IpV4 7))]"
proof -
  have "admission_view demo_handling = Map.empty"
    "admission_view demo_world1 = [0 \<mapsto> ([2], Some (IpV4 7))]"
    by (auto simp: admission_view_def demo_handling_def world_new_def demo_sessions ticket_view_def
        demo_ticket_def)
  then show ?thesis
    using server_refines_admission [OF demo.server_env_axioms demo_handling_reachable _
        demo_handling_step] by simp
qed

text \<open>
  C10: while the writer of a connection runs, no step of the server removes
  or reorders what the client gets: the data frames on the wire, then the one the
  writer has taken off the queue and not yet sent, then the queued messages; this sequence
  only ever grows at the end.
\<close>

theorem delivery_in_order:
  assumes "server_env E avail queued qcap qclosed receivers pending bcap"
    and "reachable E cfg w" and "step E w actor w'"
    and "w_sessions w s = Some (Live v)" "w_sessions w' s = Some (Live v')"
    and "lv_writer v' = Running"
  shows "\<exists>fs. data_frames (lv_wire v' @ held_frames v')
             @ map into_ws_message (queue_of queued (w_app w') (co_tx (lv_conn v')))
           = data_frames (lv_wire v @ held_frames v)
             @ map into_ws_message (queue_of queued (w_app w) (co_tx (lv_conn v))) @ fs"
  using server_env.stream_step [OF assms(1,3) reachable_wf [OF assms(2)]
      server_env.reachable_queues_distinct [OF assms(1,2)] assms(4-6)]
  by (simp add: stream_extended_def client_stream_def)

theorem delivery_in_order_witness:
  "\<exists>fs. map into_ws_message (queue_of (\<lambda>(n, cl, ms). ms) (w_app demo_world3) 0)
     = WsBinary (demo_kind ''ready'') # fs"
  using delivery_in_order [OF demo.server_env_axioms demo_reachable(2) demo_step3,
      of 0 demo_live "demo_live\<lparr>lv_reader := Running, lv_limiter := demo_limiter3\<rparr>"]
  by (simp add: demo_sessions demo_world3_def)
     (simp add: demo_live_def live_new_def demo_conn_def data_frames_def held_frames_def queue_of_def demo_app2_eq
       into_ws_message_def)

text \<open>
  C26: what a scraper reads from \<open>GET /metrics\<close> under
  \<open>ws_active_connections\<close> is the number of open connections.
\<close>

theorem metrics_page_true:
  assumes "server_env E avail queued qcap qclosed receivers pending bcap"
    and "reachable E cfg w" and "unat (cfg_max_connections cfg) + env_workers E < 2 ^ 32 - 1"
  shows "\<exists>page. get_page ''/metrics'' (w_app w) = Some page
           \<and> map_of (scrape page) ''ws_active_connections'' = Some (card (sessions_where is_open w))"
  using reachable_active [OF assms]
  by (simp add: get_page_def route_def router_def metrics_page_def scrape_render_prometheus)

theorem metrics_page_true_witness:
  "\<exists>page. get_page ''/metrics'' (w_app demo_world2) = Some page
     \<and> map_of (scrape page) ''ws_active_connections'' = Some 1"
proof -
  have "sessions_where is_open demo_world2 = {0}"
    by (auto simp: sessions_where_def demo_sessions is_open_def)
  then show ?thesis
    using metrics_page_true [OF demo.server_env_axioms demo_reachable(2)] by simp
qed

section \<open>Frames and calls\<close>

text \<open>
  C11: of a frame that does not pass the connection's rate limiter, the text length
  limit and the tenant's rate bucket, only three things may remain in the shared state: the
  answer in the client's own queue, what the metrics count, and the consultation of the
  tenant's rate bucket. The bucket is consulted only after the connection's limiter has
  passed the frame and, for a text frame, after the length limit has; otherwise no rate limit
  changes, and those of other tenants never do. Configuration, permits, limits, topics,
  registry, identifiers and every other queue stay exactly as they were.
\<close>

theorem frames_gated:
  assumes "reader_step E clk c (Frame f) (l, st) = (r, l', st')"
    and "\<not> frame_passes clk c f l st"
  shows "st' = st\<lparr>st_metrics := st_metrics st', st_chans := st_chans st',
                 st_tenant_rate_limits := st_tenant_rate_limits st'\<rparr>
         \<and> (\<forall>a. a \<noteq> co_tx c \<longrightarrow> st_chans st' a = st_chans st a)
         \<and> st_tenant_rate_limits st'
             = (if frame_charged clk f l st
                then st_tenant_rate_limits (snd (check_tenant_rate (\<lambda>i. clk (i + 1)) (co_tenant_id c) st))
                else st_tenant_rate_limits st)
         \<and> (\<forall>u. u \<noteq> co_tenant_id c \<longrightarrow> map_option (\<lambda>m. m u) (st_tenant_rate_limits st')
                                    = map_option (\<lambda>m. m u) (st_tenant_rate_limits st))"
  using refused_frame_effect [OF assms] refused_frame_rates [OF assms] by blast

theorem frames_gated_witness:
  "st_topics (snd (snd (reader_step demo_env demo_clock demo_conn demo_input
       (demo_limiter2\<lparr>rl_tokens := 0\<rparr>, demo_app2)))) = st_topics demo_app2
   \<and> st_tenant_rate_limits (snd (snd (reader_step demo_env demo_clock demo_conn demo_input
       (demo_limiter2\<lparr>rl_tokens := 0\<rparr>, demo_app2)))) = st_tenant_rate_limits demo_app2"
proof -
  have refused: "\<not> frame_passes demo_clock demo_conn (WsText (lit ''p'')) (demo_limiter2\<lparr>rl_tokens := 0\<rparr>) demo_app2"
    by (simp add: frame_passes_def demo_limiter2_eq rate_limiter_allow_def rate_limiter_refill_def
        tokens_to_add_def Let_def f64_mul_def f64_add_def)
  obtain r l' st' where step: "reader_step demo_env demo_clock demo_conn (Frame (WsText (lit ''p'')))
      (demo_limiter2\<lparr>rl_tokens := 0\<rparr>, demo_app2) = (r, l', st')" by (metis prod_cases3)
  have free: "\<not> frame_charged demo_clock (WsText (lit ''p'')) (demo_limiter2\<lparr>rl_tokens := 0\<rparr>) demo_app2"
    by (simp add: frame_charged_def demo_limiter2_eq rate_limiter_allow_def rate_limiter_refill_def
        tokens_to_add_def Let_def f64_mul_def f64_add_def)
  note effect = frames_gated [OF step refused]
  have "st_topics st' = st_topics demo_app2" by (subst conjunct1 [OF effect]) simp
  with effect free step show ?thesis by (simp add: demo_input_def)
qed

text \<open>
  C22: a text or binary frame over the connection's rate limit ends the reader
  and, with room for two more messages, queues the error event and then the close frame
  1008; it counts as an incoming message and a protocol error.
\<close>

theorem rate_limit_closes:
  assumes "server_env E avail queued qcap qclosed receivers pending bcap"
    and "reader_step E clk c (Frame f) (l, st) = (r, l', st')" and "f = WsText txt \<or> f = WsBinary raw"
    and "\<not> fst (rate_limiter_allow (clk 0) l)"
    and "has_room queued qcap qclosed st (co_tx c) 2"
    and "encode_server_event (env_codec E)
           (Error (lit ''rate_limited'') (lit ''message rate limit exceeded'')) = Some e"
  shows "r = Finished None
         \<and> queue_of queued st' (co_tx c) = queue_of queued st (co_tx c)
             @ [OutBinary e, OutClose 1008 (lit ''rate limit exceeded'')]
         \<and> st_metrics st' = protocol_error (message_in (st_metrics st))"
  using server_env.reader_over_limit [OF assms] by (simp add: close_policy_def)

theorem rate_limit_closes_witness:
  "queue_of (\<lambda>(n, cl, ms). ms) (snd (snd (reader_step demo_env demo_clock demo_conn demo_input
       (demo_limiter2\<lparr>rl_tokens := 0\<rparr>, demo_app2)))) 0
     = [OutBinary (demo_kind ''ready''), OutBinary (demo_kind ''error''),
        OutClose 1008 (lit ''rate limit exceeded'')]"
proof -
  have over: "\<not> fst (rate_limiter_allow (demo_clock 0) (demo_limiter2\<lparr>rl_tokens := 0\<rparr>))"
    by (simp add: demo_limiter2_eq rate_limiter_allow_def rate_limiter_refill_def
        tokens_to_add_def Let_def f64_mul_def f64_add_def)
  have room: "has_room (\<lambda>(n, cl, ms). ms) (\<lambda>(n, cl, ms). n) (\<lambda>(n, cl, ms). cl) demo_app2 (co_tx demo_conn) 2"
    by (simp add: has_room_def demo_app2_eq demo_conn_def)
  have enc: "encode_server_event (env_codec demo_env)
      (Error (lit ''rate_limited'') (lit ''message rate limit exceeded'')) = Some (demo_kind ''error'')"
    by simp
  obtain r l' st' where step: "reader_step demo_env demo_clock demo_conn (Frame (WsText (lit ''p'')))
      (demo_limiter2\<lparr>rl_tokens := 0\<rparr>, demo_app2) = (r, l', st')" by (metis prod_cases3)
  from rate_limit_closes [OF demo.server_env_axioms step _ over room enc] step show ?thesis
    by (simp add: demo_input_def) (simp add: demo_app2_eq demo_conn_def queue_of_def)
qed

text \<open>
  C34: once the reader has ended, the teardown may run before the writer gets
  a turn, and then everything still queued is dropped: the error and close frames of a
  rate limit violation or of the idle timeout do not reach the client in that run.
\<close>

theorem goodbye_may_be_lost:
  assumes "server_env E avail queued qcap qclosed receivers pending bcap"
    and "w_sessions w s = Some (Live v)" "lv_reader v = Finished e" "lv_writer v = Running"
  shows "\<exists>w'. step E w (Some (co_tenant_id (lv_conn v))) w'
           \<and> w_sessions w' s = Some (Unregistering (lv_ticket v) (lv_conn v))
           \<and> queue_of queued (w_app w') (co_tx (lv_conn v)) = []"
proof (intro exI conjI)
  show "step E w (Some (co_tenant_id (lv_conn v)))
          (put_session s (Unregistering (lv_ticket v) (lv_conn v))
            (abort_others E ReaderTask (lv_conn v) (lv_writer v) (lv_fanout v) (w_app w)) w)"
    by (rule step.task_over [OF assms(2)]) (simp add: assms(3))
qed (simp_all add: assms(4) server_env.abort_discards_queue [OF assms(1)])

theorem goodbye_may_be_lost_witness:
  "\<exists>w'. step demo_env (put_session 0 (Live (demo_live\<lparr>lv_reader := Finished None\<rparr>)) demo_app2 demo_world2) (Some [2]) w'
     \<and> queue_of (\<lambda>(n, cl, ms). ms) (w_app w') 0 = []"
proof -
  let ?v = "demo_live\<lparr>lv_reader := Finished None\<rparr>"
  have v: "lv_writer ?v = Running" "co_tenant_id (lv_conn ?v) = [2]" "co_tx (lv_conn ?v) = 0"
    by (simp_all add: demo_live_def live_new_def demo_conn_def)
  have "w_sessions (put_session 0 (Live ?v) demo_app2 demo_world2) 0 = Some (Live ?v)" by simp
  from goodbye_may_be_lost [OF demo.server_env_axioms this, of None] v show ?thesis by auto
qed



text \<open>
  C3: a direct message that can be encoded goes to the queue of the client
  registered under the sender's tenant when that queue is open and not full. Otherwise nothing
  is delivered and one message is counted as dropped; the sender's own queue gets the
  \<open>client_not_found\<close> event when it has room for it, and when it has none the sender is told
  nothing and a second drop is counted. A client of another tenant is answered like one
  that does not exist.
\<close>

theorem direct_message_outcome:
  assumes "server_env E avail queued qcap qclosed receivers pending bcap"
    and "encode_server_event (env_codec E) (DirectMessage client to request_id payload) = Some m"
    and "encode_server_event (env_codec E)
           (Error (lit ''client_not_found'') (lit ''target client is not online'')) = Some e"
    and "st' = direct_event E tx tenant client to request_id payload st"
  shows "case direct_target queued qcap qclosed st tenant to of
           Some a \<Rightarrow> queue_of queued st' = (queue_of queued st)(a := queue_of queued st a @ [OutBinary m])
                     \<and> st_metrics st' = st_metrics st
         | None \<Rightarrow>
             if has_room queued qcap qclosed st tx 1
             then queue_of queued st' = (queue_of queued st)(tx := queue_of queued st tx @ [OutBinary e])
                  \<and> st_metrics st' = message_dropped (st_metrics st)
             else queue_of queued st' = queue_of queued st
                  \<and> st_metrics st' = message_dropped (message_dropped (st_metrics st))"
  by (rule server_env.direct_event_outcome [OF assms])

theorem direct_message_outcome_witness:
  "queue_of (\<lambda>(n, cl, ms). ms) (direct_event demo_env 0 [2] [1] [1] None () demo_app2) 0
     = [OutBinary (demo_kind ''ready''), OutBinary (demo_kind ''direct_message'')]
   \<and> queue_of (\<lambda>(n, cl, ms). ms) (direct_event demo_env 0 [3] [1] [1] None () demo_app2) 0
     = [OutBinary (demo_kind ''ready''), OutBinary (demo_kind ''error'')]"
proof -
  have room: "has_room (\<lambda>(n, cl, ms). ms) (\<lambda>(n, cl, ms). n) (\<lambda>(n, cl, ms). cl) demo_app2 0 1"
    by (simp add: has_room_def demo_app2_eq)
  have enc: "encode_server_event (env_codec demo_env) (DirectMessage [1] [1] None ())
        = Some (demo_kind ''direct_message'')"
      "encode_server_event (env_codec demo_env)
         (Error (lit ''client_not_found'') (lit ''target client is not online'')) = Some (demo_kind ''error'')"
    by simp_all
  have "direct_target (\<lambda>(n, cl, ms). ms) (\<lambda>(n, cl, ms). n) (\<lambda>(n, cl, ms). cl) demo_app2 [2] [1] = Some 0"
    "direct_target (\<lambda>(n, cl, ms). ms) (\<lambda>(n, cl, ms). n) (\<lambda>(n, cl, ms). cl) demo_app2 [3] [1] = None"
    by (simp_all add: direct_target_def demo_app2_eq demo_app1_eq world_new_def demo_new_app)
  moreover have "queue_of (\<lambda>(n, cl, ms). ms) demo_app2 0 = [OutBinary (demo_kind ''ready'')]"
    by (simp add: queue_of_def demo_app2_eq)
  ultimately show ?thesis
    using direct_message_outcome [OF demo.server_env_axioms enc refl, where tenant = "[2]" and tx = 0 and st = demo_app2]
      direct_message_outcome [OF demo.server_env_axioms enc refl, where tenant = "[3]" and tx = 0 and st = demo_app2]
      room by simp
qed

text \<open>
  C24: \<open>POST /api/direct\<close> of an identified caller answers 200 and queues the
  message exactly when the target is a client of the caller's tenant whose queue takes it,
  and 404 with \<open>client_not_found\<close> otherwise; the one counts a message out, the other a
  dropped one, and nothing else is counted.
\<close>

theorem api_direct_answers:
  assumes "server_env E avail queued qcap qclosed receivers pending bcap"
    and "resolve_identity E now_secs headers st = Inr identity"
    and "encode_server_event (env_codec E) (DirectMessage (ai_client_id identity) (db_to body)
           (db_request_id body) (db_payload body)) = Some m"
    and "api_direct E now_secs headers body st = (response, st')"
  shows "case direct_target queued qcap qclosed st (ai_tenant_id identity) (db_to body) of
           Some a \<Rightarrow> response = (200, DirectResponse True None)
                     \<and> queue_of queued st' = (queue_of queued st)(a := queue_of queued st a @ [OutBinary m])
                     \<and> st_metrics st' = message_out (st_metrics st)
         | None \<Rightarrow> response = (404, DirectResponse False (Some (lit ''client_not_found'')))
                     \<and> queue_of queued st' = queue_of queued st
                     \<and> st_metrics st' = message_dropped (st_metrics st)"
  using server_env.api_direct_outcome [OF assms]
  by (simp add: status_ok_def not_found_def split: option.splits)

theorem api_direct_answers_witness:
  "fst (api_direct demo_env 0 no_headers \<lparr>db_to = [1], db_request_id = None, db_payload = ()\<rparr> demo_app2)
     = (404, DirectResponse False (Some (lit ''client_not_found'')))"
proof -
  let ?body = "\<lparr>db_to = [1], db_request_id = None, db_payload = ()\<rparr>"
  let ?id = "\<lparr>ai_client_id = lit ''api'', ai_tenant_id = lit ''default''\<rparr>"
  have id: "resolve_identity demo_env 0 no_headers demo_app2 = Inr ?id"
    by (simp add: resolve_identity_def demo_app2_eq demo_app1_eq world_new_def demo_new_app)
  have enc: "encode_server_event (env_codec demo_env) (DirectMessage (ai_client_id ?id) (db_to ?body)
      (db_request_id ?body) (db_payload ?body)) = Some (demo_kind ''direct_message'')" by simp
  obtain response st' where call: "api_direct demo_env 0 no_headers ?body demo_app2 = (response, st')"
    by (rule prod.exhaust)
  have "direct_target (\<lambda>(n, cl, ms). ms) (\<lambda>(n, cl, ms). n) (\<lambda>(n, cl, ms). cl) demo_app2
      (lit ''default'') [1] = None"
    by (simp add: direct_target_def demo_app2_eq demo_app1_eq world_new_def demo_new_app lit_def)
  with api_direct_answers [OF demo.server_env_axioms id enc call] call show ?thesis by simp
qed

text \<open>
  C25: \<open>POST /api/publish\<close> of an identified caller answers 200 with the
  number of receivers of the topic of its own tenant; it counts one message out per
  receiver, or one dropped message when there is none, and puts nothing in a client queue
  itself.
\<close>

theorem api_publish_answers:
  assumes "server_env E avail queued qcap qclosed receivers pending bcap"
    and "resolve_identity E now_secs headers st = Inr identity"
    and "encode_server_event (env_codec E) (Message (unwrap_or (pb_topic body) (lit ''public''))
           (ai_client_id identity) (pb_request_id body) (pb_payload body)) = Some m"
    and "api_publish E now_secs headers body st = (response, st')"
    and "n = card (topic_receivers receivers st (tenant_topic (ai_tenant_id identity)
                     (normalize_topic (unwrap_or (pb_topic body) (lit ''public'')))))"
  shows "response = (200, PublishResponse n)
         \<and> st_metrics st' = (if n = 0 then message_dropped (st_metrics st)
                             else (message_out ^^ n) (st_metrics st))
         \<and> queue_of queued st' = queue_of queued st"
  using server_env.api_publish_outcome [OF assms(1-4)] assms(5) by (simp add: status_ok_def)

theorem api_publish_answers_witness:
  "fst (api_publish demo_env 0 no_headers \<lparr>pb_topic = None, pb_request_id = None, pb_payload = ()\<rparr> demo_app2)
     = (200, PublishResponse 0)"
proof -
  let ?body = "\<lparr>pb_topic = None, pb_request_id = None, pb_payload = ()\<rparr>"
  let ?id = "\<lparr>ai_client_id = lit ''api'', ai_tenant_id = lit ''default''\<rparr>"
  have id: "resolve_identity demo_env 0 no_headers demo_app2 = Inr ?id"
    by (simp add: resolve_identity_def demo_app2_eq demo_app1_eq world_new_def demo_new_app)
  have enc: "encode_server_event (env_codec demo_env) (Message (unwrap_or (pb_topic ?body) (lit ''public''))
      (ai_client_id ?id) (pb_request_id ?body) (pb_payload ?body)) = Some (demo_kind ''message'')" by simp
  obtain response st' where call: "api_publish demo_env 0 no_headers ?body demo_app2 = (response, st')"
    by (rule prod.exhaust)
  have "0 = card (topic_receivers table_receivers demo_app2 (tenant_topic (ai_tenant_id ?id)
      (normalize_topic (unwrap_or (pb_topic ?body) (lit ''public'')))))"
    using demo_topic by (simp add: topic_receivers_def demo_app2_eq tenant_topic_def default_topic_def lit_def)
  from api_publish_answers [OF demo.server_env_axioms id enc call this] call show ?thesis by simp
qed

text \<open>
  C39: a message that \<open>POST /api/direct\<close> hands to an idle client is
  counted as a message out by the call and again by the writer that sends it: one frame on
  the wire, two on the counter.
\<close>

theorem api_direct_counted_twice:
  assumes "server_env E avail queued qcap qclosed receivers pending bcap"
    and "resolve_identity E now_secs headers st = Inr identity"
    and "encode_server_event (env_codec E) (DirectMessage (ai_client_id identity) (db_to body)
           (db_request_id body) (db_payload body)) = Some m"
    and "api_direct E now_secs headers body st = (response, st1)"
    and "direct_target queued qcap qclosed st (ai_tenant_id identity) (db_to body) = Some (co_tx c)"
    and "queue_of queued st (co_tx c) = []"
  shows "\<exists>st2. writer_run E c 1 st1 = Some ([WsBinary m], st2)
           \<and> queue_of queued st2 (co_tx c) = []
           \<and> m_messages_out (st_metrics st2) = m_messages_out (st_metrics st) + 2"
proof -
  have out: "queue_of queued st1 (co_tx c) = [OutBinary m]"
    "st_metrics st1 = message_out (st_metrics st)"
    using server_env.api_direct_outcome [OF assms(1-4)] assms(5,6) by simp_all
  then obtain q where "st_chans st1 (co_tx c) = Some q"
    by (auto simp: queue_of_def split: option.splits)
  then obtain st2 where st2: "queue_of queued st2 (co_tx c) = []"
    "st_metrics st2 = message_out (st_metrics st1)"
    and run: "writer_run E c (Suc n) st1 = map_option (\<lambda>(fs, st'). (into_ws_message (OutBinary m) # fs, st'))
                (writer_run E c n st2)" for n
    by (rule server_env.writer_run_Suc [OF assms(1) _ out(1)]) metis
  from run [of 0] have "writer_run E c 1 st1 = Some ([WsBinary m], st2)"
    by (simp add: into_ws_message_def del: writer_run.simps(2))
  with st2 out(2) show ?thesis by (auto simp: metrics_ops)
qed

theorem api_direct_counted_twice_witness:
  "\<exists>st2. writer_run demo_env demo_conn 1
        (snd (api_direct demo_env 0 no_headers \<lparr>db_to = [1], db_request_id = None, db_payload = ()\<rparr>
          (demo_app2\<lparr>st_clients := [(lit ''default'', [1]) \<mapsto> \<lparr>ch_connection_id = 1, ch_sender = 0\<rparr>],
                     st_chans := [0 \<mapsto> (4, False, [])]\<rparr>)))
      = Some ([WsBinary (demo_kind ''direct_message'')], st2)
    \<and> m_messages_out (st_metrics st2) = 2"
proof -
  let ?body = "\<lparr>db_to = [1], db_request_id = None, db_payload = ()\<rparr>"
  let ?id = "\<lparr>ai_client_id = lit ''api'', ai_tenant_id = lit ''default''\<rparr>"
  let ?st = "demo_app2\<lparr>st_clients := [(lit ''default'', [1]) \<mapsto> \<lparr>ch_connection_id = 1, ch_sender = 0\<rparr>],
                     st_chans := [0 \<mapsto> (4, False, [])]\<rparr>"
  have id: "resolve_identity demo_env 0 no_headers ?st = Inr ?id"
    by (simp add: resolve_identity_def demo_app2_eq demo_app1_eq world_new_def demo_new_app)
  have enc: "encode_server_event (env_codec demo_env) (DirectMessage (ai_client_id ?id) (db_to ?body)
      (db_request_id ?body) (db_payload ?body)) = Some (demo_kind ''direct_message'')" by simp
  obtain response st1 where call: "api_direct demo_env 0 no_headers ?body ?st = (response, st1)"
    by (rule prod.exhaust)
  have tx: "co_tx demo_conn = 0" by (simp add: demo_conn_def)
  have out: "m_messages_out (st_metrics ?st) = 0"
    by (simp add: demo_app2_eq metrics_ops metrics_default_def)
  have target: "direct_target (\<lambda>(n, cl, ms). ms) (\<lambda>(n, cl, ms). n) (\<lambda>(n, cl, ms). cl) ?st
      (ai_tenant_id ?id) (db_to ?body) = Some (co_tx demo_conn)"
    and empty: "queue_of (\<lambda>(n, cl, ms). ms) ?st (co_tx demo_conn) = []"
    by (simp_all add: direct_target_def queue_of_def tx)
  from api_direct_counted_twice [OF demo.server_env_axioms id enc call target empty] call out
  show ?thesis by auto
qed

section \<open>The life of a connection\<close>

text \<open>
  C20: a connection opens with the encoded \<open>Ready\<close> event as the only message
  of its queue, is registered under its tenant and client with its own id and queue, and is
  a new receiver of its topic; counters go up by one.
\<close>

theorem connection_opens:
  assumes "server_env E avail queued qcap qclosed receivers pending bcap"
    and "open_connection E t st = ((True, c), st')"
    and "0 < cfg_client_queue_capacity (st_config st)"
  shows "(\<exists>m. encode_server_event (env_codec E)
                (Ready (extract_topic (co_topic_key c)) (ai_client_id (tk_identity t))) = Some m
              \<and> queue_of queued st' (co_tx c) = [OutBinary m])
         \<and> st_clients st' (ai_tenant_id (tk_identity t), ai_client_id (tk_identity t))
             = Some \<lparr>ch_connection_id = st_next_connection_id st, ch_sender = co_tx c\<rparr>
         \<and> co_topic_key c = tenant_topic (ai_tenant_id (tk_identity t)) (normalize_topic (tk_topic t))
         \<and> co_rx c \<notin> topic_receivers receivers st (co_topic_key c)
         \<and> topic_receivers receivers st' = (topic_receivers receivers st)
             (co_topic_key c := insert (co_rx c) (topic_receivers receivers st (co_topic_key c)))
         \<and> m_active_connections (st_metrics st') = m_active_connections (st_metrics st) + 1"
proof -
  have c: "co_client_id c = ai_client_id (tk_identity t)" "co_tenant_id c = ai_tenant_id (tk_identity t)"
    "co_topic_key c = tenant_topic (ai_tenant_id (tk_identity t)) (normalize_topic (tk_topic t))"
    using assms(2) by (auto elim!: open_connection_eq open_subscribe_eq)
  then show ?thesis
    using server_env.open_connection_queue(1) [OF assms TrueI] open_connection_entry [OF assms(2)]
      open_connection_control(1,3) [OF assms(2)] server_env.open_connection_topic [OF assms(1,2)]
    by simp
qed

theorem connection_opens_witness:
  "queue_of (\<lambda>(n, cl, ms). ms) demo_app2 0 = [OutBinary (demo_kind ''ready'')]
   \<and> st_clients demo_app2 ([2], [1]) = Some \<lparr>ch_connection_id = 1, ch_sender = 0\<rparr>"
proof -
  have "0 < cfg_client_queue_capacity (st_config demo_app1)"
    and "st_next_connection_id demo_app1 = 1"
    by (simp_all add: demo_app1_eq world_new_def demo_new_app)
  with connection_opens [OF demo.server_env_axioms demo_opened] show ?thesis
    by (simp add: demo_conn_def demo_ticket_def)
qed

text \<open>
  C28: a connection is in the registry before its \<open>Ready\<close> event is queued.
  When \<open>POST /api/direct\<close> runs in between, the first event the client gets is the direct
  message; with \<open>client_queue_capacity = 1\<close> the \<open>Ready\<close> event is dropped and the connection
  runs without it.
\<close>

theorem ready_may_come_second:
  fixes E :: "('s, 'b, 'q, 'k, 'v) env" and body :: "'v direct_body"
  assumes "server_env E avail queued qcap qclosed receivers pending bcap"
    and "w_sessions w s = Some (Upgrading t)"
    and "0 < cfg_client_queue_capacity (st_config (w_app w))"
    and "resolve_identity E now_secs headers (w_app w) = Inr identity"
    and "ai_tenant_id identity = ai_tenant_id (tk_identity t)" "db_to body = ai_client_id (tk_identity t)"
    and "encode_server_event (env_codec E) (DirectMessage (ai_client_id identity) (db_to body)
           (db_request_id body) (db_payload body)) = Some m"
    and "encode_server_event (env_codec E)
           (Ready (extract_topic (tenant_topic (ai_tenant_id (tk_identity t)) (normalize_topic (tk_topic t))))
              (ai_client_id (tk_identity t))) = Some r"
  shows "\<exists>w' v. steps E w w' \<and> w_sessions w' s = Some (Live v) \<and> lv_wire v = [] \<and> lv_holding v = None
           \<and> queue_of queued (w_app w') (co_tx (lv_conn v))
               = OutBinary m # (if cfg_client_queue_capacity (st_config (w_app w)) = 1 then []
                                else [OutBinary r])"
  by (rule server_env.ready_overtaken [OF assms])

theorem ready_may_come_second_witness:
  "\<exists>w' v. steps demo_env (demo_second demo_world1) w' \<and> w_sessions w' 0 = Some (Live v)
     \<and> queue_of (\<lambda>(n, cl, ms). ms) (w_app w') (co_tx (lv_conn v))
         = [OutBinary (demo_kind ''direct_message''), OutBinary (demo_kind ''ready'')]"
proof -
  let ?w = "demo_second demo_world1"
  let ?body = "\<lparr>db_to = [1], db_request_id = None, db_payload = ()\<rparr>"
  let ?id = "\<lparr>ai_client_id = lit ''api'', ai_tenant_id = lit ''default''\<rparr>"
  have s: "w_sessions ?w 0 = Some (Upgrading demo_ticket_default)"
    and app: "w_app ?w = demo_app1" by (simp_all add: demo_second_def demo_sessions)
  have cap: "cfg_client_queue_capacity (st_config demo_app1) = 4" and auth: "st_auth demo_app1 = None"
    by (simp_all add: demo_app1_eq world_new_def demo_new_app)
  have id: "resolve_identity demo_env 0 no_headers (w_app ?w) = Inr ?id"
    by (simp add: resolve_identity_def app auth)
  show ?thesis
    using ready_may_come_second [OF demo.server_env_axioms s _ id, of ?body] cap
    by (simp add: app demo_ticket_default_def demo_ticket_def) fastforce
qed

text \<open>
  C21: a writer that holds nothing terminates on what is queued: after as many
  rounds of taking a message and sending it with success as there are messages it has put
  exactly these on the wire, in order, has counted each once, and waits for more.
\<close>

theorem writer_drains:
  assumes "server_env E avail queued qcap qclosed receivers pending bcap"
    and "st_chans st (co_tx c) = Some q"
  shows "\<exists>st'. writer_run E c (length (queued q)) st = Some (map into_ws_message (queued q), st')
           \<and> writer_step E c QueueReady (None, st') = None
           \<and> st_metrics st' = (message_out ^^ length (queued q)) (st_metrics st)"
  using server_env.writer_run_drains [OF assms] assms(2) by (simp add: queue_of_def)

theorem writer_drains_witness:
  "\<exists>st'. writer_run demo_env demo_conn 1 demo_app2 = Some ([WsBinary (demo_kind ''ready'')], st')
     \<and> writer_step demo_env demo_conn QueueReady (None, st') = None"
proof -
  have "st_chans demo_app2 (co_tx demo_conn) = Some (4, False, [OutBinary (demo_kind ''ready'')])"
    by (simp add: demo_app2_eq demo_conn_def)
  from writer_drains [OF demo.server_env_axioms this] show ?thesis
    by (auto simp: into_ws_message_def)
qed

text \<open>
  C33: \<open>unregister_client\<close> is not atomic. When the old connection of a client has
  found its own entry, and the client's new connection registers before the old one removes
  the entry, the removal takes the new registration away: the new connection runs, but no
  direct message reaches it. Without the interleaving the new entry stays.
\<close>

theorem reconnect_race:
  assumes "w_sessions w s = Some (Unregistering t c)" "w_sessions w s2 = Some (Upgrading t2)"
    and "unregister_check (co_client_id c) (co_tenant_id c) (co_connection_id c) (w_app w)"
    and "open_connection E t2 (w_app w) = ((True, c2), st)"
    and "co_client_id c2 = co_client_id c" "co_tenant_id c2 = co_tenant_id c"
    and "co_connection_id c2 \<noteq> co_connection_id c"
  shows "(\<exists>w' v. steps E w w' \<and> w_sessions w' s2 = Some (Live v) \<and> lv_conn v = c2
             \<and> lv_reader v = Running \<and> lv_writer v = Running \<and> lv_fanout v = Running
             \<and> (\<forall>m. \<not> fst (send_to_client E (co_client_id c2) (co_tenant_id c2) m (w_app w'))))
         \<and> unregister_client (co_client_id c) (co_tenant_id c) (co_connection_id c) st = st"
proof
  have ne: "s2 \<noteq> s" using assms(1,2) by auto
  let ?w1 = "put_session s (Leaving t c True) (w_app w) w"
  let ?v = "live_new t2 c2 (st_config st) 0"
  let ?w2 = "put_session s2 (Live ?v) st ?w1"
  let ?w3 = "put_session s (Leaving t c False)
               (unregister_remove (co_client_id c) (co_tenant_id c) st) ?w2"
  have "step E w (Some (co_tenant_id c)) ?w1"
    using step.unregister_get [OF assms(1), of E] assms(3) by simp
  moreover have "steps E ?w1 ?w2"
    using open_connection_steps [of ?w1 s2 t2 E True c2 st 0] ne assms(2,4) by simp
  moreover have "step E ?w2 (Some (co_tenant_id c)) ?w3"
    using step.unregister_entry [of ?w2 s t c E] ne by simp
  ultimately have "steps E w ?w3" by (meson steps.intros steps_trans)
  moreover have "w_sessions ?w3 s2 = Some (Live ?v)" using ne by simp
  moreover have "\<not> fst (send_to_client E (co_client_id c2) (co_tenant_id c2) m (w_app ?w3))" for m
    by (simp add: send_to_client_def unregister_remove_def assms(5,6))
  ultimately show "\<exists>w' v. steps E w w' \<and> w_sessions w' s2 = Some (Live v) \<and> lv_conn v = c2
             \<and> lv_reader v = Running \<and> lv_writer v = Running \<and> lv_fanout v = Running
             \<and> (\<forall>m. \<not> fst (send_to_client E (co_client_id c2) (co_tenant_id c2) m (w_app w')))"
    by (intro exI [of _ ?w3] exI [of _ ?v] conjI) (simp_all add: live_new_def)
  show "unregister_client (co_client_id c) (co_tenant_id c) (co_connection_id c) st = st"
    using open_connection_entry [OF assms(4)] assms(5-7)
    by (simp add: unregister_client_def unregister_check_def)
qed

theorem reconnect_race_witness:
  "\<exists>w' v. steps demo_env
        (demo_world2\<lparr>w_sessions := [0 \<mapsto> Unregistering demo_ticket demo_conn, 1 \<mapsto> Upgrading demo_ticket]\<rparr>) w'
     \<and> w_sessions w' 1 = Some (Live v) \<and> lv_reader v = Running
     \<and> \<not> fst (send_to_client demo_env [1] [2] [5] (w_app w'))"
proof -
  let ?w = "demo_world2\<lparr>w_sessions := [0 \<mapsto> Unregistering demo_ticket demo_conn, 1 \<mapsto> Upgrading demo_ticket]\<rparr>"
  have w: "w_sessions ?w 0 = Some (Unregistering demo_ticket demo_conn)"
    "w_sessions ?w 1 = Some (Upgrading demo_ticket)"
    "unregister_check (co_client_id demo_conn) (co_tenant_id demo_conn) (co_connection_id demo_conn) (w_app ?w)"
    by (simp_all add: demo_sessions unregister_check_def demo_conn_def demo_app2_eq)
  obtain ok c2 st where op: "open_connection demo_env demo_ticket (w_app ?w) = ((ok, c2), st)"
    by (metis prod.exhaust)
  have ok: "ok = True"
    using op by (auto simp: open_connection_def open_ready_def Let_def split: prod.splits)
  have id: "co_connection_id c2 = 2"
    using open_connection_control(1) [OF op] by (simp add: demo_sessions demo_app2_eq)
  have who: "co_client_id c2 = [1]" "co_tenant_id c2 = [2]"
    using open_connection_control(4,5) [OF op] by (simp_all add: demo_ticket_def)
  from reconnect_race [OF w op [unfolded ok]] id who show ?thesis
    by (auto simp: demo_conn_def)
qed

text \<open>
  When the \<open>Ready\<close> event cannot be encoded, \<open>connection_loop\<close>
  returns early, the session ends and gives its permits back, but its registry entry stays
  behind, with a queue that takes no message.
\<close>

lemma ready_failure_leaves_entry:
  assumes "server_env E avail queued qcap qclosed receivers pending bcap"
    and "w_sessions w s = Some (Upgrading t)"
    and "open_connection E t (w_app w) = ((False, c), st)"
    and "0 < cfg_client_queue_capacity (st_config (w_app w))"
  shows "\<exists>w'. steps E w w' \<and> w_sessions w' s = None
           \<and> st_clients (w_app w') (co_tenant_id c, co_client_id c)
               = Some \<lparr>ch_connection_id = co_connection_id c, ch_sender = co_tx c\<rparr>
           \<and> (\<forall>m. \<not> fst (send_to_client E (co_client_id c) (co_tenant_id c) m (w_app w')))"
proof -
  let ?w1 = "put_session s (Leaving t c False) st w"
  let ?w2 = "end_session s (handle_socket_end E 0 t st) ?w1"
  have "steps E w ?w1" using open_connection_steps [OF assms(2,3), of 0] by simp
  moreover have "step E ?w1 None ?w2" using step.left [of ?w1 s t c E 0] by simp
  ultimately have run: "steps E w ?w2" by (meson steps.intros steps_trans)
  have entry: "st_clients (w_app ?w2) (co_tenant_id c, co_client_id c)
      = Some \<lparr>ch_connection_id = co_connection_id c, ch_sender = co_tx c\<rparr>"
    using open_connection_entry [OF assms(3)] by (simp add: handle_socket_end_frame)
  obtain q where "st_chans st (co_tx c) = Some q" "qclosed q"
    using server_env.open_connection_queue(2) [OF assms(1,3,4)] by blast
  then have "\<not> fst (send_to_client E (co_client_id c) (co_tenant_id c) m (w_app ?w2))" for m
    using entry server_env.send_to_client_iff [OF assms(1)]
    by (auto simp: handle_socket_end_frame)
  with run entry show ?thesis by (intro exI [of _ ?w2]) simp
qed

section \<open>Admission\<close>

text \<open>
  C9: a handler that nothing interrupts in a reachable state gives the answer
  of \<open>ws_handler\<close>, and that is the reference decision, in this order: the address limiter
  refuses (429); \<open>max_connections\<close> slots are taken (503); the token is missing or invalid
  (401); the tenant has as many sessions as its cap (429); otherwise the request is
  admitted. No other request is refused.
\<close>

theorem admission_decides:
  assumes "server_env E avail queued qcap qclosed receivers pending bcap"
    and "reachable E cfg w" and "unat (cfg_max_connections cfg) + env_workers E < 2 ^ 32 - 1"
    and "ws_handler E keys clk now_secs query peer headers (w_app w) = (r, st')"
  shows "run_stages E keys clk now_secs 3 (Arrived query peer headers) (w_app w) = (Answer r, st')
         \<and> refusal r = admission_decision
           (ip_verdict keys clk (resolve_client_ip peer headers (cfg_trust_proxy_headers cfg)) (w_app w))
           (card (sessions_where holds_slot w) < unat (cfg_max_connections cfg))
           (ws_identity E now_secs query (w_app w))
           (\<lambda>t. \<exists>cap. cfg_tenant_max_connections cfg = Some cap
                  \<and> card (sessions_where (\<lambda>x. session_tenant x = Some t) w) = unat cap)"
proof -
  note cfg = reachable_config [OF assms(2)]
  note books = server_env.reachable_books [OF assms(1-3)]
  note counts = books_counts [OF books reachable_wf [OF assms(2)]]
  have ok: "tenant_limits_ok avail (w_app w)"
    using books by (simp add: books_ok_def books_def accounts_def tenant_account_def)
  have slots: "0 < avail (st_connection_limit (w_app w))
      \<longleftrightarrow> card (sessions_where holds_slot w) < unat (cfg_max_connections cfg)"
    using counts(1) [unfolded cfg] by linarith
  have full: "tenant_cap (w_app w) = Some (tenant_used avail (w_app w) t) \<longleftrightarrow>
      (\<exists>cap. cfg_tenant_max_connections cfg = Some cap
           \<and> card (sessions_where (\<lambda>x. session_tenant x = Some t) w) = unat cap)" for t
  proof (cases "cfg_tenant_max_connections cfg")
    case None
    then show ?thesis using reachable_tenant_cap [OF assms(2)] by simp
  next
    case (Some cap)
    then have "sessions_where (\<lambda>x. session_tenant x = Some t) w = sessions_where (holds_tenant_permit t) w"
      using reachable_tenant_sessions [OF assms(2)] by simp
    then show ?thesis using Some reachable_tenant_cap [OF assms(2)] counts(2) by auto
  qed
  have "run_stages E keys clk now_secs 3 (Arrived query peer headers) (w_app w) = (Answer r, st')"
    by (simp add: run_stages_handler assms(4))
  with server_env.ws_handler_decides [OF assms(1,4) ok refl] show ?thesis
    by (simp only: cfg slots full)
qed

theorem admission_decides_witness:
  "refusal (fst (ws_handler demo_env [] demo_clock 0 demo_query (demo_peer\<lparr>sa_ip := IpV4 8\<rparr>) no_headers demo_app2))
     = Some (429, ''tenant connection limit exceeded'' @ [newline])"
proof -
  let ?peer = "demo_peer\<lparr>sa_ip := IpV4 8\<rparr>"
  have ip: "ip_verdict [] demo_clock (resolve_client_ip ?peer no_headers (cfg_trust_proxy_headers demo_config))
      demo_app2 = None"
    by (simp add: ip_verdict_def resolve_client_ip_def demo_app2_eq demo_app1_eq world_new_def
        demo_new_app try_acquire_def Let_def reap_idle_def ip_entry_def)
  have "sessions_where (\<lambda>x. session_tenant x = Some [2]) demo_world2 = {0}"
    by (auto simp: sessions_where_def demo_sessions session_tenant_def demo_live_def live_new_def demo_ticket_def)
  then have one: "card (sessions_where (\<lambda>x. session_tenant x = Some [2]) demo_world2) = 1" by simp
  have id: "ws_identity demo_env 0 demo_query demo_app2 = Inr \<lparr>ai_client_id = [1], ai_tenant_id = [2]\<rparr>"
    by (simp add: ws_identity_def demo_query_def ws_query_of_def demo_app2_eq demo_app1_eq
        world_new_def demo_new_app)
  obtain r st' where h: "ws_handler demo_env [] demo_clock 0 demo_query ?peer no_headers (w_app demo_world2) = (r, st')"
    by (rule prod.exhaust)
  have "sessions_where holds_slot demo_world2 = {0}"
    by (auto simp: sessions_where_def demo_sessions holds_slot_def)
  with admission_decides [OF demo.server_env_axioms demo_reachable(2) _ h] h ip one id show ?thesis
    by (simp add: demo_sessions admission_decision_refuse)
qed

text \<open>
  C14: a handler that is still running may hold a slot for a request that
  will be refused, but no more than that: when a request is turned away because the server
  is full, the admitted sessions fall short of \<open>max_connections\<close> by less than the number of
  worker threads.
\<close>

theorem full_only_near_cap:
  assumes "server_env E avail queued qcap qclosed receivers pending bcap"
    and "reachable E cfg w" and "unat (cfg_max_connections cfg) + env_workers E < 2 ^ 32 - 1"
    and "w_sessions w s = Some (Handling g)"
    and "ws_stage_step E keys clk now_secs g (w_app w) = (Answer (Refuse service_unavailable m), st)"
  shows "unat (cfg_max_connections cfg)
           < card (sessions_where (\<lambda>x. session_ticket x \<noteq> None) w) + env_workers E"
  by (rule server_env.full_admitted [OF assms])

theorem full_only_near_cap_witness:
  "1 < card (sessions_where (\<lambda>x. session_ticket x \<noteq> None) demo_full) + env_workers demo_env
   \<and> sessions_where (\<lambda>x. session_ticket x \<noteq> None) demo_full = {0}"
proof -
  have "sessions_where (\<lambda>x. session_ticket x \<noteq> None) demo_full = {0}"
    by (auto simp: sessions_where_def demo_full_sessions split: if_splits)
  moreover have "w_sessions demo_full 1 = Some (Handling (IpAdmitted demo_query None))"
    by (simp add: demo_full_sessions)
  ultimately show ?thesis
    using full_only_near_cap [OF demo.server_env_axioms demo_full_reachable _ _ demo_full_step]
    by (simp add: demo_full_config_def)
qed

text \<open>
  C15: a refused request leaves every limit as it was: the free slots,
  the tenants' and the addresses' counts; it touches no registry entry, queue or topic, and
  counts one rejected connection.
\<close>

theorem refusal_leaks_nothing:
  assumes "server_env E avail queued qcap qclosed receivers pending bcap"
    and "reachable E cfg w" and "unat (cfg_max_connections cfg) + env_workers E < 2 ^ 32 - 1"
    and "ws_handler E keys clk now_secs query peer headers (w_app w) = (Refuse status m, st')"
  shows "avail (st_connection_limit st') = avail (st_connection_limit (w_app w))
         \<and> tenant_used avail st' = tenant_used avail (w_app w)
         \<and> (\<forall>l l'. st_ip_limiter (w_app w) = Some l \<and> st_ip_limiter st' = Some l'
                \<longrightarrow> ip_in_use l' = ip_in_use l)
         \<and> st_clients st' = st_clients (w_app w) \<and> st_chans st' = st_chans (w_app w)
         \<and> st_topics st' = st_topics (w_app w)
         \<and> m_rejected_connections (st_metrics st') = m_rejected_connections (st_metrics (w_app w)) + 1
         \<and> m_accepted_connections (st_metrics st') = m_accepted_connections (st_metrics (w_app w))"
proof -
  let ?M = "image_mset session_holding (ran_mset (w_sessions w))"
  have acc: "accounts avail (w_app w) ?M"
    using server_env.reachable_books [OF assms(1-3)] by (simp add: books_ok_def books_def)
  have acc': "accounts avail st' ?M"
    using server_env.ws_handler_accounts [OF assms(1,4) acc]
      server_env.few_sessions [OF assms(1) server_env.reachable_books [OF assms(1-3)] reachable_wf [OF assms(2)]]
      reachable_handlers [OF assms(2)] reachable_config [OF assms(2)] assms(3) by simp
  note frame = ws_handler_frame [OF assms(4)]
  from server_env.accounts_same [OF assms(1) acc acc' frame(1)] accounts_ip_same [OF acc acc']
    refused_metrics [OF assms(4)] frame(2-4) show ?thesis by blast
qed

theorem refusal_leaks_nothing_witness:
  "st_connection_limit (snd (ws_handler demo_env [] demo_clock 0 demo_query demo_peer no_headers demo_app2)) = 1"
proof -
  obtain status m st' where h: "ws_handler demo_env [] demo_clock 0 demo_query demo_peer no_headers (w_app demo_world2)
      = (Refuse status m, st')"
    by (simp add: demo_sessions ws_handler_def resolve_client_ip_def demo_app2_eq demo_app1_eq
        world_new_def demo_new_app admit_ip_def try_acquire_def Let_def reap_idle_def ip_entry_def
        put_state_def demo_peer_def)
  from refusal_leaks_nothing [OF demo.server_env_axioms demo_reachable(2) _ h] h show ?thesis
    by (simp add: demo_sessions) (simp add: demo_app2_eq demo_app1_eq)
qed

text \<open>
  C5: with JWT configured, the client and tenant of every admitted session are
  the claims of a token that was signed for the configured key and algorithm and was not
  expired when it was checked; the query parameters have no say.
\<close>

theorem sessions_authenticated:
  assumes "jwt_decoder (env_jwt E) sig_ok" and "reachable E cfg w"
    and "auth_verifier_from_config (env_jwt E) cfg = Some v" and "w_sessions w s = Some x"
    and "session_ticket x = Some t"
  shows "\<exists>token now_secs. token_identity sig_ok v token now_secs (tk_identity t)"
  by (rule reachable_session_token [OF assms])

theorem sessions_authenticated_witness:
  "\<exists>w x t. reachable demo_env (default_config\<lparr>cfg_max_connections := 2, cfg_jwt_secret := Some [7]\<rparr>) w
     \<and> w_sessions w 0 = Some x \<and> session_ticket x = Some t
     \<and> tk_identity t = \<lparr>ai_client_id = [1], ai_tenant_id = lit ''default''\<rparr>
     \<and> (\<exists>token now_secs. token_identity tag_signed \<lparr>av_decoding = Hmac 7, av_issuer = None\<rparr> token now_secs
          (tk_identity t))"
proof -
  let ?cfg = "default_config\<lparr>cfg_max_connections := 2, cfg_jwt_secret := Some [7]\<rparr>"
  let ?w = "world_new demo_env ?cfg"
  let ?id = "\<lparr>ai_client_id = [1], ai_tenant_id = lit ''default''\<rparr>"
  let ?t = "\<lparr>tk_topic = default_topic, tk_identity = ?id, tk_ip_permit = None, tk_tenant_permit = None\<rparr>"
  have auth: "auth_verifier_from_config (env_jwt demo_env) ?cfg
      = Some \<lparr>av_decoding = Hmac 7, av_issuer = None\<rparr>"
    by (simp add: auth_verifier_from_config_def tag_jwt_def default_config_def)
  obtain st where h: "ws_handler demo_env [] demo_clock 0 (ws_query_of None (Some [9]) (Some [9]) (Some [7, 1]))
      demo_peer no_headers (w_app ?w) = (Upgrade ?t, st)"
    by (simp add: world_new_def app_state_new_def ws_handler_def Let_def ip_limiter_from_config_def
        admit_ip_def acquire_slot_def counting_sem_def ws_identity_def ws_query_of_def
        auth_verifier_from_config_def verify_def decoding_key_def verifier_validation_def tag_jwt_def
        acquire_tenant_permit_def default_config_def)
  let ?w' = "start_session (Upgrading ?t) st ?w"
  have reach: "reachable demo_env ?cfg ?w'"
    using reachable_steps [OF ws_handler_steps [OF h] reachable.start]
    by (simp add: handlers_def sessions_where_def world_new_def)
  have s: "w_sessions ?w' 0 = Some (Upgrading ?t)" by (simp add: world_new_def)
  have jwt: "jwt_decoder (env_jwt demo_env) tag_signed" by (simp add: tag_decoder.jwt_decoder_axioms)
  from sessions_authenticated [OF jwt reach auth s] s reach show ?thesis
    by (intro exI [of _ ?w'] exI [of _ "Upgrading ?t"] exI [of _ ?t]) simp
qed



section \<open>Rates and limits\<close>

text \<open>
  C17: in every reachable state every token bucket (per address, per
  tenant, per connection) is well formed: its level lies between 0 and its capacity, the
  capacity is a number of the format and at least 1, the rate at least 1; a connection's
  limiter has the configured burst and rate.
\<close>

theorem limiters_well_formed:
  assumes "reachable E cfg w"
  shows "limits_wf cfg w"
  by (rule reachable_limits_wf [OF assms])

theorem limiters_well_formed_witness: "limits_wf demo_config demo_world3"
  by (rule limiters_well_formed [OF demo_reachable3])

text \<open>
  C18: of any frames a running connection receives from now on, the number
  that passes its limiter is at most the burst plus the rate times the elapsed seconds, up
  to the rounding of the floating-point operations.
\<close>

theorem connection_rate_bound:
  assumes "reachable E cfg w" and "w_sessions w s = Some (Live v)"
    and "sorted (rl_last_refill (lv_limiter v) # ts)"
    and "consume_run rate_limiter_allow (lv_limiter v) ts = (oks, l')"
  shows "of_nat (admitted oks) \<le>
           of_nat (max (unat (cfg_message_burst cfg)) 1)
             + of_nat (duration_since (last (rl_last_refill (lv_limiter v) # ts)) (rl_last_refill (lv_limiter v)))
                 / 1000000000 * of_nat (max (unat (cfg_max_messages_per_second cfg)) 1) * (1 + 1 / 2 ^ 53) ^ 4
             + of_nat (length ts) * ((of_nat (max (unat (cfg_message_burst cfg)) 1) :: rat) / 2 ^ 52)"
proof -
  have ok: "limiter_ok cfg (lv_limiter v)"
    using reachable_limits_wf [OF assms(1)] assms(2) by (simp add: limits_wf_def)
  then have wf: "rl_wf (lv_limiter v)" unfolding limiter_ok_def by (rule conjunct1)
  have "0 \<le> rl_tokens l'" using rl.run_wf [OF wf assms(4)] by (simp add: bucket_wf_def)
  moreover have "rl_tokens (lv_limiter v) \<le> rl_capacity (lv_limiter v)"
    using wf by (simp add: bucket_wf_def)
  ultimately show ?thesis
    using rl.run_bound [OF wf assms(3,4)] ok by (simp add: limiter_ok_def del: of_nat_max)
qed

theorem connection_rate_bound_witness:
  "of_nat (admitted (fst (consume_run rate_limiter_allow demo_limiter2 [0, 0, 0]))) \<le> (201 :: rat)"
proof -
  obtain oks l' where run: "consume_run rate_limiter_allow (lv_limiter demo_live) [0, 0, 0] = (oks, l')"
    by (rule prod.exhaust)
  have s: "w_sessions demo_world2 0 = Some (Live demo_live)" by (simp add: demo_sessions)
  have refill: "rl_last_refill (lv_limiter demo_live) = 0"
    using demo_limiter2_eq by (simp add: demo_limiter2_def)
  from connection_rate_bound [OF demo_reachable(2) s _ run] refill run show ?thesis
    by (simp add: demo_limiter2_def duration_since_def)
qed

text \<open>
  C27: a client of a running connection that leaves at least a second
  before each frame passes the connection's limiter with every one of them, whatever it
  did before.
\<close>

theorem paced_client_never_limited:
  assumes "reachable E cfg w" and "w_sessions w s = Some (Live v)"
    and "sorted_wrt (\<lambda>a b. a + nanos_per_sec \<le> b) (rl_last_refill (lv_limiter v) # ts)"
  shows "fst (consume_run rate_limiter_allow (lv_limiter v) ts) = replicate (length ts) True"
proof -
  have "limiter_ok cfg (lv_limiter v)"
    using reachable_limits_wf [OF assms(1)] assms(2) by (simp add: limits_wf_def)
  then have "rl_wf (lv_limiter v)" unfolding limiter_ok_def by (rule conjunct1)
  then show ?thesis by (rule rl.run_spaced [OF _ assms(3)])
qed

theorem paced_client_never_limited_witness:
  "fst (consume_run rate_limiter_allow demo_limiter2 [nanos_per_sec, 2 * nanos_per_sec]) = [True, True]"
proof -
  have s: "w_sessions demo_world2 0 = Some (Live demo_live)" by (simp add: demo_sessions)
  have "rl_last_refill (lv_limiter demo_live) = 0"
    using demo_limiter2_eq by (simp add: demo_limiter2_def)
  with paced_client_never_limited [OF demo_reachable(2) s, of "[nanos_per_sec, 2 * nanos_per_sec]"]
  show ?thesis by (simp add: demo_limiter2_def numeral_2_eq_2)
qed

text \<open>
  C40: the rate limit of a tenant does not depend on the others: in any
  sequence of \<open>check_tenant_rate\<close> calls, from any state, what a tenant is answered is what it
  would be answered if the other tenants had sent nothing.
\<close>

theorem tenant_rates_independent:
  "filter (\<lambda>r. fst r = t) (fst (tenant_checks calls st))
     = fst (tenant_checks (filter (\<lambda>c. snd c = t) calls) st)"
  by (rule tenant_checks_independent) (rule refl)

text \<open>
  C32: reaping never removes an address with open connections, it removes only
  addresses idle for more than five minutes, and at most 64 of them in one call.
\<close>

theorem reap_keeps_active:
  assumes "il_states l ip = Some s"
  shows "(0 < is_concurrent s \<or> duration_since now (is_last_seen s) \<le> 300 * nanos_per_sec
            \<longrightarrow> il_states (reap_idle keys now l) ip = Some s)
         \<and> (il_states (reap_idle keys now l) ip = Some s \<or> il_states (reap_idle keys now l) ip = None)
         \<and> card {a. il_states l a \<noteq> None \<and> il_states (reap_idle keys now l) a = None} \<le> 64"
proof (rule reap_idle_cases [of keys now l ip])
  assume "il_states (reap_idle keys now l) ip = il_states l ip"
  with assms reap_idle_card [of l keys now] show ?thesis by simp
next
  fix s' assume none: "il_states (reap_idle keys now l) ip = None" and "il_states l ip = Some s'"
    and "idle_expired now s'"
  with assms have "is_concurrent s = 0 \<and> 300 * nanos_per_sec < duration_since now (is_last_seen s)"
    by (simp add: idle_expired_def IDLE_TTL_def duration_from_secs_def)
  with none reap_idle_card [of l keys now] show ?thesis by simp
qed

theorem reap_keeps_active_witness:
  "il_states (reap_idle [IpV4 7] (10 ^ 15) \<lparr>il_max_concurrent = None, il_rate_configured = False,
      il_refill_per_second = 1, il_burst = 1,
      il_states = [IpV4 7 \<mapsto> \<lparr>is_concurrent = 1, is_bucket = token_bucket_new 1 1 0, is_last_seen = 0\<rparr>]\<rparr>)
      (IpV4 7) = Some \<lparr>is_concurrent = 1, is_bucket = token_bucket_new 1 1 0, is_last_seen = 0\<rparr>"
  using reap_keeps_active [of "\<lparr>il_max_concurrent = None, il_rate_configured = False,
      il_refill_per_second = 1, il_burst = 1,
      il_states = [IpV4 7 \<mapsto> \<lparr>is_concurrent = 1, is_bucket = token_bucket_new 1 1 0, is_last_seen = 0\<rparr>]\<rparr>"
      "IpV4 7" "\<lparr>is_concurrent = 1, is_bucket = token_bucket_new 1 1 0, is_last_seen = 0\<rparr>" "10 ^ 15" "[IpV4 7]"]
  by simp

text \<open>
  C38: \<open>ip_max_concurrent\<close> is a \<open>usize\<close> that is cast to 32 bits: a cap that is a
  multiple of \<open>2 ^ 32\<close> becomes 0, and then every websocket request is refused with 429.
\<close>

theorem truncated_ip_cap:
  assumes "reachable E cfg w" and "cfg_ip_max_concurrent cfg = Some v" and "2 ^ 32 dvd unat v"
    and "ws_handler E keys clk now_secs query peer headers (w_app w) = (r, st')"
  shows "\<exists>m. r = Refuse 429 m"
proof -
  have "of_nat (unat v) = (0 :: u32)" using assms(3) by (simp add: word_of_nat_eq_0_iff del: of_nat_unat)
  then have zero: "ucast v = (0 :: u32)" by simp
  obtain l where l: "st_ip_limiter (w_app w) = Some l" "il_max_concurrent l = Some 0"
    using reachable_ip_cap [OF assms(1)] assms(2) zero by (auto simp: ip_cap_def bind_eq_Some_conv)
  have "\<not> admit_ip keys clk (resolve_client_ip peer headers (cfg_trust_proxy_headers (st_config (w_app w))))
      (w_app w) = (Inr p, st1)" for p st1
    using l by (auto elim!: admit_ip_eq zero_cap_refuses [OF l(2)])
  with assms(4) show ?thesis
    by (cases rule: ws_handler_cases) (auto simp: too_many_requests_def)
qed

theorem truncated_ip_cap_witness:
  "\<exists>m. fst (ws_handler demo_env [] demo_clock 0 demo_query demo_peer no_headers
        (app_state_new demo_env (default_config\<lparr>cfg_ip_max_concurrent := Some 4294967296\<rparr>))) = Refuse 429 m"
proof -
  let ?cfg = "default_config\<lparr>cfg_ip_max_concurrent := Some 4294967296\<rparr>"
  obtain r st' where h: "ws_handler demo_env [] demo_clock 0 demo_query demo_peer no_headers
      (w_app (world_new demo_env ?cfg)) = (r, st')" by (rule prod.exhaust)
  from truncated_ip_cap [OF reachable.start _ _ h, of 4294967296] h show ?thesis
    by (simp add: world_new_def)
qed

section \<open>Configuration and input\<close>

text \<open>
  C35: with only \<open>jwt_public_key\<close> set, to a PEM that is none of the
  three kinds of key, the server starts without authentication: whatever the query says is
  the identity, with or without a token.
\<close>

theorem unreadable_key_disables_auth:
  assumes "reachable E cfg w"
    and "cfg_jwt_secret cfg = None" and "cfg_jwt_public_key cfg = Some pem"
    and "jwt_from_rsa_pem (env_jwt E) pem = None" "jwt_from_ec_pem (env_jwt E) pem = None"
      "jwt_from_ed_pem (env_jwt E) pem = None"
  shows "ws_identity E now_secs (ws_query_of topic (Some client) (Some tenant) token) (w_app w)
           = Inr \<lparr>ai_client_id = client, ai_tenant_id = tenant\<rparr>
         \<and> resolve_identity E now_secs headers (w_app w)
           = Inr \<lparr>ai_client_id = lit ''api'', ai_tenant_id = lit ''default''\<rparr>"
  using reachable_auth [OF assms(1)] assms(2-6)
  by (simp add: ws_identity_def resolve_identity_def ws_query_of_def auth_verifier_from_config_def
      or_else_def Let_def)

theorem unreadable_key_disables_auth_witness:
  "ws_identity demo_env 0 (ws_query_of None (Some [1]) (Some [2]) None)
     (app_state_new demo_env (default_config\<lparr>cfg_jwt_public_key := Some []\<rparr>))
     = Inr \<lparr>ai_client_id = [1], ai_tenant_id = [2]\<rparr>"
  using unreadable_key_disables_auth [OF reachable.start, of "default_config\<lparr>cfg_jwt_public_key := Some []\<rparr>"
      "[]" demo_env 0 None "[1]" "[2]" None no_headers]
  by (simp add: world_new_def default_config_def tag_jwt_def)

text \<open>
  C37: without \<open>trust_proxy_headers\<close> the headers have no influence on
  the address a request is counted under. With it, and a proxy that appends the peer to the
  client's \<open>X-Forwarded-For\<close> (nginx's \<open>$proxy_add_x_forwarded_for\<close>), the address is the one
  the client wrote.
\<close>

theorem forwarded_for_spoofable:
  assumes "headers ''x-forwarded-for'' = Some (claimed @ lit '', '' @ appended)"
    and "char_comma \<notin> set claimed" and "parse_ip_addr (trim claimed) = Some ip"
  shows "resolve_client_ip peer headers True = ip \<and> resolve_client_ip peer headers False = sa_ip peer"
proof -
  have comma: "lit '', '' = char_comma # lit '' ''" by (simp add: lit_def char_comma_def)
  have "split_first char_comma (claimed @ lit '', '' @ appended) = claimed"
    using assms(2) by (auto simp: split_first_def takeWhile_append comma)
  with assms(1,3) show ?thesis by (simp add: resolve_client_ip_def)
qed

theorem forwarded_for_spoofable_witness:
  "resolve_client_ip demo_peer ((\<lambda>_. None)(''x-forwarded-for'' := Some (lit ''1.2.3.4'' @ lit '', '' @ lit ''9.9.9.9'')))
     True = IpV4 0x01020304"
proof -
  have "char_comma \<notin> set (lit ''1.2.3.4'')" by (simp add: lit_def char_comma_def)
  moreover have "parse_ip_addr (trim (lit ''1.2.3.4'')) = Some (IpV4 0x01020304)"
    by (simp add: parse_ip_eval trim_def trim_start_def trim_end_def is_whitespace_def whitespace_chars_def)
  ultimately show ?thesis
    using forwarded_for_spoofable [of "(\<lambda>_. None)(''x-forwarded-for'' := Some (lit ''1.2.3.4'' @ lit '', '' @ lit ''9.9.9.9''))"
        "lit ''1.2.3.4''" "lit ''9.9.9.9''" "IpV4 0x01020304" demo_peer] by simp
qed

text \<open>
  C29: a token of the minting tool, made with the server's secret, is
  accepted until it expires, with the client and tenant the tool was given; when the server
  requires an issuer, the tool must be given the same.
\<close>

theorem minted_token_verifies:
  assumes "jwt_encoder jwt enc"
    and "mint_token enc env minted = Some token" and "mint_claims env minted = Some c"
    and "env ''WS_JWT_SECRET'' = Some secret" and "cfg_jwt_secret cfg = Some secret"
    and "cfg_jwt_issuer cfg = None \<or> cfg_jwt_issuer cfg = env ''ISS''"
    and "int now \<le> sint (cl_exp c)"
  shows "\<exists>v. auth_verifier_from_config jwt cfg = Some v
           \<and> verify jwt now v token
               = Inr \<lparr>ai_client_id = unwrap_or (env ''CLIENT_ID'') (lit ''alice''),
                      ai_tenant_id = unwrap_or (env ''TENANT_ID'') (lit ''default'')\<rparr>"
  using jwt_encoder.minted_verifies [OF assms(1,2,4,3,7,6)] assms(5)
  by (simp add: auth_verifier_from_config_def)

theorem minted_token_verifies_witness:
  "\<exists>token v. mint_token plain_enc [''WS_JWT_SECRET'' \<mapsto> [7], ''CLIENT_ID'' \<mapsto> [1]] 1000 = Some token
     \<and> auth_verifier_from_config plain_jwt (default_config\<lparr>cfg_jwt_secret := Some [7]\<rparr>) = Some v
     \<and> verify plain_jwt 4000 v token = Inr \<lparr>ai_client_id = [1], ai_tenant_id = lit ''default''\<rparr>"
proof -
  let ?env = "[''WS_JWT_SECRET'' \<mapsto> [7], ''CLIENT_ID'' \<mapsto> [1]]"
  let ?c = "\<lparr>cl_sub = [1], cl_tenant_id = None, cl_exp = 4600, cl_iss = None\<rparr>"
  have claims: "mint_claims ?env 1000 = Some ?c" by (simp add: mint_claims_def now_plus_def)
  have mint: "mint_token plain_enc ?env 1000 = Some (plain_token [7] ?c)"
    using claims by (simp add: mint_token_def plain_enc_def)
  from minted_token_verifies [OF plain_encoder.jwt_encoder_axioms mint claims, of "[7]"
      "default_config\<lparr>cfg_jwt_secret := Some [7]\<rparr>" 4000] mint
  show ?thesis by (auto simp: default_config_def)
qed

text \<open>
  C30: for a tenant without a colon the client gets its normalized topic name back
  from the storage key. A normalized name is not empty, has at most 128 characters and no
  leading slash, and normalizing it again changes it exactly when it begins or ends with
  white space, which can be left behind a leading slash (\<open>normalize_topic_slash_space\<close>) or
  before the 129th character.
\<close>

theorem topic_names:
  assumes "char_colon \<notin> set tenant"
  shows "extract_topic (tenant_topic tenant (normalize_topic raw)) = normalize_topic raw
         \<and> normalize_topic raw \<noteq> [] \<and> length (normalize_topic raw) \<le> 128
         \<and> hd (normalize_topic raw) \<noteq> char_slash
         \<and> (normalize_topic (normalize_topic raw) = normalize_topic raw
              \<longleftrightarrow> trim (normalize_topic raw) = normalize_topic raw)"
  using extract_tenant_topic [OF assms] normalize_topic_length normalize_topic_no_slash
    normalize_topic_twice by simp

theorem topic_names_witness:
  "extract_topic (tenant_topic (lit ''t1'') (normalize_topic (lit ''/room''))) = normalize_topic (lit ''/room'')"
  using topic_names [of "lit ''t1''" "lit ''/room''"] by (simp add: lit_def char_colon_def)

text \<open>
  C36: the topics of a tenant whose name has a colon are topics of the
  tenant named by the part before the colon: every storage key of the one is a key of the
  other, and for a clean topic name the two share a topic that both can subscribe and
  publish to.
\<close>

theorem colon_tenants_collide:
  assumes "u \<noteq> []" "hd u \<noteq> char_slash" "trim (u @ char_colon # normalize_topic raw) = u @ char_colon # normalize_topic raw"
    and "length u + 1 + length (normalize_topic raw) \<le> 128"
  shows "tenant_keys (t @ char_colon # u) \<subseteq> tenant_keys t
         \<and> (\<exists>raw'. tenant_topic (t @ char_colon # u) (normalize_topic raw)
                    = tenant_topic t (normalize_topic raw'))
         \<and> t @ char_colon # u \<noteq> t"
proof (intro conjI)
  show "tenant_keys (t @ char_colon # u) \<subseteq> tenant_keys t"
    by (auto simp: tenant_keys_def tenant_topic_collision)
  have "normalize_topic (u @ char_colon # normalize_topic raw) = u @ char_colon # normalize_topic raw"
    by (rule normalize_topic_clean) (use assms in auto)
  then show "\<exists>raw'. tenant_topic (t @ char_colon # u) (normalize_topic raw)
                    = tenant_topic t (normalize_topic raw')"
    by (intro exI [of _ "u @ char_colon # normalize_topic raw"]) (simp add: tenant_topic_collision)
qed simp

theorem colon_tenants_collide_witness:
  "\<exists>raw'. tenant_topic (lit ''a:b'') (normalize_topic (lit ''c'')) = tenant_topic (lit ''a'') (normalize_topic raw')"
proof -
  have n: "normalize_topic (lit ''c'') = lit ''c''"
    by (simp add: normalize_topic_def lit_def trim_def trim_start_def trim_end_def
        trim_start_matches_def is_whitespace_def whitespace_chars_def char_slash_def Let_def)
  have "trim (lit ''b'' @ char_colon # lit ''c'') = lit ''b'' @ char_colon # lit ''c''"
    by (simp add: lit_def trim_def trim_start_def trim_end_def is_whitespace_def whitespace_chars_def
        char_colon_def)
  from colon_tenants_collide [of "lit ''b''" "lit ''c''" "lit ''a''", unfolded n, OF _ _ this] n
  show ?thesis by (simp add: lit_def char_slash_def char_colon_def)
qed



end
